(* ===== verification/SLS_Prelude.thy ===== *)
theory SLS_Prelude imports Main "HOL-Library.AList" "HOL-Library.Sublist" begin

text \<open>
  Shared vocabulary of the development: the Python exceptions the program raises or catches,
  results as sums, insertion-ordered dictionaries as association lists, JSON values, and the
  string operations of Python's \<^verbatim>\<open>str\<close> that the modules under
  \<^verbatim>\<open>src/steamos_log_submitter\<close> call.

  A Python string is a HOL \<open>string\<close>: a list of code points below 256. The character classes
  (letters, digits, white space) are Python's on the ASCII range, which is what helper names, unit
  names, process names and configuration keys are made of.
\<close>

named_theorems str_simps \<open>equations of the string operations\<close>
named_theorems dict_simps \<open>equations of the dictionary operations\<close>

section \<open>Exceptions and results\<close>

datatype exn =
    KeyError string
  | ValueError
  | TypeError
  | AttributeError
  | IndexError
  | AssertionError
  | NotImplementedError
  | UnboundLocalError
  | RuntimeError
  | FileNotFoundError
  | FileExistsError
  | PermissionError
  | OSError
  | JSONDecodeError
  | BadZipFile
  | LockHeldError
  | LockNotHeldError
  | InvalidArgumentsError
  | TransientError
  | PermanentError
  | ClassError
  | InterpolationError
  | CalledProcessError
  | NetworkError
  | ELFError
  | CancelledError
  | ConnectionRefusedError
  | InterfaceNotFoundError
  | DBusError string string
  | OtherException

type_synonym 'a result = "exn + 'a"

text \<open>The exceptions a handler \<^verbatim>\<open>except OSError\<close> catches: OSError and its subclasses.\<close>

fun is_OSError :: "exn \<Rightarrow> bool" where
  "is_OSError FileNotFoundError = True"
| "is_OSError FileExistsError = True"
| "is_OSError PermissionError = True"
| "is_OSError OSError = True"
| "is_OSError ConnectionRefusedError = True"
| "is_OSError _ = False"

text \<open>\<^verbatim>\<open>except ValueError\<close>: ValueError and its subclass json.JSONDecodeError.\<close>

fun is_ValueError :: "exn \<Rightarrow> bool" where
  "is_ValueError ValueError = True"
| "is_ValueError JSONDecodeError = True"
| "is_ValueError _ = False"

text \<open>\<^verbatim>\<open>except Exception\<close>: everything but the cancellation of a task.\<close>

definition is_Exception :: "exn \<Rightarrow> bool" where
  "is_Exception e = (e \<noteq> CancelledError)"

section \<open>Dictionaries\<close>

text \<open>
  A Python \<^verbatim>\<open>dict\<close> keeps the order in which its keys were first inserted, and assigning
  to a present key keeps its place: this is what \<open>AList.update\<close> does on an association list.
\<close>

type_synonym ('k, 'v) dict = "('k \<times> 'v) list"

definition dict_get :: "('k, 'v) dict \<Rightarrow> 'k \<Rightarrow> 'v option" where
  "dict_get d k = map_of d k"

definition dict_set :: "('k, 'v) dict \<Rightarrow> 'k \<Rightarrow> 'v \<Rightarrow> ('k, 'v) dict" where
  "dict_set d k v = AList.update k v d"

definition dict_del :: "('k, 'v) dict \<Rightarrow> 'k \<Rightarrow> ('k, 'v) dict" where
  "dict_del d k = AList.delete k d"

definition dict_has :: "('k, 'v) dict \<Rightarrow> 'k \<Rightarrow> bool" where
  "dict_has d k = (dict_get d k \<noteq> None)"

definition dict_keys :: "('k, 'v) dict \<Rightarrow> 'k list" where
  "dict_keys d = map fst d"

definition dict_update :: "('k, 'v) dict \<Rightarrow> ('k, 'v) dict \<Rightarrow> ('k, 'v) dict" where
  "dict_update d e = fold (\<lambda>(k, v) acc. dict_set acc k v) e d"

definition dict_getd :: "('k, 'v) dict \<Rightarrow> 'k \<Rightarrow> 'v \<Rightarrow> 'v" where
  "dict_getd d k dflt = (case dict_get d k of None \<Rightarrow> dflt | Some v \<Rightarrow> v)"

lemma dict_get_Nil [simp, dict_simps]: "dict_get [] k = None"
  by (simp add: dict_get_def)

lemma dict_get_Cons [simp, dict_simps]:
  "dict_get ((a, b) # d) k = (if k = a then Some b else dict_get d k)"
  by (simp add: dict_get_def)

lemma dict_set_Nil [simp, dict_simps]: "dict_set [] k v = [(k, v)]"
  by (simp add: dict_set_def)

lemma dict_set_Cons [simp, dict_simps]:
  "dict_set ((a, b) # d) k v = (if k = a then (k, v) # d else (a, b) # dict_set d k v)"
  by (simp add: dict_set_def)

lemma dict_get_set [simp, dict_simps]:
  "dict_get (dict_set d k v) k' = (if k' = k then Some v else dict_get d k')"
  by (simp add: dict_get_def dict_set_def update_conv)

lemma dict_get_del [simp, dict_simps]:
  "dict_get (dict_del d k) k' = (if k' = k then None else dict_get d k')"
  by (simp add: dict_get_def dict_del_def delete_conv)

lemma dict_set_same: "dict_get d k = Some v \<Longrightarrow> dict_set d k v = d"
  by (induction d) (auto split: if_splits)

lemma dict_has_set [simp, dict_simps]: "dict_has (dict_set d k v) k' = (k' = k \<or> dict_has d k')"
  by (simp add: dict_has_def)

lemma dict_has_Nil [simp, dict_simps]: "\<not> dict_has [] k"
  by (simp add: dict_has_def)

lemma dict_has_iff_keys: "dict_has d k \<longleftrightarrow> k \<in> set (dict_keys d)"
  by (auto simp: dict_has_def dict_get_def dict_keys_def map_of_eq_None_iff)

lemma set_dict_keys_set [simp]: "set (dict_keys (dict_set d k v)) = insert k (set (dict_keys d))"
  by (simp add: dict_keys_def dict_set_def dom_update)

lemma distinct_dict_set: "distinct (dict_keys d) \<Longrightarrow> distinct (dict_keys (dict_set d k v))"
  by (simp add: dict_keys_def dict_set_def distinct_update)

lemma dict_get_update:
  "dict_get (dict_update d e) k = (case map_of (rev e) k of None \<Rightarrow> dict_get d k | Some v \<Rightarrow> Some v)"
proof (induction e arbitrary: d)
  case Nil
  then show ?case by (simp add: dict_update_def)
next
  case (Cons p e)
  obtain a b where p: "p = (a, b)" by (cases p)
  have "dict_update d (p # e) = dict_update (dict_set d a b) e"
    by (simp add: dict_update_def p)
  then show ?case
    by (simp add: Cons.IH p map_add_def split: option.splits)
qed

lemma set_map_filter: "set (List.map_filter f xs) = {y. \<exists>x \<in> set xs. f x = Some y}"
  by (induction xs) (auto simp: map_filter_simps split: option.splits)

section \<open>JSON values\<close>

text \<open>
  The values of \<^verbatim>\<open>types.JSON\<close>. A Python float is held as an integer count of 1e-9, which is
  exact for the time stamps the program stores (nanosecond clock readings and file times).
\<close>

datatype json =
    JNull
  | JBool bool
  | JInt int
  | JFloat int
  | JStr string
  | JList "json list"
  | JObj "(string \<times> json) list"

text \<open>Truth of a value in an \<^verbatim>\<open>if\<close>.\<close>

fun truthy :: "json \<Rightarrow> bool" where
  "truthy JNull = False"
| "truthy (JBool b) = b"
| "truthy (JInt n) = (n \<noteq> 0)"
| "truthy (JFloat n) = (n \<noteq> 0)"
| "truthy (JStr s) = (s \<noteq> [])"
| "truthy (JList xs) = (xs \<noteq> [])"
| "truthy (JObj d) = (d \<noteq> [])"

end
