(* ===== verification/Py_Strings.thy ===== *)
theory Py_Strings imports SLS_Prelude begin

text \<open>
  The operations of Python's \<^verbatim>\<open>str\<close>, \<^verbatim>\<open>int\<close> and \<^verbatim>\<open>os.path\<close> that the program calls, as total
  executable functions, with the lemmas the components share. An operation that can raise returns
  an option (\<open>None\<close> is the exception).
\<close>

section \<open>Character classes and case\<close>

definition code :: "char \<Rightarrow> nat" where "code c = of_char c"

definition is_lower :: "char \<Rightarrow> bool" where "is_lower c = (97 \<le> code c \<and> code c \<le> 122)"
definition is_upper :: "char \<Rightarrow> bool" where "is_upper c = (65 \<le> code c \<and> code c \<le> 90)"
definition is_digit :: "char \<Rightarrow> bool" where "is_digit c = (48 \<le> code c \<and> code c \<le> 57)"
definition is_alpha :: "char \<Rightarrow> bool" where "is_alpha c = (is_lower c \<or> is_upper c)"

definition is_space :: "char \<Rightarrow> bool" where
  "is_space c = (code c = 32 \<or> (9 \<le> code c \<and> code c \<le> 13) \<or> (28 \<le> code c \<and> code c \<le> 31))"

lemmas char_class_defs = code_def is_lower_def is_upper_def is_digit_def is_alpha_def is_space_def

definition upper_char :: "char \<Rightarrow> char" where
  "upper_char c = (if is_lower c then char_of (code c - 32) else c)"

definition lower_char :: "char \<Rightarrow> char" where
  "lower_char c = (if is_upper c then char_of (code c + 32) else c)"

definition py_upper :: "string \<Rightarrow> string" where "py_upper s = map upper_char s"
definition py_lower :: "string \<Rightarrow> string" where "py_lower s = map lower_char s"

lemmas case_defs = upper_char_def lower_char_def py_upper_def py_lower_def

lemma code_less [simp]: "code c < 256"
  by (simp add: code_def)

lemma code_eq_iff: "code a = code b \<longleftrightarrow> a = b"
  by (simp add: code_def)

lemma code_char_of [simp, str_simps]: "code (char_of n) = n mod 256"
  by (simp add: code_def)

lemma char_of_code [simp, str_simps]: "char_of (code c) = c"
  by (simp add: code_def)

lemma code_upper_char: "is_lower c \<Longrightarrow> code (upper_char c) = code c - 32"
proof -
  assume l: "is_lower c"
  have "code c - 32 < 256" using code_less [of c] by arith
  with l show ?thesis by (simp add: upper_char_def)
qed

lemma is_upper_upper_char [simp, str_simps]: "is_lower c \<Longrightarrow> is_upper (upper_char c)"
  by (auto simp: is_upper_def code_upper_char) (auto simp: is_lower_def)

lemma lower_upper_char [simp, str_simps]: "is_lower c \<Longrightarrow> lower_char (upper_char c) = c"
proof -
  assume l: "is_lower c"
  then have "code c - 32 + 32 = code c" by (auto simp: is_lower_def)
  with l show ?thesis by (simp add: lower_char_def code_upper_char)
qed

lemma not_upper_lower: "is_lower c \<Longrightarrow> \<not> is_upper c"
  by (auto simp: is_lower_def is_upper_def)

lemma not_lower_upper: "is_upper c \<Longrightarrow> \<not> is_lower c"
  by (auto simp: is_lower_def is_upper_def)

lemma not_upper_digit: "is_digit c \<Longrightarrow> \<not> is_upper c"
  by (auto simp: is_digit_def is_upper_def)

lemma not_lower_digit: "is_digit c \<Longrightarrow> \<not> is_lower c"
  by (auto simp: is_digit_def is_lower_def)

lemma not_digit_lower: "is_lower c \<Longrightarrow> \<not> is_digit c"
  by (auto simp: is_digit_def is_lower_def)

lemma lower_char_lower [simp, str_simps]: "is_lower c \<Longrightarrow> lower_char c = c"
  by (simp add: lower_char_def not_upper_lower)

lemma lower_char_digit [simp, str_simps]: "is_digit c \<Longrightarrow> lower_char c = c"
  by (simp add: lower_char_def not_upper_digit)

lemma not_space_digit: "is_digit c \<Longrightarrow> \<not> is_space c"
  by (auto simp: is_digit_def is_space_def)

lemma is_alpha_lower [simp]: "is_lower c \<Longrightarrow> is_alpha c"
  by (simp add: is_alpha_def)

lemma is_alpha_upper [simp]: "is_upper c \<Longrightarrow> is_alpha c"
  by (simp add: is_alpha_def)

lemma not_alpha_digit: "is_digit c \<Longrightarrow> \<not> is_alpha c"
  by (simp add: is_alpha_def not_lower_digit not_upper_digit)

lemmas char_disjoint = not_upper_lower not_lower_upper not_upper_digit not_lower_digit
  not_digit_lower not_space_digit not_alpha_digit

lemma underscore_class [simp]:
  "\<not> is_lower (CHR ''_'')" "\<not> is_upper (CHR ''_'')" "\<not> is_digit (CHR ''_'')" "\<not> is_alpha (CHR ''_'')"
  by (simp_all add: char_class_defs)

section \<open>strip, split, join, replace\<close>

definition lstrip :: "string \<Rightarrow> string" where "lstrip s = dropWhile is_space s"
definition rstrip :: "string \<Rightarrow> string" where "rstrip s = rev (dropWhile is_space (rev s))"
definition strip :: "string \<Rightarrow> string" where "strip s = rstrip (lstrip s)"

text \<open>\<^verbatim>\<open>s.strip(c)\<close>, \<^verbatim>\<open>s.rstrip(c)\<close> for a one-character \<^verbatim>\<open>c\<close>.\<close>

definition rstrip_char :: "char \<Rightarrow> string \<Rightarrow> string" where
  "rstrip_char c s = rev (dropWhile (\<lambda>x. x = c) (rev s))"

definition strip_char :: "char \<Rightarrow> string \<Rightarrow> string" where
  "strip_char c s = rstrip_char c (dropWhile (\<lambda>x. x = c) s)"

lemma dropWhile_none: "c \<notin> set s \<Longrightarrow> dropWhile (\<lambda>x. x = c) (s @ t) = (if s = [] then dropWhile (\<lambda>x. x = c) t else s @ t)"
  by (cases s) auto
lemma strip_char_quoted: "c \<notin> set v \<Longrightarrow> strip_char c (c # v @ [c]) = v"
proof -
  assume v: "c \<notin> set v"
  have "dropWhile (\<lambda>x. x = c) (rev v) = rev v" using dropWhile_none [of c "rev v" "[]"] v by simp
  then show ?thesis using dropWhile_none [OF v, of "[c]"] by (simp add: strip_char_def rstrip_char_def)
qed

text \<open>\<^verbatim>\<open>s.split(c)\<close>: always at least one part.\<close>

fun split_on :: "char \<Rightarrow> string \<Rightarrow> string list" where
  "split_on c [] = [[]]"
| "split_on c (x # xs) =
     (if x = c then [] # split_on c xs
      else (case split_on c xs of [] \<Rightarrow> [[x]] | y # ys \<Rightarrow> (x # y) # ys))"

text \<open>\<^verbatim>\<open>s.split(c, 1)\<close>: the part before the first \<^verbatim>\<open>c\<close> and, when there is one, the rest.\<close>

definition before :: "char \<Rightarrow> string \<Rightarrow> string" where
  "before c s = takeWhile (\<lambda>x. x \<noteq> c) s"

definition after :: "char \<Rightarrow> string \<Rightarrow> string" where
  "after c s = tl (dropWhile (\<lambda>x. x \<noteq> c) s)"

text \<open>\<^verbatim>\<open>s.rsplit(c, 1)[0]\<close> and \<^verbatim>\<open>s.split(c)[-1]\<close>.\<close>

definition rsplit_head :: "char \<Rightarrow> string \<Rightarrow> string" where
  "rsplit_head c s = (if c \<in> set s then rev (after c (rev s)) else s)"

definition last_part :: "char \<Rightarrow> string \<Rightarrow> string" where
  "last_part c s = rev (before c (rev s))"

text \<open>\<^verbatim>\<open>s.split()\<close>: the maximal runs of characters that are not white space.\<close>

fun words_aux :: "string \<Rightarrow> string \<Rightarrow> string list" where
  "words_aux acc [] = (if acc = [] then [] else [rev acc])"
| "words_aux acc (x # xs) =
     (if is_space x then (if acc = [] then words_aux [] xs else rev acc # words_aux [] xs)
      else words_aux (x # acc) xs)"

definition py_words :: "string \<Rightarrow> string list" where "py_words s = words_aux [] s"

text \<open>\<^verbatim>\<open>sep.join(parts)\<close>.\<close>

fun join :: "string \<Rightarrow> string list \<Rightarrow> string" where
  "join sep [] = []"
| "join sep [x] = x"
| "join sep (x # y # ys) = x @ sep @ join sep (y # ys)"

text \<open>\<^verbatim>\<open>s.replace(old, new)\<close> for a non-empty \<^verbatim>\<open>old\<close>: left to right, without overlap.\<close>

function py_replace :: "string \<Rightarrow> string \<Rightarrow> string \<Rightarrow> string" where
  "py_replace old new [] = []"
| "py_replace old new (x # xs) =
     (if old \<noteq> [] \<and> prefix old (x # xs)
      then new @ py_replace old new (drop (length old) (x # xs))
      else x # py_replace old new xs)"
  by pat_completeness auto
termination
  by (relation "measure (\<lambda>(old, new, s). length s)") auto

text \<open>\<^verbatim>\<open>s.removeprefix(p)\<close>.\<close>

definition removeprefix :: "string \<Rightarrow> string \<Rightarrow> string" where
  "removeprefix p s = (if prefix p s then drop (length p) s else s)"

lemma split_on_not_Nil [simp]: "split_on c s \<noteq> []"
  by (induction s) (auto split: list.splits)

lemma split_on_single: "c \<notin> set s \<Longrightarrow> split_on c s = [s]"
  by (induction s) auto

lemma join_Cons: "ps \<noteq> [] \<Longrightarrow> join sep (p # ps) = p @ sep @ join sep ps"
  by (cases ps) auto

lemma join_split_on: "join [c] (split_on c s) = s"
proof (induction s)
  case Nil
  then show ?case by simp
next
  case (Cons x xs)
  obtain y ys where yys: "split_on c xs = y # ys" by (cases "split_on c xs") auto
  then show ?case using Cons by (cases ys) (auto simp: join_Cons)
qed

lemma split_on_no_sep: "p \<in> set (split_on c s) \<Longrightarrow> c \<notin> set p"
  by (induction s arbitrary: p) (auto split: list.splits if_splits)

lemma before_after: "c \<in> set s \<Longrightarrow> s = before c s @ c # after c s"
  by (induction s) (auto simp: before_def after_def)

lemma before_append [simp, str_simps]: "c \<notin> set a \<Longrightarrow> before c (a @ c # b) = a"
  by (induction a) (auto simp: before_def)

lemma after_append [simp, str_simps]: "c \<notin> set a \<Longrightarrow> after c (a @ c # b) = b"
  by (induction a) (auto simp: after_def)

lemma before_not_in [simp]: "c \<notin> set (before c s)"
  by (induction s) (auto simp: before_def)

lemma before_none [simp, str_simps]: "c \<notin> set s \<Longrightarrow> before c s = s"
  by (induction s) (auto simp: before_def)

lemma last_part_not_in [simp]: "c \<notin> set (last_part c s)"
  by (simp add: last_part_def)

lemma rsplit_head_append [simp, str_simps]: "c \<notin> set b \<Longrightarrow> rsplit_head c (a @ c # b) = a"
  by (simp add: rsplit_head_def)

lemma last_part_append [simp, str_simps]: "c \<notin> set b \<Longrightarrow> last_part c (a @ c # b) = b"
  by (simp add: last_part_def)

section \<open>Decimal numbers\<close>

text \<open>\<^verbatim>\<open>str(n)\<close> of an \<^verbatim>\<open>int\<close>.\<close>

definition digit_char :: "nat \<Rightarrow> char" where "digit_char n = char_of (48 + n)"

fun show_nat :: "nat \<Rightarrow> string" where
  "show_nat n = (if n < 10 then [digit_char n] else show_nat (n div 10) @ [digit_char (n mod 10)])"

declare show_nat.simps [simp del]

definition show_int :: "int \<Rightarrow> string" where
  "show_int i = (if i < 0 then CHR ''-'' # show_nat (nat (- i)) else show_nat (nat i))"

text \<open>\<^verbatim>\<open>int(s)\<close>: white space around, one sign, digits with single underscores between them.\<close>

definition digits_value :: "string \<Rightarrow> nat" where
  "digits_value s = foldl (\<lambda>a c. 10 * a + (code c - 48)) 0 (filter is_digit s)"

fun no_double_underscore :: "string \<Rightarrow> bool" where
  "no_double_underscore (a # b # s) =
     (\<not> (a = CHR ''_'' \<and> b = CHR ''_'') \<and> no_double_underscore (b # s))"
| "no_double_underscore _ = True"

definition digits_ok :: "string \<Rightarrow> bool" where
  "digits_ok s = (s \<noteq> [] \<and> is_digit (hd s) \<and> is_digit (last s)
     \<and> (\<forall>c \<in> set s. is_digit c \<or> c = CHR ''_'') \<and> no_double_underscore s)"

definition py_nat :: "string \<Rightarrow> int option" where
  "py_nat s = (if digits_ok s then Some (int (digits_value s)) else None)"

definition py_int :: "string \<Rightarrow> int option" where
  "py_int s = (case strip s of
       [] \<Rightarrow> None
     | c # cs \<Rightarrow> (if c = CHR ''-'' then map_option uminus (py_nat cs)
                  else if c = CHR ''+'' then py_nat cs else py_nat (c # cs)))"

lemma is_digit_digit_char [simp, str_simps]: "n < 10 \<Longrightarrow> is_digit (digit_char n)"
  by (simp add: digit_char_def is_digit_def)

lemma code_digit_char [simp, str_simps]: "n < 10 \<Longrightarrow> code (digit_char n) = 48 + n"
  by (simp add: digit_char_def)

lemma show_nat_not_Nil [simp]: "show_nat n \<noteq> []"
  by (subst show_nat.simps) simp

lemma show_nat_digits: "c \<in> set (show_nat n) \<Longrightarrow> is_digit c"
proof (induction n rule: show_nat.induct)
  case (1 n)
  then show ?case by (cases "n < 10") (auto simp: show_nat.simps [of n])
qed

lemma digits_value_show_nat [simp]: "digits_value (show_nat n) = n"
proof (induction n rule: show_nat.induct)
  case (1 n)
  show ?case
  proof (cases "n < 10")
    case True
    then show ?thesis by (simp add: show_nat.simps [of n] digits_value_def)
  next
    case False
    then have "digits_value (show_nat (n div 10)) = n div 10" by (rule 1)
    with False show ?thesis by (simp add: show_nat.simps [of n] digits_value_def)
  qed
qed

lemma no_double_underscore_digits: "\<forall>c \<in> set s. is_digit c \<Longrightarrow> no_double_underscore s"
proof (induction s rule: no_double_underscore.induct)
  case (1 a b s)
  then have "a \<noteq> CHR ''_''" by auto
  with 1 show ?case by simp
qed auto

lemma digits_ok_show_nat [simp]: "digits_ok (show_nat n)"
  unfolding digits_ok_def
  by (meson no_double_underscore_digits show_nat_digits show_nat_not_Nil hd_in_set last_in_set)

lemma strip_no_space: "\<forall>c \<in> set s. \<not> is_space c \<Longrightarrow> strip s = s"
proof -
  assume ns: "\<forall>c \<in> set s. \<not> is_space c"
  have *: "\<And>xs. \<forall>c \<in> set xs. \<not> is_space c \<Longrightarrow> dropWhile is_space xs = xs"
    by (metis dropWhile_eq_self_iff hd_in_set)
  from ns show ?thesis by (simp add: strip_def lstrip_def rstrip_def *)
qed

lemma py_int_show_nat [simp]: "py_int (show_nat n) = Some (int n)"
proof -
  have "strip (show_nat n) = show_nat n"
    by (rule strip_no_space) (auto dest: show_nat_digits not_space_digit)
  moreover obtain c cs where c: "show_nat n = c # cs" by (cases "show_nat n") auto
  moreover have "is_digit c" using show_nat_digits [of c n] c by simp
  then have "c \<noteq> CHR ''-''" "c \<noteq> CHR ''+''" by (auto simp: is_digit_def code_def)
  ultimately show ?thesis
    using digits_ok_show_nat [of n] digits_value_show_nat [of n] by (simp add: py_int_def py_nat_def)
qed

lemma show_nat_inj: "show_nat m = show_nat n \<Longrightarrow> m = n"
  by (metis digits_value_show_nat)

section \<open>Paths\<close>

text \<open>\<^verbatim>\<open>os.path.basename\<close>, and \<^verbatim>\<open>os.path.splitext\<close> on a base name: a leading run of dots starts
  no extension.\<close>

definition basename :: "string \<Rightarrow> string" where
  "basename p = last_part (CHR ''/'') p"

definition splitext :: "string \<Rightarrow> string \<times> string" where
  "splitext b = (let r = rsplit_head (CHR ''.'') b
     in if CHR ''.'' \<in> set b \<and> (\<exists>c \<in> set r. c \<noteq> CHR ''.'') then (r, drop (length r) b) else (b, []))"

lemma basename_no_slash [simp]: "CHR ''/'' \<notin> set (basename p)"
  by (simp add: basename_def)

lemma basename_append: "CHR ''/'' \<notin> set b \<Longrightarrow> basename (a @ CHR ''/'' # b) = b"
  by (simp add: basename_def)

lemma splitext_dot: "CHR ''.'' \<notin> set e \<Longrightarrow> \<exists>c \<in> set a. c \<noteq> CHR ''.'' \<Longrightarrow> fst (splitext (a @ CHR ''.'' # e)) = a"
  by (simp add: splitext_def Let_def)

lemma prefix_drop: "prefix r b \<Longrightarrow> r @ drop (length r) b = b"
  by (auto elim: prefixE)

lemma splitext_append: "fst (splitext b) @ snd (splitext b) = b"
proof (cases "CHR ''.'' \<in> set b")
  case True
  then have "CHR ''.'' \<in> set (rev b)" by simp
  then have "rev b = before (CHR ''.'') (rev b) @ CHR ''.'' # after (CHR ''.'') (rev b)"
    by (rule before_after)
  then have "b = rev (after (CHR ''.'') (rev b)) @ CHR ''.'' # rev (before (CHR ''.'') (rev b))"
    by (metis rev_append rev.simps(2) rev_rev_ident append_assoc append_Cons append_Nil)
  then have "prefix (rsplit_head (CHR ''.'') b) b"
    using True by (metis prefixI rsplit_head_def)
  then show ?thesis by (simp add: splitext_def Let_def prefix_drop)
next
  case False
  then show ?thesis by (simp add: splitext_def)
qed

end
