(* ===== verification/Lockfile.thy ===== *)
theory Lockfile imports Py_Strings begin

text \<open>
  \<^verbatim>\<open>steamos_log_submitter/lockfile.py\<close>: the lock file that keeps two processes from working on the
  same helper directory. The file system is explicit (directory entries, inodes with their contents,
  the open descriptors that \<^verbatim>\<open>/proc/<pid>/fd\<close> shows), every system call of \<^verbatim>\<open>Lockfile.lock\<close> and
  \<^verbatim>\<open>Lockfile.unlock\<close> is one step of a process, and the same step function is run alone
  (\<open>lock_alone\<close>) and interleaved with other processes (\<open>lock_step\<close>).
\<close>

section \<open>The part of the file system a lock touches\<close>

record lfs =
  entry :: "(string, nat) dict"            \<comment> \<open>path to inode\<close>
  content :: "(nat, string) dict"          \<comment> \<open>inode to text\<close>
  fds :: "(nat \<times> nat, nat) dict"           \<comment> \<open>open descriptor (pid, fd) to inode\<close>
  next_ino :: nat
  hidden :: "nat list"                     \<comment> \<open>pids whose /proc/PID/fd this user may not stat\<close>

definition text_of :: "lfs \<Rightarrow> nat \<Rightarrow> string" where
  "text_of fs ino = dict_getd (content fs) ino []"

definition free_fd :: "lfs \<Rightarrow> nat \<Rightarrow> nat" where
  "free_fd fs pid =
     (case filter (\<lambda>n. \<not> dict_has (fds fs) (pid, n)) [0..<Suc (length (fds fs))] of
        [] \<Rightarrow> Suc (length (fds fs)) | n # _ \<Rightarrow> n)"

text \<open>The text \<^verbatim>\<open>/proc/{pid}/fd/{fileno}\<close> a holder stores in its lock file.\<close>

definition proc_fd :: "nat \<Rightarrow> nat \<Rightarrow> string" where
  "proc_fd pid fd = ''/proc/'' @ show_nat pid @ ''/fd/'' @ show_nat fd"

text \<open>
  \<^verbatim>\<open>os.stat(path)\<close> as far as the lock uses it: the inode behind a path. A path of the form
  \<^verbatim>\<open>/proc/P/fd/N\<close> is followed to the file that descriptor has open.
\<close>

definition parse_proc_fd :: "string \<Rightarrow> (nat \<times> nat) option" where
  "parse_proc_fd s = (case split_on (CHR ''/'') s of
       [e, p, pid, f, fd] \<Rightarrow>
         (if e = [] \<and> p = ''proc'' \<and> f = ''fd''
             \<and> show_nat (digits_value pid) = pid \<and> show_nat (digits_value fd) = fd
          then Some (digits_value pid, digits_value fd) else None)
     | _ \<Rightarrow> None)"

definition stat_path :: "lfs \<Rightarrow> string \<Rightarrow> nat result" where
  "stat_path fs s = (case parse_proc_fd s of
       Some (pid, fd) \<Rightarrow>
         (if pid \<in> set (hidden fs) then Inl PermissionError
          else (case dict_get (fds fs) (pid, fd) of None \<Rightarrow> Inl FileNotFoundError | Some i \<Rightarrow> Inr i))
     | None \<Rightarrow> (case dict_get (entry fs) s of None \<Rightarrow> Inl FileNotFoundError | Some i \<Rightarrow> Inr i))"

text \<open>\<^verbatim>\<open>open(path, 'x')\<close> on a missing path, \<^verbatim>\<open>open(path, 'w')\<close> on any path, a write at offset 0.\<close>

definition create_file :: "lfs \<Rightarrow> nat \<Rightarrow> string \<Rightarrow> nat \<times> lfs" where
  "create_file fs pid p = (let ino = next_ino fs; fd = free_fd fs pid in
     (fd, fs\<lparr>entry := dict_set (entry fs) p ino, content := dict_set (content fs) ino [],
             fds := dict_set (fds fs) (pid, fd) ino, next_ino := Suc ino\<rparr>))"

definition open_w :: "lfs \<Rightarrow> nat \<Rightarrow> string \<Rightarrow> nat \<times> lfs" where
  "open_w fs pid p = (case dict_get (entry fs) p of
       None \<Rightarrow> create_file fs pid p
     | Some ino \<Rightarrow> (let fd = free_fd fs pid in
         (fd, fs\<lparr>content := dict_set (content fs) ino [], fds := dict_set (fds fs) (pid, fd) ino\<rparr>)))"

definition write_fd :: "lfs \<Rightarrow> nat \<Rightarrow> nat \<Rightarrow> string \<Rightarrow> lfs" where
  "write_fd fs pid fd s = (case dict_get (fds fs) (pid, fd) of
       None \<Rightarrow> fs
     | Some ino \<Rightarrow> fs\<lparr>content := dict_set (content fs) ino (s @ drop (length s) (text_of fs ino))\<rparr>)"

section \<open>Lockfile.lock and Lockfile.unlock, one system call at a time\<close>

text \<open>
  Where a process is in \<^verbatim>\<open>lock\<close> and \<^verbatim>\<open>unlock\<close>. \<open>Holding fd\<close> is \<^verbatim>\<open>self.lockfile\<close> set with the
  lock obtained; \<open>Raised e\<close> is the exception leaving \<^verbatim>\<open>lock\<close> with \<^verbatim>\<open>self.lockfile\<close> still None,
  \<open>Stuck fd e\<close> one leaving \<^verbatim>\<open>unlock\<close> with \<^verbatim>\<open>self.lockfile\<close> still set.
\<close>

datatype pc =
    Idle
  | TryExcl
  | OpenRead
  | Reading nat nat          \<comment> \<open>inode being read, reads done\<close>
  | StatSelf string          \<comment> \<open>the text read\<close>
  | StatOwner string nat     \<comment> \<open>the text read, the inode at the path\<close>
  | TakeOver
  | WriteInfo nat
  | Holding nat
  | Closing nat
  | Raised exn
  | Stuck nat exn

text \<open>What follows the three reads: \<^verbatim>\<open>lockinfo\<close> is a string there, never None.\<close>

definition after_read :: "string \<Rightarrow> pc" where
  "after_read info = (if prefix ''/proc/'' info then StatSelf info else TakeOver)"

text \<open>One system call of \<^verbatim>\<open>lock\<close>; the other locations do not move.\<close>

fun lock_call :: "nat \<Rightarrow> string \<Rightarrow> pc \<Rightarrow> lfs \<Rightarrow> pc \<times> lfs" where
  "lock_call pid p TryExcl fs =
     (if dict_has (entry fs) p then (OpenRead, fs)
      else (case create_file fs pid p of (fd, fs') \<Rightarrow> (WriteInfo fd, fs')))"
| "lock_call pid p OpenRead fs =
     (case dict_get (entry fs) p of None \<Rightarrow> (TryExcl, fs) | Some ino \<Rightarrow> (Reading ino 0, fs))"
| "lock_call pid p (Reading ino k) fs =
     (let info = text_of fs ino
      in if info \<noteq> [] \<or> 2 \<le> k then (after_read info, fs) else (Reading ino (Suc k), fs))"
| "lock_call pid p (StatSelf info) fs =
     (case dict_get (entry fs) p of
        None \<Rightarrow> (Raised FileNotFoundError, fs) | Some ino \<Rightarrow> (StatOwner info ino, fs))"
| "lock_call pid p (StatOwner info ino) fs =
     (case stat_path fs (strip info) of
        Inr ino' \<Rightarrow> (if ino' = ino then (Raised LockHeldError, fs) else (TakeOver, fs))
      | Inl e \<Rightarrow> (if e = FileNotFoundError \<or> e = PermissionError then (TakeOver, fs) else (Raised e, fs)))"
| "lock_call pid p TakeOver fs = (case open_w fs pid p of (fd, fs') \<Rightarrow> (WriteInfo fd, fs'))"
| "lock_call pid p (WriteInfo fd) fs = (Holding fd, write_fd fs pid fd (proc_fd pid fd))"
| "lock_call pid p c fs = (c, fs)"

text \<open>The two system calls of \<^verbatim>\<open>unlock\<close> on a held lock: unlink, then close.\<close>

fun unlock_call :: "nat \<Rightarrow> string \<Rightarrow> pc \<Rightarrow> lfs \<Rightarrow> pc \<times> lfs" where
  "unlock_call pid p (Holding fd) fs =
     (if dict_has (entry fs) p then (Closing fd, fs\<lparr>entry := dict_del (entry fs) p\<rparr>)
      else (Stuck fd FileNotFoundError, fs))"
| "unlock_call pid p (Closing fd) fs = (Idle, fs\<lparr>fds := dict_del (fds fs) (pid, fd)\<rparr>)"
| "unlock_call pid p c fs = (c, fs)"

section \<open>A Lockfile object used with no other process running\<close>

text \<open>
  \<^verbatim>\<open>self.lockfile\<close> is \<open>None\<close> or the descriptor. The loop of \<^verbatim>\<open>lock\<close> is run to its end;
  \<open>lock_fuel\<close> calls are more than it ever needs alone (lemma \<open>run_lock_done\<close>).
\<close>

fun run_lock :: "nat \<Rightarrow> nat \<Rightarrow> string \<Rightarrow> pc \<Rightarrow> lfs \<Rightarrow> pc \<times> lfs" where
  "run_lock 0 pid p c fs = (c, fs)"
| "run_lock (Suc n) pid p c fs = (case lock_call pid p c fs of (c', fs') \<Rightarrow> run_lock n pid p c' fs')"

definition lock_fuel :: nat where "lock_fuel = 9"

definition lock_alone :: "nat \<Rightarrow> string \<Rightarrow> nat option \<Rightarrow> lfs \<Rightarrow> unit result \<times> nat option \<times> lfs" where
  "lock_alone pid p h fs = (case h of
       Some fd \<Rightarrow> (Inr (), Some fd, fs)
     | None \<Rightarrow> (case run_lock lock_fuel pid p TryExcl fs of
         (Holding fd, fs') \<Rightarrow> (Inr (), Some fd, fs')
       | (Raised e, fs') \<Rightarrow> (Inl e, None, fs')
       | (_, fs') \<Rightarrow> (Inl OtherException, None, fs')))"

definition unlock_alone :: "nat \<Rightarrow> string \<Rightarrow> nat option \<Rightarrow> lfs \<Rightarrow> unit result \<times> nat option \<times> lfs" where
  "unlock_alone pid p h fs = (case h of
       None \<Rightarrow> (Inl LockNotHeldError, None, fs)
     | Some fd \<Rightarrow> (case unlock_call pid p (Holding fd) fs of
         (Closing fd', fs1) \<Rightarrow> (case unlock_call pid p (Closing fd') fs1 of (_, fs2) \<Rightarrow> (Inr (), None, fs2))
       | (_, fs1) \<Rightarrow> (Inl FileNotFoundError, Some fd, fs1)))"

section \<open>The lock alone\<close>

text \<open>A descriptor owns the lock at a path: it has the file there open and the file names it.\<close>

definition owns :: "lfs \<Rightarrow> string \<Rightarrow> nat \<Rightarrow> nat \<Rightarrow> bool" where
  "owns fs p pid fd = (case dict_get (entry fs) p of
       None \<Rightarrow> False
     | Some ino \<Rightarrow> dict_get (fds fs) (pid, fd) = Some ino \<and> text_of fs ino = proc_fd pid fd)"

text \<open>The test of lines 59 to 67: the text names a descriptor that has this very file open.\<close>

definition live :: "lfs \<Rightarrow> string \<Rightarrow> bool" where
  "live fs p = (case dict_get (entry fs) p of
       None \<Rightarrow> False
     | Some ino \<Rightarrow> prefix ''/proc/'' (text_of fs ino) \<and> stat_path fs (strip (text_of fs ino)) = Inr ino)"

lemma show_nat_no_slash [simp]: "CHR ''/'' \<notin> set (show_nat n)"
  by (auto dest!: show_nat_digits simp: is_digit_def code_def)

lemma split_on_append: "c \<notin> set a \<Longrightarrow> split_on c (a @ c # b) = a # split_on c b"
  by (induction a) auto

lemma parse_proc_fd [simp]: "parse_proc_fd (proc_fd pid fd) = Some (pid, fd)"
proof -
  have "split_on (CHR ''/'') (proc_fd pid fd) = [[], ''proc'', show_nat pid, ''fd'', show_nat fd]"
    using split_on_append [of "CHR ''/''" "show_nat pid" "''fd/'' @ show_nat fd"]
    by (simp add: proc_fd_def split_on_single)
  then show ?thesis by (simp add: parse_proc_fd_def)
qed

lemma proc_fd_inj: "proc_fd a b = proc_fd c d \<longleftrightarrow> a = c \<and> b = d"
  by (metis parse_proc_fd option.inject prod.inject)

lemma proc_fd_prefix [simp]: "prefix ''/proc/'' (proc_fd pid fd)"
  by (simp add: proc_fd_def)

lemma strip_proc_fd [simp]: "strip (proc_fd pid fd) = proc_fd pid fd"
proof (rule strip_no_space, intro ballI)
  fix c assume "c \<in> set (proc_fd pid fd)"
  then have "c \<in> set ''/procfd'' \<or> is_digit c"
    by (auto simp: proc_fd_def dest: show_nat_digits)
  then show "\<not> is_space c"
    by (auto simp: is_space_def code_def is_digit_def)
qed

lemma proc_fd_not_Nil [simp]: "proc_fd pid fd \<noteq> []"
  by (simp add: proc_fd_def)

lemma owns_inj: "owns fs p a b \<Longrightarrow> owns fs p c d \<Longrightarrow> a = c \<and> b = d"
  by (auto simp: owns_def proc_fd_inj split: option.splits)

lemma owns_live: "owns fs p pid fd \<Longrightarrow> pid \<notin> set (hidden fs) \<Longrightarrow> live fs p"
  by (auto simp: owns_def live_def stat_path_def split: option.splits)

lemma text_of_simps [simp]:
  "text_of (fs\<lparr>content := dict_set c ino t, fds := f\<rparr>) i = (if i = ino then t else dict_getd c i [])"
  "text_of (fs\<lparr>content := dict_set c ino t\<rparr>) i = (if i = ino then t else dict_getd c i [])"
  "text_of (fs\<lparr>entry := e, content := dict_set c ino t, fds := f, next_ino := n\<rparr>) i
     = (if i = ino then t else dict_getd c i [])"
  by (simp_all add: text_of_def dict_getd_def)

lemma stat_path_err: "stat_path fs s = Inl e \<Longrightarrow> e = FileNotFoundError \<or> e = PermissionError"
  by (auto simp: stat_path_def split: option.splits prod.splits if_splits)

text \<open>The last two calls, creating or taking over and writing, leave the caller the owner.\<close>

definition obtain_lock :: "nat \<Rightarrow> string \<Rightarrow> lfs \<Rightarrow> nat \<times> lfs" where
  "obtain_lock pid p fs =
     (case open_w fs pid p of (fd, fs') \<Rightarrow> (fd, write_fd fs' pid fd (proc_fd pid fd)))"

lemma obtain_lock_owns: "obtain_lock pid p fs = (fd, fs') \<Longrightarrow> owns fs' p pid fd"
  by (auto simp: obtain_lock_def open_w_def create_file_def write_fd_def owns_def Let_def
      split: option.splits)

lemma obtain_lock_frame:
  "obtain_lock pid p fs = (fd, fs') \<Longrightarrow>
     (\<forall>q. q \<noteq> p \<longrightarrow> dict_get (entry fs') q = dict_get (entry fs) q)
     \<and> (\<forall>k. k \<noteq> (pid, fd) \<longrightarrow> dict_get (fds fs') k = dict_get (fds fs) k)
     \<and> dict_has (entry fs') p \<and> hidden fs' = hidden fs"
  by (auto simp: obtain_lock_def open_w_def create_file_def write_fd_def Let_def dict_has_def
      split: option.splits)

lemma run_lock_free:
  "\<not> dict_has (entry fs) p \<Longrightarrow> run_lock lock_fuel pid p TryExcl fs
     = (case obtain_lock pid p fs of (fd, fs') \<Rightarrow> (Holding fd, fs'))"
  by (simp add: lock_fuel_def eval_nat_numeral obtain_lock_def open_w_def dict_has_def split: prod.splits)

lemma run_lock_live:
  "live fs p \<Longrightarrow> run_lock lock_fuel pid p TryExcl fs = (Raised LockHeldError, fs)"
  by (auto simp: live_def lock_fuel_def eval_nat_numeral dict_has_def after_read_def Let_def
      split: option.splits)

lemma run_lock_stale:
  assumes "dict_get (entry fs) p = Some ino" and "\<not> live fs p"
  shows "run_lock lock_fuel pid p TryExcl fs
     = (case obtain_lock pid p fs of (fd, fs') \<Rightarrow> (Holding fd, fs'))"
proof (cases "prefix ''/proc/'' (text_of fs ino)")
  case False
  then show ?thesis using assms
    by (cases "text_of fs ino = []")
       (auto simp: lock_fuel_def eval_nat_numeral dict_has_def after_read_def obtain_lock_def
         split: prod.splits)
next
  case True
  then have ne: "text_of fs ino \<noteq> []" by auto
  have "stat_path fs (strip (text_of fs ino)) \<noteq> Inr ino"
    using assms True by (simp add: live_def)
  then have "lock_call pid p (StatOwner (text_of fs ino) ino) fs = (TakeOver, fs)"
    by (auto split: sum.splits dest: stat_path_err)
  with True ne assms(1) show ?thesis
    by (simp add: lock_fuel_def eval_nat_numeral dict_has_def after_read_def obtain_lock_def
        del: lock_call.simps(5) split: prod.splits)
qed

text \<open>
  What \<^verbatim>\<open>lock\<close> does when no other process runs: a live lock raises LockHeldError and changes
  nothing, anything else (no file, a stale file, an unreadable owner) is taken.
\<close>

lemma lock_alone_eq:
  "lock_alone pid p None fs =
     (if live fs p then (Inl LockHeldError, None, fs)
      else (case obtain_lock pid p fs of (fd, fs') \<Rightarrow> (Inr (), Some fd, fs')))"
proof (cases "dict_get (entry fs) p")
  case None
  then have "\<not> live fs p" "\<not> dict_has (entry fs) p" by (simp_all add: live_def dict_has_def)
  then show ?thesis by (simp add: lock_alone_def run_lock_free split: prod.splits)
next
  case (Some ino)
  then show ?thesis
    by (cases "live fs p")
       (simp_all add: lock_alone_def run_lock_live run_lock_stale split: prod.splits)
qed

lemma run_lock_done:
  "\<exists>c fs'. run_lock lock_fuel pid p TryExcl fs = (c, fs') \<and> (c = Raised LockHeldError \<or> (\<exists>fd. c = Holding fd))"
proof (cases "dict_get (entry fs) p")
  case None
  then show ?thesis by (simp add: run_lock_free dict_has_def split: prod.splits)
next
  case (Some ino)
  then show ?thesis
    by (cases "live fs p") (simp_all add: run_lock_live run_lock_stale split: prod.splits)
qed

lemma unlock_alone_owned:
  "owns fs p pid fd \<Longrightarrow> unlock_alone pid p (Some fd) fs
     = (Inr (), None, fs\<lparr>entry := dict_del (entry fs) p, fds := dict_del (fds fs) (pid, fd)\<rparr>)"
  by (auto simp: owns_def unlock_alone_def dict_has_def split: option.splits)

end
