(* ===== verification/Lock_Protocol.thy ===== *)
theory Lock_Protocol imports Lockfile begin

text \<open>
  Many processes using one lock file: \<open>lock_step\<close> interleaves the system calls of
  \<^verbatim>\<open>Lockfile.lock\<close> and \<^verbatim>\<open>Lockfile.unlock\<close> and lets a process die between any two of them, which
  closes its descriptors and leaves its lock file behind. Also \<^verbatim>\<open>LockRetry\<close>.
\<close>

section \<open>The interleaved system\<close>

record lsys =
  pcs :: "nat \<Rightarrow> pc"
  lfs_of :: lfs

definition close_all :: "lfs \<Rightarrow> nat \<Rightarrow> lfs" where
  "close_all fs pid = fs\<lparr>fds := filter (\<lambda>((q, _), _). q \<noteq> pid) (fds fs)\<rparr>"

definition startable :: "pc \<Rightarrow> bool" where
  "startable c = (case c of Idle \<Rightarrow> True | Raised _ \<Rightarrow> True | _ \<Rightarrow> False)"

text \<open>\<open>lock_step p i s s'\<close>: process \<open>i\<close> moves from \<open>s\<close> to \<open>s'\<close>, on the lock file \<open>p\<close>.\<close>

inductive lock_step :: "string \<Rightarrow> nat \<Rightarrow> lsys \<Rightarrow> lsys \<Rightarrow> bool" for p where
  begin_lock: "startable (pcs s i) \<Longrightarrow> lock_step p i s (s\<lparr>pcs := (pcs s)(i := TryExcl)\<rparr>)"
| in_lock: "lock_call i p (pcs s i) (lfs_of s) = (c, fs') \<Longrightarrow>
     lock_step p i s (s\<lparr>pcs := (pcs s)(i := c), lfs_of := fs'\<rparr>)"
| in_unlock: "unlock_call i p (pcs s i) (lfs_of s) = (c, fs') \<Longrightarrow>
     lock_step p i s (s\<lparr>pcs := (pcs s)(i := c), lfs_of := fs'\<rparr>)"
| die: "lock_step p i s (s\<lparr>pcs := (pcs s)(i := Idle), lfs_of := close_all (lfs_of s) i\<rparr>)"

inductive_cases lock_stepE: "lock_step p i s s'"

text \<open>Runs in which every step is made by a process of a given set.\<close>

inductive lock_runs :: "string \<Rightarrow> nat set \<Rightarrow> lsys \<Rightarrow> lsys \<Rightarrow> bool" for p who where
  stop: "lock_runs p who s s"
| more: "lock_runs p who s s' \<Longrightarrow> i \<in> who \<Longrightarrow> lock_step p i s' s'' \<Longrightarrow> lock_runs p who s s''"

definition holds :: "lsys \<Rightarrow> nat \<Rightarrow> bool" where
  "holds s i = (case pcs s i of Holding _ \<Rightarrow> True | _ \<Rightarrow> False)"

section \<open>A lock that was obtained undisturbed is kept\<close>

text \<open>
  The locations another process can be in without having decided to take the lock over, given the
  inode \<open>ino\<close> at the path and the text \<open>t\<close> in it.
\<close>

fun harmless :: "nat \<Rightarrow> string \<Rightarrow> pc \<Rightarrow> bool" where
  "harmless ino t Idle = True"
| "harmless ino t TryExcl = True"
| "harmless ino t OpenRead = True"
| "harmless ino t (Raised _) = True"
| "harmless ino t (Reading i _) = (i = ino)"
| "harmless ino t (StatSelf info) = (info = t)"
| "harmless ino t (StatOwner info i) = (info = t \<and> i = ino)"
| "harmless ino t _ = False"

definition settled :: "string \<Rightarrow> nat \<Rightarrow> nat \<Rightarrow> lsys \<Rightarrow> bool" where
  "settled p i fd s = (pcs s i = Holding fd \<and> owns (lfs_of s) p i fd \<and> i \<notin> set (hidden (lfs_of s))
     \<and> (\<forall>j. j \<noteq> i \<longrightarrow> (case dict_get (entry (lfs_of s)) p of
           None \<Rightarrow> False | Some ino \<Rightarrow> harmless ino (proc_fd i fd) (pcs s j))))"

lemma harmless_call:
  assumes own: "owns fs p i fd" and vis: "i \<notin> set (hidden fs)" and ino: "dict_get (entry fs) p = Some ino"
    and h: "harmless ino (proc_fd i fd) c" and call: "lock_call j p c fs = (c', fs')"
  shows "harmless ino (proc_fd i fd) c' \<and> fs' = fs"
proof -
  from own ino have content_i: "text_of fs ino = proc_fd i fd"
    and open_fd: "dict_get (fds fs) (i, fd) = Some ino"
    by (auto simp: owns_def)
  have st: "stat_path fs (strip (proc_fd i fd)) = Inr ino"
    using open_fd vis by (simp add: stat_path_def)
  show ?thesis
    using h call ino content_i st
    by (cases c) (auto simp: dict_has_def after_read_def)
qed

lemma harmless_unlock:
  "harmless ino t c \<Longrightarrow> unlock_call j p c fs = (c', fs') \<Longrightarrow> c' = c \<and> fs' = fs"
  by (cases c) auto

lemma dict_get_filter_other:
  "q \<noteq> j \<Longrightarrow> dict_get (filter (\<lambda>((q, _), _). q \<noteq> j) d) (q, n) = dict_get d (q, n)"
  by (induction d) auto

lemma owns_close_all: "owns fs p i fd \<Longrightarrow> i \<noteq> j \<Longrightarrow> owns (close_all fs j) p i fd"
  by (auto simp: owns_def close_all_def text_of_def dict_get_filter_other split: option.splits)

lemma settled_step:
  assumes st: "settled p i fd s" and step: "lock_step p j s s'" and ne: "j \<noteq> i"
  shows "settled p i fd s'"
proof -
  from st obtain ino where ino: "dict_get (entry (lfs_of s)) p = Some ino"
    by (auto simp: settled_def owns_def split: option.splits)
  with st have own: "owns (lfs_of s) p i fd" and vis: "i \<notin> set (hidden (lfs_of s))"
    and pi: "pcs s i = Holding fd" and h: "\<And>k. k \<noteq> i \<Longrightarrow> harmless ino (proc_fd i fd) (pcs s k)"
    by (auto simp: settled_def)
  have keep: "settled p i fd (s\<lparr>pcs := (pcs s)(j := c), lfs_of := fs\<rparr>)"
    if "owns fs p i fd" "dict_get (entry fs) p = Some ino" "hidden fs = hidden (lfs_of s)"
      "harmless ino (proc_fd i fd) c" for c fs
    using that pi vis h ne by (simp add: settled_def)
  from step show ?thesis
  proof (cases rule: lock_step.cases)
    case begin_lock
    with keep [OF own ino, of TryExcl] show ?thesis by simp
  next
    case (in_lock c fs')
    then have "harmless ino (proc_fd i fd) c" "fs' = lfs_of s"
      using harmless_call [OF own vis ino h [OF ne] in_lock(2)] by simp_all
    with in_lock(1) keep [OF own ino] show ?thesis by simp
  next
    case (in_unlock c fs')
    then have "c = pcs s j" "fs' = lfs_of s"
      using harmless_unlock [OF h [OF ne] in_unlock(2)] by simp_all
    with in_unlock(1) st show ?thesis by simp
  next
    case die
    have "dict_get (entry (close_all (lfs_of s) j)) p = Some ino" "hidden (close_all (lfs_of s) j) = hidden (lfs_of s)"
      using ino by (simp_all add: close_all_def)
    with keep owns_close_all [OF own ne [symmetric]] die show ?thesis by simp
  qed
qed

lemma settled_runs: "lock_runs p who s s' \<Longrightarrow> i \<notin> who \<Longrightarrow> settled p i fd s \<Longrightarrow> settled p i fd s'"
  by (induction rule: lock_runs.induct) (auto intro: settled_step)

lemma settled_alone:
  assumes "settled p i fd s"
  shows "holds s j \<longleftrightarrow> j = i"
proof (cases "j = i")
  case True
  with assms show ?thesis by (simp add: settled_def holds_def)
next
  case False
  with assms obtain ino where "harmless ino (proc_fd i fd) (pcs s j)"
    by (auto simp: settled_def owns_def split: option.splits)
  with False show ?thesis by (cases "pcs s j") (auto simp: holds_def)
qed

text \<open>Running \<^verbatim>\<open>lock\<close> alone is a run of the interleaved system, and settles the lock.\<close>

lemma run_lock_settles:
  assumes "run_lock lock_fuel i p TryExcl (lfs_of s) = (Holding fd, fs')"
    and "\<forall>j. j \<noteq> i \<longrightarrow> startable (pcs s j)" and "i \<notin> set (hidden (lfs_of s))"
  shows "settled p i fd (s\<lparr>pcs := (pcs s)(i := Holding fd), lfs_of := fs'\<rparr>)"
proof -
  have ob: "obtain_lock i p (lfs_of s) = (fd, fs')"
    using assms(1) lock_alone_eq [of i p "lfs_of s"]
    by (auto simp: lock_alone_def run_lock_live split: if_splits prod.splits)
  have "owns fs' p i fd" using ob by (rule obtain_lock_owns)
  moreover have "hidden fs' = hidden (lfs_of s)" using obtain_lock_frame [OF ob] by blast
  moreover have "harmless ino t (pcs s j)" if "j \<noteq> i" for j ino t
    using assms(2) that by (cases "pcs s j") (auto simp: startable_def)
  ultimately show ?thesis using assms(3) by (auto simp: settled_def owns_def split: option.splits)
qed

section \<open>LockRetry\<close>

text \<open>
  \<^verbatim>\<open>LockRetry.__enter__\<close>: the loop over \<^verbatim>\<open>range(attempts)\<close> does not stop at the first success; the
  later rounds call \<^verbatim>\<open>lock\<close> on the lock already held, which returns at once. The state is the
  \<^verbatim>\<open>self.lockfile\<close> of the wrapped lock with the file system; \<open>sleep\<close> is what the other processes do
  to it during \<^verbatim>\<open>time.sleep(delay)\<close>.
\<close>

function retry_enter :: "nat \<Rightarrow> string \<Rightarrow> (lfs \<Rightarrow> lfs) \<Rightarrow> nat \<Rightarrow> nat \<Rightarrow> nat option \<Rightarrow> lfs
    \<Rightarrow> unit result \<times> nat option \<times> lfs" where
  "retry_enter pid p sleep attempts k h fs =
     (if attempts \<le> k then (Inr (), h, fs)
      else (case lock_alone pid p h fs of
          (Inr _, h', fs') \<Rightarrow> retry_enter pid p sleep attempts (Suc k) h' fs'
        | (Inl e, h', fs') \<Rightarrow>
            (if e \<noteq> LockHeldError \<or> Suc k = attempts then (Inl e, h', fs')
             else retry_enter pid p sleep attempts (Suc k) h' (sleep fs'))))"
  by pat_completeness auto
termination
  by (relation "measure (\<lambda>(pid, p, sleep, attempts, k, h, fs). attempts - k)") auto

declare retry_enter.simps [simp del]

text \<open>\<^verbatim>\<open>LockRetry.__exit__\<close>.\<close>

definition retry_exit :: "nat \<Rightarrow> string \<Rightarrow> nat option \<Rightarrow> lfs \<Rightarrow> unit result \<times> nat option \<times> lfs" where
  "retry_exit pid p h fs = unlock_alone pid p h fs"

lemma retry_enter_held: "retry_enter pid p sleep n k (Some fd) fs = (Inr (), Some fd, fs)"
proof (induction "n - k" arbitrary: k)
  case 0
  then show ?case by (simp add: retry_enter.simps [of pid p sleep n k])
next
  case (Suc m)
  then have "retry_enter pid p sleep n (Suc k) (Some fd) fs = (Inr (), Some fd, fs)" by simp
  with Suc show ?case by (simp add: retry_enter.simps [of pid p sleep n k] lock_alone_def)
qed

text \<open>\<open>n\<close> rounds of sleeping with the lock still live.\<close>

fun slept :: "(lfs \<Rightarrow> lfs) \<Rightarrow> nat \<Rightarrow> lfs \<Rightarrow> lfs" where
  "slept sleep 0 fs = fs"
| "slept sleep (Suc n) fs = slept sleep n (sleep fs)"

lemma retry_enter_fails:
  "k < n \<Longrightarrow> (\<And>m. m < n - k \<Longrightarrow> live (slept sleep m fs) p) \<Longrightarrow>
     fst (retry_enter pid p sleep n k None fs) = Inl LockHeldError"
proof (induction "n - k" arbitrary: k fs)
  case 0
  then show ?case by simp
next
  case (Suc m)
  from Suc.prems(2) [of 0] Suc.prems(1) have "live fs p" by simp
  then have l: "lock_alone pid p None fs = (Inl LockHeldError, None, fs)" by (simp add: lock_alone_eq)
  show ?case
  proof (cases "Suc k = n")
    case True
    with l show ?thesis by (simp add: retry_enter.simps [of pid p sleep n k])
  next
    case False
    have "live (slept sleep i (sleep fs)) p" if "i < n - Suc k" for i
      using Suc.prems(2) [of "Suc i"] that by simp
    then have "fst (retry_enter pid p sleep n (Suc k) None (sleep fs)) = Inl LockHeldError"
      using Suc.hyps(1) [of "Suc k" "sleep fs"] Suc.hyps(2) Suc.prems(1) False by simp
    with l False Suc.prems(1) show ?thesis by (simp add: retry_enter.simps [of pid p sleep n k])
  qed
qed

lemma retry_enter_succeeds:
  "m < n - k \<Longrightarrow> (\<And>i. i < m \<Longrightarrow> live (slept sleep i fs) p) \<Longrightarrow> \<not> live (slept sleep m fs) p \<Longrightarrow>
     retry_enter pid p sleep n k None fs
       = (case obtain_lock pid p (slept sleep m fs) of (fd, fs') \<Rightarrow> (Inr (), Some fd, fs'))"
proof (induction m arbitrary: k fs)
  case 0
  then show ?case
    by (simp add: retry_enter.simps [of pid p sleep n k] lock_alone_eq retry_enter_held split: prod.splits)
next
  case (Suc m)
  from Suc.prems(2) [of 0] have "live fs p" by simp
  then have l: "lock_alone pid p None fs = (Inl LockHeldError, None, fs)" by (simp add: lock_alone_eq)
  have "live (slept sleep i (sleep fs)) p" if "i < m" for i
    using Suc.prems(2) [of "Suc i"] that by simp
  then have "retry_enter pid p sleep n (Suc k) None (sleep fs)
      = (case obtain_lock pid p (slept sleep m (sleep fs)) of (fd, fs') \<Rightarrow> (Inr (), Some fd, fs'))"
    using Suc.IH [of "Suc k" "sleep fs"] Suc.prems(1,3) by simp
  moreover have "\<not> n \<le> k" "Suc k \<noteq> n" using Suc.prems(1) by auto
  ultimately show ?case using l by (simp add: retry_enter.simps [of pid p sleep n k])
qed

section \<open>Schedules\<close>

text \<open>The run in which the listed processes move in turn, each calling \<^verbatim>\<open>lock\<close>.\<close>

fun lock_sched :: "string \<Rightarrow> nat list \<Rightarrow> lsys \<Rightarrow> lsys" where
  "lock_sched p [] s = s"
| "lock_sched p (i # is) s =
     (if startable (pcs s i) then lock_sched p is (s\<lparr>pcs := (pcs s)(i := TryExcl)\<rparr>)
      else (case lock_call i p (pcs s i) (lfs_of s) of
        (c, fs') \<Rightarrow> lock_sched p is (s\<lparr>pcs := (pcs s)(i := c), lfs_of := fs'\<rparr>)))"

lemma lock_sched_runs: "lock_runs p UNIV s0 s \<Longrightarrow> lock_runs p UNIV s0 (lock_sched p is s)"
proof (induction "is" arbitrary: s)
  case Nil
  then show ?case by simp
next
  case (Cons i "is")
  show ?case
  proof (cases "startable (pcs s i)")
    case True
    with Cons.prems have "lock_runs p UNIV s0 (s\<lparr>pcs := (pcs s)(i := TryExcl)\<rparr>)"
      by (blast intro: lock_runs.more lock_step.begin_lock)
    with True Cons.IH show ?thesis by simp
  next
    case False
    obtain c fs' where call: "lock_call i p (pcs s i) (lfs_of s) = (c, fs')" by fastforce
    with Cons.prems have "lock_runs p UNIV s0 (s\<lparr>pcs := (pcs s)(i := c), lfs_of := fs'\<rparr>)"
      by (blast intro: lock_runs.more lock_step.in_lock)
    with False call Cons.IH show ?thesis by simp
  qed
qed

section \<open>Properties\<close>

definition empty_lfs :: lfs where
  "empty_lfs = \<lparr>entry = [], content = [], fds = [], next_ino = 0, hidden = []\<rparr>"

definition start_sys :: lsys where
  "start_sys = \<lparr>pcs = (\<lambda>_. Idle), lfs_of = empty_lfs\<rparr>"

lemmas lfs_eval = start_sys_def empty_lfs_def create_file_def open_w_def write_fd_def free_fd_def
  text_of_def dict_getd_def Let_def

text \<open>C12. Run with no other process, lock decides by the state of the lock file alone: when the text
  in the file names a descriptor that has this very file open it raises LockHeldError and changes
  nothing; in every other case it returns holding a descriptor that owns the file, and no other
  path and no other descriptor is touched.\<close>

theorem lock_decides:
  "case lock_alone pid p None fs of
     (Inl e, h, fs') \<Rightarrow> live fs p \<and> e = LockHeldError \<and> h = None \<and> fs' = fs
   | (Inr u, h, fs') \<Rightarrow> \<not> live fs p \<and> (\<exists>fd. h = Some fd \<and> owns fs' p pid fd
       \<and> (\<forall>q. q = p \<or> dict_get (entry fs') q = dict_get (entry fs) q)
       \<and> (\<forall>k. k = (pid, fd) \<or> dict_get (fds fs') k = dict_get (fds fs) k))"
proof (cases "live fs p")
  case True
  then show ?thesis by (simp add: lock_alone_eq)
next
  case False
  obtain fd fs' where ob: "obtain_lock pid p fs = (fd, fs')" by fastforce
  with False obtain_lock_owns [OF ob] obtain_lock_frame [OF ob] show ?thesis
    by (simp add: lock_alone_eq) blast
qed

text \<open>C5. A lock obtained while no other process is inside lock or unlock is exclusive until its
  holder acts: whatever the other processes then do, in any interleaving and with any of them dying
  at any point, the holder still owns the file and no other process holds the lock.\<close>

theorem lock_excludes:
  assumes "lock_alone i p None (lfs_of s) = (Inr (), Some fd, fs')"
    and "\<forall>j. j \<noteq> i \<longrightarrow> startable (pcs s j)" and "i \<notin> set (hidden (lfs_of s))"
    and "lock_runs p {j. j \<noteq> i} (s\<lparr>pcs := (pcs s)(i := Holding fd), lfs_of := fs'\<rparr>) s'"
  shows "owns (lfs_of s') p i fd \<and> (holds s' j \<longleftrightarrow> j = i)"
proof -
  from assms(1) have "run_lock lock_fuel i p TryExcl (lfs_of s) = (Holding fd, fs')"
    by (auto simp: lock_alone_def split: pc.splits prod.splits)
  then have "settled p i fd (s\<lparr>pcs := (pcs s)(i := Holding fd), lfs_of := fs'\<rparr>)"
    using assms(2,3) by (rule run_lock_settles)
  with assms(4) have "settled p i fd s'" by (auto intro: settled_runs)
  then show ?thesis using settled_alone by (auto simp: settled_def)
qed

theorem lock_excludes_witness:
  "owns (snd (snd (lock_alone 1 ''.lock'' None empty_lfs))) ''.lock'' 1 0
   \<and> (holds (start_sys\<lparr>pcs := (pcs start_sys)(1 := Holding 0, 2 := TryExcl),
        lfs_of := snd (snd (lock_alone 1 ''.lock'' None empty_lfs))\<rparr>) 1)"
proof -
  let ?fs = "snd (snd (lock_alone 1 ''.lock'' None empty_lfs))"
  let ?s = "start_sys\<lparr>pcs := (pcs start_sys)(1 := Holding 0), lfs_of := ?fs\<rparr>"
  let ?t = "?s\<lparr>pcs := (pcs ?s)(2 := TryExcl)\<rparr>"
  have a: "lock_alone 1 ''.lock'' None (lfs_of start_sys) = (Inr (), Some 0, ?fs)"
    by (simp add: lfs_eval lock_alone_eq live_def obtain_lock_def)
  have b: "\<forall>j. j \<noteq> 1 \<longrightarrow> startable (pcs start_sys j)" by (simp add: start_sys_def startable_def)
  have c: "1 \<notin> set (hidden (lfs_of start_sys))" by (simp add: start_sys_def empty_lfs_def)
  have "lock_step ''.lock'' 2 ?s ?t"
    by (rule lock_step.begin_lock) (simp add: start_sys_def startable_def)
  then have "lock_runs ''.lock'' {j. j \<noteq> 1} ?s ?t"
    by (rule lock_runs.more [OF lock_runs.stop, rotated]) simp
  from lock_excludes [OF a b c this, of 1] show ?thesis by (simp add: start_sys_def)
qed

text \<open>lock followed by unlock gives the lock back: unlock returns, the lock file is gone, the
  handle is cleared and any process can lock again.\<close>

theorem lock_unlock_roundtrip:
  assumes "lock_alone pid p None fs = (Inr (), Some fd, fs')"
  shows "\<exists>fs''. unlock_alone pid p (Some fd) fs' = (Inr (), None, fs'') \<and> dict_get (entry fs'') p = None
     \<and> dict_get (fds fs'') (pid, fd) = None
     \<and> fst (lock_alone pid p None fs'') = Inr () \<and> fst (lock_alone other p None fs'') = Inr ()"
proof -
  from assms have ob: "obtain_lock pid p fs = (fd, fs')"
    by (auto simp: lock_alone_eq split: if_splits prod.splits)
  let ?fs = "fs'\<lparr>entry := dict_del (entry fs') p, fds := dict_del (fds fs') (pid, fd)\<rparr>"
  have "unlock_alone pid p (Some fd) fs' = (Inr (), None, ?fs)"
    using obtain_lock_owns [OF ob] by (rule unlock_alone_owned)
  moreover have "\<not> live ?fs p" by (simp add: live_def)
  ultimately show ?thesis by (auto simp: lock_alone_eq split: prod.splits)
qed

theorem lock_unlock_roundtrip_witness:
  "\<exists>fs''. unlock_alone 7 ''.lock'' (Some 0) (snd (snd (lock_alone 7 ''.lock'' None empty_lfs)))
     = (Inr (), None, fs'')"
proof -
  have "lock_alone 7 ''.lock'' None empty_lfs
      = (Inr (), Some 0, snd (snd (lock_alone 7 ''.lock'' None empty_lfs)))"
    by (simp add: lfs_eval lock_alone_eq live_def obtain_lock_def)
  from lock_unlock_roundtrip [OF this] show ?thesis by blast
qed

text \<open>LockRetry raises LockHeldError exactly when it makes at least one attempt and finds the lock
  live at every one of them, the lock being looked at again after each sleep; when it returns it
  holds the lock, except with zero attempts, where it returns without one.\<close>

theorem retry_enter_spec:
  "fst (retry_enter pid p sleep n 0 None fs)
     = (if 0 < n \<and> list_all (\<lambda>m. live (slept sleep m fs) p) [0..<n] then Inl LockHeldError else Inr ())
   \<and> (case retry_enter pid p sleep n 0 None fs of
        (Inr u, h, fs') \<Rightarrow> (if n = 0 then h = None else \<exists>fd. h = Some fd \<and> owns fs' p pid fd)
      | (Inl e, h, fs') \<Rightarrow> True)"
proof (cases "n = 0")
  case True
  then show ?thesis by (simp add: retry_enter.simps [of pid p sleep 0])
next
  case n: False
  show ?thesis
  proof (cases "\<forall>m < n. live (slept sleep m fs) p")
    case True
    with n retry_enter_fails [of 0 n sleep fs p pid]
    have "fst (retry_enter pid p sleep n 0 None fs) = Inl LockHeldError" by simp
    with True n show ?thesis by (auto simp: list_all_iff split: prod.splits sum.splits)
  next
    case False
    then obtain m where m: "m < n" "\<not> live (slept sleep m fs) p" "\<And>i. i < m \<Longrightarrow> live (slept sleep i fs) p"
      using exists_least_iff [of "\<lambda>m. m < n \<and> \<not> live (slept sleep m fs) p"] by (metis less_trans)
    obtain fd fs' where ob: "obtain_lock pid p (slept sleep m fs) = (fd, fs')" by fastforce
    with m retry_enter_succeeds [of m n 0 sleep fs p pid]
    have "retry_enter pid p sleep n 0 None fs = (Inr (), Some fd, fs')" by simp
    with ob obtain_lock_owns m(1,2) show ?thesis by (auto simp: list_all_iff)
  qed
qed

text \<open>An empty lock file is taken, not assumed held: the comment before line 57 gives up when no
  owner could be read, but the text read is the empty string, never None, so the branch is dead and
  the file of a process that has created it and not yet written to it is treated as stale.\<close>

theorem empty_lockfile_is_taken:
  assumes "dict_get (entry fs) p = Some ino" and "text_of fs ino = []"
  shows "\<exists>fd fs'. lock_alone pid p None fs = (Inr (), Some fd, fs') \<and> owns fs' p pid fd"
proof -
  have "\<not> live fs p" using assms by (simp add: live_def)
  then show ?thesis using obtain_lock_owns by (fastforce simp: lock_alone_eq split: prod.splits)
qed

theorem empty_lockfile_is_taken_witness:
  "\<exists>fd fs'. lock_alone 2 ''.lock'' None (snd (create_file empty_lfs 1 ''.lock'')) = (Inr (), Some fd, fs')
     \<and> owns fs' ''.lock'' 2 fd"
  by (rule empty_lockfile_is_taken [of _ _ 0]) (simp_all add: lfs_eval)

text \<open>C13. Mutual exclusion does not hold over all interleavings, even with no stale lock: from the
  empty directory a second process can read the empty file three times between the first one's
  creation and its write, take the file over, and both then hold the lock.\<close>

theorem lock_race_two_holders:
  "\<exists>s. lock_runs p UNIV start_sys s \<and> holds s 1 \<and> holds s 2"
proof -
  have "holds (lock_sched p [1, 1, 2, 2, 2, 2, 2, 2, 2, 2, 1] start_sys) 1"
    "holds (lock_sched p [1, 1, 2, 2, 2, 2, 2, 2, 2, 2, 1] start_sys) 2"
    by (simp_all add: lfs_eval holds_def startable_def dict_has_def after_read_def)
  then show ?thesis using lock_sched_runs [OF lock_runs.stop] by blast
qed

end
