(* ===== verification/Kv_Store.thy ===== *)
theory Kv_Store imports Py_Strings begin

text \<open>
  The contract that configuration sections (\<^verbatim>\<open>config.ConfigSection\<close>) and data stores
  (\<^verbatim>\<open>data.DataStore\<close>) share with the helpers that keep flags, time stamps and journal cursors in
  them: a stored value is read back, and storing it changes no other key. The facts the helpers rest
  on are proved once, from the contract.
\<close>

text \<open>Storing several values one after the other, stopping at the first failure.\<close>

fun put_all :: "('s \<Rightarrow> string \<Rightarrow> 'v \<Rightarrow> 's option) \<Rightarrow> 's \<Rightarrow> (string \<times> 'v) list \<Rightarrow> 's option" where
  "put_all put s [] = Some s"
| "put_all put s ((k, v) # kvs) = (case put s k v of None \<Rightarrow> None | Some s' \<Rightarrow> put_all put s' kvs)"

text \<open>The last value stored under a key the store identifies with \<open>k\<close>.\<close>

fun last_put :: "(string \<Rightarrow> string) \<Rightarrow> (string \<times> 'v) list \<Rightarrow> string \<Rightarrow> 'v option" where
  "last_put norm [] k = None"
| "last_put norm ((k', v) # kvs) k = (case last_put norm kvs k of
       Some w \<Rightarrow> Some w | None \<Rightarrow> (if norm k' = norm k then Some v else None))"

locale kv_store =
  fixes get :: "'s \<Rightarrow> string \<Rightarrow> 'v option"
    and put :: "'s \<Rightarrow> string \<Rightarrow> 'v \<Rightarrow> 's option"
    and norm :: "string \<Rightarrow> string"
    and storable :: "'v \<Rightarrow> bool"
    and inv :: "'s \<Rightarrow> bool"
  assumes put_total: "inv s \<Longrightarrow> storable v \<Longrightarrow> \<exists>s'. put s k v = Some s' \<and> inv s'"
    and get_put: "inv s \<Longrightarrow> storable v \<Longrightarrow> put s k v = Some s' \<Longrightarrow>
      get s' k' = (if norm k' = norm k then Some v else get s k')"
begin

lemma put_inv: "inv s \<Longrightarrow> storable v \<Longrightarrow> put s k v = Some s' \<Longrightarrow> inv s'"
  using put_total [of s v k] by auto

lemma get_after_put: "inv s \<Longrightarrow> storable v \<Longrightarrow> put s k v = Some s' \<Longrightarrow> get s' k = Some v"
  by (simp add: get_put)

lemma put_all_total:
  "inv s \<Longrightarrow> list_all (storable o snd) kvs \<Longrightarrow> \<exists>s'. put_all put s kvs = Some s' \<and> inv s'"
proof (induction kvs arbitrary: s)
  case Nil
  then show ?case by simp
next
  case (Cons kv kvs)
  obtain k v where kv: "kv = (k, v)" by (cases kv)
  with Cons.prems obtain s' where "put s k v = Some s'" "inv s'" using put_total by fastforce
  with Cons kv show ?case by auto
qed

lemma get_put_all:
  "inv s \<Longrightarrow> list_all (storable o snd) kvs \<Longrightarrow> put_all put s kvs = Some s' \<Longrightarrow>
     get s' k = (case last_put norm kvs k of Some v \<Rightarrow> Some v | None \<Rightarrow> get s k)"
proof (induction kvs arbitrary: s)
  case Nil
  then show ?case by simp
next
  case (Cons kv kvs)
  obtain k' v where kv: "kv = (k', v)" by (cases kv)
  with Cons.prems obtain s1 where s1: "put s k' v = Some s1" "inv s1" using put_total by fastforce
  with Cons kv have "get s' k = (case last_put norm kvs k of Some v \<Rightarrow> Some v | None \<Rightarrow> get s1 k)" by auto
  with Cons.prems kv s1 show ?case by (auto simp: get_put split: option.splits)
qed

lemma put_commute:
  assumes "inv s" "storable v" "storable w" "norm k \<noteq> norm l"
    and "put_all put s [(k, v), (l, w)] = Some s1" and "put_all put s [(l, w), (k, v)] = Some s2"
  shows "get s1 j = get s2 j"
  using get_put_all [OF assms(1) _ assms(5), of j] get_put_all [OF assms(1) _ assms(6), of j] assms(2-4)
  by auto

end

end
