(* ===== verification/Data.thy ===== *)
theory Data imports Kv_Store begin

text \<open>
  \<^verbatim>\<open>steamos_log_submitter/data.py\<close>: the JSON files in which helpers keep their state, the registry of
  open stores, and the write-out of all of them. A file is the object it holds, or \<open>None\<close> when its
  text is not valid JSON.
\<close>

section \<open>State\<close>

record store =
  ds_name :: string
  ds_defaults :: "(string, json) dict"
  ds_data :: "(string, json) dict"
  ds_dirty :: bool

record data_state =
  data_root :: string
  data_files :: "(string, (string, json) dict option) dict"
  data_denied :: "string list"            \<comment> \<open>paths that cannot be opened\<close>
  root_ok :: bool                         \<comment> \<open>os.makedirs(data_root) succeeds\<close>
  datastore :: "(string, store) dict"

definition data_path :: "data_state \<Rightarrow> string \<Rightarrow> string" where
  "data_path st name = data_root st @ ''/'' @ name @ ''.json''"

section \<open>DataStore\<close>

text \<open>
  \<^verbatim>\<open>__init__\<close>: a missing or unreadable file leaves the store empty. The JSONDecodeError of a damaged
  file is a ValueError, which neither \<^verbatim>\<open>OSError\<close> nor \<^verbatim>\<open>(SyntaxError, KeyError)\<close> covers.
\<close>

definition open_store :: "data_state \<Rightarrow> string \<Rightarrow> (string, json) dict \<Rightarrow> store result" where
  "open_store st name defaults =
     (let new = \<lparr>ds_name = name, ds_defaults = defaults, ds_data = [], ds_dirty = False\<rparr> in
      if data_path st name \<in> set (data_denied st) then Inr new
      else (case dict_get (data_files st) (data_path st name) of
        None \<Rightarrow> Inr new
      | Some None \<Rightarrow> Inl JSONDecodeError
      | Some (Some d) \<Rightarrow> Inr (new\<lparr>ds_data := d\<rparr>)))"

definition ds_getitem :: "store \<Rightarrow> string \<Rightarrow> json result" where
  "ds_getitem s name = (case dict_get (ds_data s) name of
       Some v \<Rightarrow> Inr v
     | None \<Rightarrow> (case dict_get (ds_defaults s) name of Some v \<Rightarrow> Inr v | None \<Rightarrow> Inl (KeyError name)))"

definition ds_setitem :: "store \<Rightarrow> string \<Rightarrow> json \<Rightarrow> store" where
  "ds_setitem s name v = s\<lparr>ds_data := dict_set (ds_data s) name v, ds_dirty := True\<rparr>"

definition ds_contains :: "store \<Rightarrow> string \<Rightarrow> bool" where
  "ds_contains s name = dict_has (ds_data s) name"

definition ds_get :: "store \<Rightarrow> string \<Rightarrow> json \<Rightarrow> json" where
  "ds_get s name dflt = (case ds_getitem s name of Inr v \<Rightarrow> v | Inl _ \<Rightarrow> dflt)"

definition add_defaults :: "store \<Rightarrow> (string, json) dict \<Rightarrow> store" where
  "add_defaults s d = s\<lparr>ds_defaults := dict_update (ds_defaults s) d\<rparr>"

text \<open>\<^verbatim>\<open>write\<close>: the store and the state after it, a clean store not touching the disk.\<close>

definition ds_write :: "data_state \<Rightarrow> store \<Rightarrow> unit result \<times> store \<times> data_state" where
  "ds_write st s =
     (if \<not> ds_dirty s then (Inr (), s, st)
      else if \<not> root_ok st then (Inl OSError, s, st)
      else if data_path st (ds_name s) \<in> set (data_denied st) then (Inl PermissionError, s, st)
      else (Inr (), s\<lparr>ds_dirty := False\<rparr>,
            st\<lparr>data_files := dict_set (data_files st) (data_path st (ds_name s)) (Some (ds_data s))\<rparr>))"

section \<open>The registry\<close>

fun write_stores :: "data_state \<Rightarrow> (string, store) dict \<Rightarrow> (string, store) dict \<times> data_state" where
  "write_stores st [] = ([], st)"
| "write_stores st ((k, s) # ss) = (case ds_write st s of
       (_, s', st1) \<Rightarrow> (case write_stores st1 ss of (ss', st2) \<Rightarrow> ((k, s') # ss', st2)))"

definition write_all :: "data_state \<Rightarrow> unit result \<times> data_state" where
  "write_all st =
     (if \<not> root_ok st then (Inl OSError, st)
      else (case write_stores st (datastore st) of
        (ss, st') \<Rightarrow> (Inr (), st'\<lparr>datastore := ss\<rparr>)))"

definition data_name :: "string \<Rightarrow> string" where
  "data_name name =
     (if name = ''steamos_log_submitter'' then ''sls''
      else if prefix ''steamos_log_submitter.'' name then after (CHR ''.'') name else name)"

definition get_data :: "string \<Rightarrow> (string, json) dict \<Rightarrow> data_state \<Rightarrow> store result \<times> data_state" where
  "get_data name0 defaults st =
     (let name = data_name name0 in
      case dict_get (datastore st) name of
        None \<Rightarrow> (case open_store st name defaults of
            Inl e \<Rightarrow> (Inl e, st)
          | Inr s \<Rightarrow> (Inr s, st\<lparr>datastore := dict_set (datastore st) name s\<rparr>))
      | Some s \<Rightarrow>
          (let s' = (if defaults \<noteq> [] then add_defaults s defaults else s)
           in (Inr s', st\<lparr>datastore := dict_set (datastore st) name s'\<rparr>)))"

section \<open>Lemmas\<close>

lemma ds_getitem_setitem [simp]:
  "ds_getitem (ds_setitem s k v) k' = (if k' = k then Inr v else ds_getitem s k')"
  by (simp add: ds_getitem_def ds_setitem_def split: option.splits)

lemma ds_get_setitem [simp]: "ds_get (ds_setitem s k v) k' dflt = (if k' = k then v else ds_get s k' dflt)"
  by (simp add: ds_get_def)

interpretation data_kv: kv_store "\<lambda>s k. case ds_getitem s k of Inr v \<Rightarrow> Some v | Inl _ \<Rightarrow> None"
  "\<lambda>s k v. Some (ds_setitem s k v)" "\<lambda>k. k" "\<lambda>_. True" "\<lambda>_. True"
  by unfold_locales auto

text \<open>Every store is registered under its own name.\<close>

definition wf_data :: "data_state \<Rightarrow> bool" where
  "wf_data st = (distinct (dict_keys (datastore st)) \<and> list_all (\<lambda>(k, s). ds_name s = k) (datastore st))"

lemma wf_data_get: "wf_data st \<Longrightarrow> dict_get (datastore st) k = Some s \<Longrightarrow> ds_name s = k"
  by (auto simp: wf_data_def list_all_iff dict_get_def dest: map_of_SomeD)

lemma open_store_name: "open_store st name d = Inr s \<Longrightarrow> ds_name s = name \<and> \<not> ds_dirty s"
  by (auto simp: open_store_def Let_def split: if_splits option.splits)

lemma list_all_dict_set:
  "list_all (\<lambda>(k, s). P k s) d \<Longrightarrow> P k s \<Longrightarrow> list_all (\<lambda>(k, s). P k s) (dict_set d k s)"
  by (induction d) auto

lemma wf_data_set: "wf_data st \<Longrightarrow> ds_name s = k \<Longrightarrow> wf_data (st\<lparr>datastore := dict_set (datastore st) k s\<rparr>)"
  by (simp add: wf_data_def distinct_dict_set list_all_dict_set)

lemma wf_get_data: "get_data name d st = (r, st') \<Longrightarrow> wf_data st \<Longrightarrow> wf_data st'"
  by (auto simp: get_data_def Let_def add_defaults_def dest: wf_data_get open_store_name [OF sym]
      intro!: wf_data_set split: option.splits sum.splits if_splits)

text \<open>What one write does, seen from any path.\<close>

definition written :: "data_state \<Rightarrow> store \<Rightarrow> bool" where
  "written st s = (ds_dirty s \<and> root_ok st \<and> data_path st (ds_name s) \<notin> set (data_denied st))"

lemma ds_write_eq:
  "ds_write st s = (r, s', st') \<Longrightarrow>
     s' = (if written st s then s\<lparr>ds_dirty := False\<rparr> else s)
     \<and> st' = (if written st s
         then st\<lparr>data_files := dict_set (data_files st) (data_path st (ds_name s)) (Some (ds_data s))\<rparr> else st)
     \<and> (r = Inr () \<longleftrightarrow> written st s \<or> \<not> ds_dirty s)"
  by (auto simp: ds_write_def written_def split: if_splits)

lemma data_path_files [simp]: "data_path (st\<lparr>data_files := fs\<rparr>) = data_path st"
  by (rule ext) (simp add: data_path_def)

lemma data_path_inj: "data_path st a = data_path st b \<longleftrightarrow> a = b"
  by (simp add: data_path_def)

lemma written_files [simp]: "written (st\<lparr>data_files := fs\<rparr>) s = written st s"
  by (simp add: written_def)

lemma write_stores_spec:
  assumes "list_all (\<lambda>(k, s). ds_name s = k) ss" and "distinct (dict_keys ss)"
    and "write_stores st ss = (ss', st')"
  shows "\<exists>fs. st' = st\<lparr>data_files := fs\<rparr>
     \<and> (\<forall>k. dict_get ss' k = map_option (\<lambda>s. if written st s then s\<lparr>ds_dirty := False\<rparr> else s) (dict_get ss k))
     \<and> (\<forall>k. dict_get fs (data_path st k) = (case dict_get ss k of
           Some s \<Rightarrow> if written st s then Some (Some (ds_data s)) else dict_get (data_files st) (data_path st k)
         | None \<Rightarrow> dict_get (data_files st) (data_path st k)))
     \<and> (\<forall>p. p \<notin> data_path st ` set (dict_keys ss) \<longrightarrow> dict_get fs p = dict_get (data_files st) p)"
  using assms
proof (induction ss arbitrary: st ss' st')
  case Nil
  then show ?case by (intro exI [of _ "data_files st"]) auto
next
  case (Cons p ss)
  obtain k s where p: "p = (k, s)" by (cases p)
  with Cons.prems have k: "ds_name s = k" and kn: "dict_get ss k = None"
    by (auto simp: dict_keys_def dict_get_def map_of_eq_None_iff)
  obtain r s1 st1 where w: "ds_write st s = (r, s1, st1)" by (cases "ds_write st s") auto
  note e = ds_write_eq [OF w]
  obtain ss2 st2 where t: "write_stores st1 ss = (ss2, st2)" by fastforce
  have st1: "written st1 = written st" "data_path st1 = data_path st" using e by (auto intro!: ext)
  from Cons.IH [OF _ _ t] Cons.prems p obtain fs where ih: "st2 = st1\<lparr>data_files := fs\<rparr>"
    "\<And>k. dict_get ss2 k = map_option (\<lambda>s. if written st s then s\<lparr>ds_dirty := False\<rparr> else s) (dict_get ss k)"
    "\<And>k. dict_get fs (data_path st k) = (case dict_get ss k of
           Some s \<Rightarrow> if written st s then Some (Some (ds_data s)) else dict_get (data_files st1) (data_path st k)
         | None \<Rightarrow> dict_get (data_files st1) (data_path st k))"
    "\<And>p. p \<notin> data_path st ` set (dict_keys ss) \<Longrightarrow> dict_get fs p = dict_get (data_files st1) p"
    unfolding st1 by (auto simp: dict_keys_def)
  have res: "ss' = (k, s1) # ss2" "st' = st2" using Cons.prems(3) p w t by auto
  show ?case
    using ih e k kn
    by (auto simp: res p data_path_inj dict_keys_def split: option.splits intro!: exI [of _ fs])
qed

section \<open>Properties\<close>

text \<open>With a usable data directory, writing all stores returns normally whatever fails in between:
  every dirty store whose file can be opened is written and marked clean, a store that cannot be
  written keeps its data and stays dirty, and no other file changes.\<close>

theorem write_all_isolates_failures:
  assumes "wf_data st" and "root_ok st"
  shows "\<exists>st'. write_all st = (Inr (), st')
     \<and> (\<forall>k. dict_get (datastore st') k
          = map_option (\<lambda>s. s\<lparr>ds_dirty := ds_dirty s \<and> data_path st k \<in> set (data_denied st)\<rparr>)
              (dict_get (datastore st) k))
     \<and> (\<forall>k s. dict_get (datastore st) k = Some s \<longrightarrow>
          dict_get (data_files st') (data_path st k)
            = (if ds_dirty s \<and> data_path st k \<notin> set (data_denied st) then Some (Some (ds_data s))
               else dict_get (data_files st) (data_path st k)))
     \<and> (\<forall>p. p \<notin> data_path st ` set (dict_keys (datastore st)) \<longrightarrow>
          dict_get (data_files st') p = dict_get (data_files st) p)"
proof -
  obtain ss st1 where w: "write_stores st (datastore st) = (ss, st1)" by fastforce
  with assms(1) obtain fs where sp: "st1 = st\<lparr>data_files := fs\<rparr>"
    "\<And>k. dict_get ss k
       = map_option (\<lambda>s. if written st s then s\<lparr>ds_dirty := False\<rparr> else s) (dict_get (datastore st) k)"
    "\<And>k. dict_get fs (data_path st k) = (case dict_get (datastore st) k of
           Some s \<Rightarrow> if written st s then Some (Some (ds_data s)) else dict_get (data_files st) (data_path st k)
         | None \<Rightarrow> dict_get (data_files st) (data_path st k))"
    "\<And>p. p \<notin> data_path st ` set (dict_keys (datastore st)) \<Longrightarrow> dict_get fs p = dict_get (data_files st) p"
    using write_stores_spec [of "datastore st" st ss st1] by (auto simp: wf_data_def)
  have "(if written st s then s\<lparr>ds_dirty := False\<rparr> else s)
      = s\<lparr>ds_dirty := ds_dirty s \<and> data_path st k \<in> set (data_denied st)\<rparr>"
    if "dict_get (datastore st) k = Some s" for k s
    using wf_data_get [OF assms(1) that] assms(2) by (cases s) (auto simp: written_def)
  with sp(2) have ss: "dict_get ss k
      = map_option (\<lambda>s. s\<lparr>ds_dirty := ds_dirty s \<and> data_path st k \<in> set (data_denied st)\<rparr>) (dict_get (datastore st) k)"
    for k by (cases "dict_get (datastore st) k") auto
  show ?thesis
    using w assms sp(1,3,4) ss wf_data_get [OF assms(1)]
    by (intro exI [of _ "st1\<lparr>datastore := ss\<rparr>"]) (simp add: write_all_def written_def)
qed

definition sample_data :: data_state where
  "sample_data = \<lparr>data_root = ''/d'', data_files = [(''/d/a.json'', Some [(''x'', JInt 1)])],
     data_denied = [''/d/b.json''], root_ok = True,
     datastore = [(''a'', \<lparr>ds_name = ''a'', ds_defaults = [], ds_data = [(''x'', JInt 2)], ds_dirty = True\<rparr>),
                  (''b'', \<lparr>ds_name = ''b'', ds_defaults = [], ds_data = [(''y'', JInt 3)], ds_dirty = True\<rparr>)]\<rparr>"

theorem write_all_isolates_failures_witness:
  "dict_get (data_files (snd (write_all sample_data))) ''/d/a.json'' = Some (Some [(''x'', JInt 2)])
   \<and> map_option ds_dirty (dict_get (datastore (snd (write_all sample_data))) ''b'') = Some True"
proof -
  have "wf_data sample_data" "root_ok sample_data" by code_simp+
  from write_all_isolates_failures [OF this] obtain st' where w: "write_all sample_data = (Inr (), st')"
    and d: "\<And>k. dict_get (datastore st') k
          = map_option (\<lambda>s. s\<lparr>ds_dirty := ds_dirty s \<and> data_path sample_data k \<in> set (data_denied sample_data)\<rparr>)
              (dict_get (datastore sample_data) k)"
    and f: "\<And>k s. dict_get (datastore sample_data) k = Some s \<Longrightarrow>
          dict_get (data_files st') (data_path sample_data k)
            = (if ds_dirty s \<and> data_path sample_data k \<notin> set (data_denied sample_data) then Some (Some (ds_data s))
               else dict_get (data_files sample_data) (data_path sample_data k))"
    by blast
  have "dict_get (data_files st') ''/d/a.json'' = Some (Some [(''x'', JInt 2)])"
    using f [of "''a''"] by (simp add: sample_data_def data_path_def)
  moreover have "map_option ds_dirty (dict_get (datastore st') ''b'') = Some True"
    using d [of "''b''"] by (simp add: sample_data_def data_path_def)
  ultimately show ?thesis using w by simp
qed

text \<open>A restart forgets the open stores and keeps the files; a module assigns through its store.\<close>

definition restarted_data :: "data_state \<Rightarrow> data_state" where
  "restarted_data st = st\<lparr>datastore := []\<rparr>"

definition data_assign :: "string \<Rightarrow> string \<Rightarrow> json \<Rightarrow> data_state \<Rightarrow> data_state" where
  "data_assign k key v st = (case dict_get (datastore st) k of
       None \<Rightarrow> st | Some s \<Rightarrow> st\<lparr>datastore := dict_set (datastore st) k (ds_setitem s key v)\<rparr>)"

lemma data_assign_simps [simp]:
  "data_path (data_assign k key v st) = data_path st"
  "data_denied (data_assign k key v st) = data_denied st"
  "root_ok (data_assign k key v st) = root_ok st"
  by (auto simp: data_assign_def data_path_def intro!: ext split: option.splits)

lemma wf_data_assign: "wf_data st \<Longrightarrow> wf_data (data_assign k key v st)"
  by (auto simp: data_assign_def ds_setitem_def dest: wf_data_get intro!: wf_data_set split: option.splits)

lemma ds_write_keeps:
  "ds_write st s = (r, s', st') \<Longrightarrow> data_root st' = data_root st \<and> data_denied st' = data_denied st"
  by (auto simp: ds_write_def split: if_splits)

lemma write_stores_keeps:
  "write_stores st ss = (ss', st') \<Longrightarrow> data_root st' = data_root st \<and> data_denied st' = data_denied st"
proof (induction ss arbitrary: st ss' st')
  case Nil
  then show ?case by simp
next
  case (Cons p ss)
  then show ?case by (cases p) (fastforce split: prod.splits dest: ds_write_keeps)
qed

lemma write_all_keeps:
  "write_all st = (r, st') \<Longrightarrow> data_path st' = data_path st \<and> data_denied st' = data_denied st"
  by (fastforce simp: write_all_def data_path_def fun_eq_iff split: if_splits prod.splits dest: write_stores_keeps)

text \<open>What a module stored in its data is what it finds there after the stores were written and the
  process restarted, with every other key it had stored, and no default in their way.\<close>

theorem data_persists:
  assumes "wf_data st" and "root_ok st" and "dict_get (datastore st) (data_name m) = Some s"
    and "data_path st (data_name m) \<notin> set (data_denied st)"
    and "write_all (data_assign (data_name m) key v st) = (Inr (), st')"
  shows "\<exists>s' st2. get_data m d (restarted_data st') = (Inr s', st2)
     \<and> (\<forall>k. ds_getitem s' k = (if k = key then Inr v else case dict_get (ds_data s) k of
           Some w \<Rightarrow> Inr w | None \<Rightarrow> (case dict_get d k of Some w \<Rightarrow> Inr w | None \<Rightarrow> Inl (KeyError k))))"
proof -
  let ?st = "data_assign (data_name m) key v st"
  have g: "dict_get (datastore ?st) (data_name m) = Some (ds_setitem s key v)"
    using assms(3) by (simp add: data_assign_def)
  have "wf_data ?st" "root_ok ?st" using assms(1,2) by (simp_all add: wf_data_assign)
  from write_all_isolates_failures [OF this] g assms(4,5)
  have f: "dict_get (data_files st') (data_path st (data_name m)) = Some (Some (dict_set (ds_data s) key v))"
    by (auto simp: ds_setitem_def)
  have p: "data_path st' = data_path st" "data_denied st' = data_denied st"
    using write_all_keeps [OF assms(5)] by simp_all
  have "data_path (restarted_data st') = data_path st" using p(1)
    by (simp add: restarted_data_def data_path_def fun_eq_iff)
  then have "open_store (restarted_data st') (data_name m) d
      = Inr \<lparr>ds_name = data_name m, ds_defaults = d, ds_data = dict_set (ds_data s) key v, ds_dirty = False\<rparr>"
    using f p assms(4) by (simp add: open_store_def restarted_data_def)
  then show ?thesis
    by (auto simp: get_data_def restarted_data_def Let_def ds_getitem_def split: option.splits)
qed

theorem data_persists_witness:
  "\<exists>s' st2. get_data ''steamos_log_submitter.a'' [] (restarted_data (snd (write_all (data_assign ''a'' ''k'' JNull sample_data))))
     = (Inr s', st2) \<and> ds_getitem s' ''k'' = Inr JNull \<and> ds_getitem s' ''x'' = Inr (JInt 2)"
proof -
  have n: "data_name ''steamos_log_submitter.a'' = ''a''" by code_simp
  have "wf_data sample_data" "root_ok sample_data"
    "dict_get (datastore sample_data) ''a''
       = Some \<lparr>ds_name = ''a'', ds_defaults = [], ds_data = [(''x'', JInt 2)], ds_dirty = True\<rparr>"
    "data_path sample_data ''a'' \<notin> set (data_denied sample_data)"
    "write_all (data_assign ''a'' ''k'' JNull sample_data)
       = (Inr (), snd (write_all (data_assign ''a'' ''k'' JNull sample_data)))"
    by code_simp+
  from data_persists [of sample_data "''steamos_log_submitter.a''", unfolded n, OF this, of "[]"]
  show ?thesis by auto
qed

text \<open>A store whose file holds damaged JSON cannot be opened: the decoding error gets past both
  handlers of the constructor, although the second one is there to log and go on, and nothing is
  registered, so every later attempt fails the same way.\<close>

theorem damaged_store_raises:
  assumes "dict_get (datastore st) (data_name m) = None"
    and "dict_get (data_files st) (data_path st (data_name m)) = Some None"
    and "data_path st (data_name m) \<notin> set (data_denied st)"
  shows "get_data m d st = (Inl JSONDecodeError, st)"
  using assms by (simp add: get_data_def open_store_def Let_def)

theorem damaged_store_raises_witness:
  "fst (get_data ''c'' [] (sample_data\<lparr>data_files := [(''/d/c.json'', None)]\<rparr>)) = Inl JSONDecodeError"
proof -
  have "dict_get (datastore (sample_data\<lparr>data_files := [(''/d/c.json'', None)]\<rparr>)) (data_name ''c'') = None"
    "dict_get (data_files (sample_data\<lparr>data_files := [(''/d/c.json'', None)]\<rparr>))
       (data_path (sample_data\<lparr>data_files := [(''/d/c.json'', None)]\<rparr>) (data_name ''c'')) = Some None"
    "data_path (sample_data\<lparr>data_files := [(''/d/c.json'', None)]\<rparr>) (data_name ''c'')
       \<notin> set (data_denied (sample_data\<lparr>data_files := [(''/d/c.json'', None)]\<rparr>))"
    by code_simp+
  from damaged_store_raises [OF this, of "[]"] show ?thesis by simp
qed

end
