(* ===== verification/Config_Parser.thy ===== *)
theory Config_Parser imports Py_Strings begin

text \<open>
  The part of Python's \<^verbatim>\<open>configparser.ConfigParser\<close> (with \<^verbatim>\<open>ExtendedInterpolation\<close>) that
  \<^verbatim>\<open>config.py\<close> uses: sections of raw option values over a DEFAULT section, case-insensitive option
  names, and the \<^verbatim>\<open>${option}\<close> and \<^verbatim>\<open>${section:option}\<close> references expanded when a value is read. A
  configuration file is represented by its parsed sections; the text format is not modelled.
\<close>

type_synonym options = "(string, string) dict"

record parser =
  sections :: "(string, options) dict"
  dflts :: options

definition empty_parser :: parser where
  "empty_parser = \<lparr>sections = [], dflts = []\<rparr>"

definition optionxform :: "string \<Rightarrow> string" where
  "optionxform s = py_lower s"

definition has_section :: "parser \<Rightarrow> string \<Rightarrow> bool" where
  "has_section cp s = dict_has (sections cp) s"

definition raw_get :: "parser \<Rightarrow> string \<Rightarrow> string \<Rightarrow> string option" where
  "raw_get cp s opt = (case dict_get (sections cp) s of
       None \<Rightarrow> None
     | Some os \<Rightarrow> (case dict_get os (optionxform opt) of
         Some v \<Rightarrow> Some v | None \<Rightarrow> dict_get (dflts cp) (optionxform opt)))"

definition has_option :: "parser \<Rightarrow> string \<Rightarrow> string \<Rightarrow> bool" where
  "has_option cp s opt = (raw_get cp s opt \<noteq> None)"

definition own_option :: "parser \<Rightarrow> string \<Rightarrow> string \<Rightarrow> bool" where
  "own_option cp s opt = (case dict_get (sections cp) s of
       None \<Rightarrow> False | Some os \<Rightarrow> dict_has os (optionxform opt))"

text \<open>
  \<^verbatim>\<open>ExtendedInterpolation._interpolate_some\<close>: the expansion of a raw value read in section \<open>s\<close>, at a
  nesting depth of at most \<^verbatim>\<open>MAX_INTERPOLATION_DEPTH\<close> (10); a malformed or dangling reference, or a
  deeper nesting, raises a configparser error.
\<close>

definition reference :: "parser \<Rightarrow> string \<Rightarrow> string \<Rightarrow> (string \<times> string) option" where
  "reference cp s path = (case split_on (CHR '':'') path of
       [opt] \<Rightarrow> map_option (Pair s) (raw_get cp s opt)
     | [s', opt] \<Rightarrow> map_option (Pair s') (raw_get cp s' opt)
     | _ \<Rightarrow> None)"

lemma length_after [simp]: "c \<in> set s \<Longrightarrow> length (after c s) < length s"
  using before_after [of c s] by (metis length_append length_Cons less_add_Suc2 add_Suc_right)

function interpolate :: "parser \<Rightarrow> string \<Rightarrow> nat \<Rightarrow> string \<Rightarrow> string result" where
  "interpolate cp s depth rest =
     (if 10 < depth then Inl InterpolationError
      else (case rest of
        [] \<Rightarrow> Inr []
      | c # cs \<Rightarrow>
         (if c \<noteq> CHR ''$'' then map_sum id ((#) c) (interpolate cp s depth cs)
          else (case cs of
            [] \<Rightarrow> Inl InterpolationError
          | b # cs' \<Rightarrow>
             (if b = CHR ''$'' then map_sum id ((#) b) (interpolate cp s depth cs')
              else if b \<noteq> CHR ''{'' \<or> CHR ''}'' \<notin> set cs' \<or> before (CHR ''}'') cs' = []
              then Inl InterpolationError
              else (case reference cp s (before (CHR ''}'') cs') of
                None \<Rightarrow> Inl InterpolationError
              | Some (s', v) \<Rightarrow>
                  (case (if CHR ''$'' \<in> set v then interpolate cp s' (Suc depth) v else Inr v) of
                     Inl e \<Rightarrow> Inl e
                   | Inr v' \<Rightarrow> map_sum id ((@) v') (interpolate cp s depth (after (CHR ''}'') cs')))))))))"
  by pat_completeness auto
termination
  by (relation "measures [\<lambda>(cp, s, depth, rest). 11 - depth, \<lambda>(cp, s, depth, rest). length rest]")
     (auto simp: less_Suc_eq dest: length_after)

declare interpolate.simps [simp del]

definition cp_get :: "parser \<Rightarrow> string \<Rightarrow> string \<Rightarrow> string result" where
  "cp_get cp s opt = (case raw_get cp s opt of
       None \<Rightarrow> Inl (KeyError opt) | Some v \<Rightarrow> interpolate cp s 1 v)"

text \<open>\<^verbatim>\<open>before_set\<close>: drop every \<^verbatim>\<open>$$\<close>, then every \<^verbatim>\<open>${...}\<close>; a dollar left over is a ValueError.\<close>

function drop_refs :: "string \<Rightarrow> string" where
  "drop_refs [] = []"
| "drop_refs (c # cs) =
     (if prefix ''${'' (c # cs) \<and> CHR ''}'' \<in> set (tl cs) \<and> before (CHR ''}'') (tl cs) \<noteq> []
      then drop_refs (after (CHR ''}'') (tl cs))
      else c # drop_refs cs)"
  by pat_completeness auto
termination
proof (relation "measure length", goal_cases)
  case (2 c cs)
  then have "length (after (CHR ''}'') (tl cs)) < length (tl cs)" by (intro length_after) simp
  then show ?case by auto
qed auto

definition settable :: "string \<Rightarrow> bool" where
  "settable v = (CHR ''$'' \<notin> set (drop_refs (py_replace ''$$'' [] v)))"

text \<open>\<^verbatim>\<open>add_section\<close>, \<^verbatim>\<open>set\<close> and \<^verbatim>\<open>remove_option\<close> on a present section.\<close>

definition add_section :: "parser \<Rightarrow> string \<Rightarrow> parser" where
  "add_section cp s = cp\<lparr>sections := dict_set (sections cp) s []\<rparr>"

definition cp_set :: "parser \<Rightarrow> string \<Rightarrow> string \<Rightarrow> string \<Rightarrow> parser result" where
  "cp_set cp s opt v =
     (if v \<noteq> [] \<and> \<not> settable v then Inl ValueError
      else (case dict_get (sections cp) s of
        None \<Rightarrow> Inl (KeyError s)
      | Some os \<Rightarrow> Inr (cp\<lparr>sections := dict_set (sections cp) s (dict_set os (optionxform opt) v)\<rparr>)))"

definition remove_option :: "parser \<Rightarrow> string \<Rightarrow> string \<Rightarrow> parser" where
  "remove_option cp s opt = (case dict_get (sections cp) s of
       None \<Rightarrow> cp
     | Some os \<Rightarrow> cp\<lparr>sections := dict_set (sections cp) s (dict_del os (optionxform opt))\<rparr>)"

text \<open>\<^verbatim>\<open>read_file\<close>: every option of the file is added to, or replaces, what the parser has.\<close>

definition read_file :: "parser \<Rightarrow> parser \<Rightarrow> parser" where
  "read_file cp f =
     \<lparr>sections = fold (\<lambda>(s, os) acc. dict_set acc s (dict_update (dict_getd acc s []) os)) (sections f) (sections cp),
      dflts = dict_update (dflts cp) (dflts f)\<rparr>"

section \<open>Lemmas\<close>

lemma interpolate_Nil [simp]: "interpolate cp s (Suc 0) [] = Inr []"
  by (simp add: interpolate.simps [of cp s "Suc 0" "[]"])

lemma interpolate_plain: "CHR ''$'' \<notin> set v \<Longrightarrow> interpolate cp s (Suc 0) v = Inr v"
proof (induction v)
  case Nil
  then show ?case by simp
next
  case (Cons c v)
  then have "interpolate cp s (Suc 0) v = Inr v" "c \<noteq> CHR ''$''" by auto
  then show ?case by (simp add: interpolate.simps [of cp s "Suc 0" "c # v"])
qed

lemma py_replace_none: "x \<notin> set v \<Longrightarrow> py_replace (x # old) new v = v"
  by (induction "x # old" new v rule: py_replace.induct) auto

lemma drop_refs_plain: "CHR ''$'' \<notin> set v \<Longrightarrow> drop_refs v = v"
  by (induction v rule: drop_refs.induct) auto

lemma settable_plain: "CHR ''$'' \<notin> set v \<Longrightarrow> settable v"
  by (simp add: settable_def py_replace_none drop_refs_plain)

lemma raw_get_set:
  "cp_set cp s opt v = Inr cp' \<Longrightarrow>
     raw_get cp' s' opt' = (if s' = s \<and> optionxform opt' = optionxform opt then Some v else raw_get cp s' opt')"
  by (auto simp: cp_set_def raw_get_def split: if_splits option.splits)

lemma raw_get_add_section:
  "\<not> has_section cp s \<Longrightarrow>
     raw_get (add_section cp s) s' opt = (if s' = s then dict_get (dflts cp) (optionxform opt) else raw_get cp s' opt)"
  by (auto simp: add_section_def raw_get_def has_section_def dict_has_def split: option.splits)

lemma has_section_simps [simp]:
  "has_section (add_section cp s) s' = (s' = s \<or> has_section cp s')"
  "cp_set cp s opt v = Inr cp' \<Longrightarrow> has_section cp' s' = has_section cp s'"
  by (auto simp: add_section_def has_section_def cp_set_def dict_has_def split: if_splits option.splits)

lemma dflts_simps [simp]:
  "dflts (add_section cp s) = dflts cp"
  "cp_set cp s opt v = Inr cp' \<Longrightarrow> dflts cp' = dflts cp"
  "dflts (remove_option cp s opt) = dflts cp"
  by (auto simp: add_section_def cp_set_def remove_option_def split: if_splits option.splits)

lemma raw_get_section: "raw_get cp s opt = Some v \<Longrightarrow> has_section cp s"
  by (auto simp: raw_get_def has_section_def dict_has_def split: option.splits)

lemma raw_get_remove:
  "raw_get (remove_option cp s opt) s' opt' =
     (if s' = s \<and> optionxform opt' = optionxform opt \<and> has_section cp s
      then dict_get (dflts cp) (optionxform opt) else raw_get cp s' opt')"
  by (auto simp: raw_get_def remove_option_def has_section_def dict_has_def split: option.splits)

end
