(* ===== verification/Config.thy ===== *)
theory Config imports Config_Parser Kv_Store begin

text \<open>
  \<^verbatim>\<open>steamos_log_submitter/config.py\<close>: the three configuration layers (the read-only base and user
  files, merged into \<^verbatim>\<open>config\<close>, and the writable local file), \<^verbatim>\<open>ConfigSection\<close>, and the migration
  of keys from the user file to the local one. The module's globals and the files it opens are one
  record.
\<close>

section \<open>State\<close>

record cfg =
  main_cfg :: parser                          \<comment> \<open>config: base and user files\<close>
  local_cfg :: parser                         \<comment> \<open>local_config\<close>
  user_path :: "string option"                \<comment> \<open>user_config_path\<close>
  local_path :: "string option"               \<comment> \<open>local_config_path\<close>
  cfg_files :: "(string, parser) dict"        \<comment> \<open>files that exist\<close>
  unreadable :: "string list"                 \<comment> \<open>paths whose open for reading is refused\<close>
  unwritable :: "string list"                 \<comment> \<open>paths whose open for writing is refused\<close>
  passwd :: "(int, string) dict"              \<comment> \<open>uid to home directory\<close>

definition base_config_path :: string where
  "base_config_path = ''/usr/lib/steamos-log-submitter/base.cfg''"

definition open_cfg :: "cfg \<Rightarrow> string \<Rightarrow> parser result" where
  "open_cfg st p = (if p \<in> set (unreadable st) then Inl PermissionError
     else (case dict_get (cfg_files st) p of None \<Rightarrow> Inl FileNotFoundError | Some f \<Rightarrow> Inr f))"

definition save_cfg :: "cfg \<Rightarrow> string \<Rightarrow> parser \<Rightarrow> unit result \<times> cfg" where
  "save_cfg st p f = (if p \<in> set (unwritable st) then (Inl PermissionError, st)
     else (Inr (), st\<lparr>cfg_files := dict_set (cfg_files st) p f\<rparr>))"

section \<open>ConfigSection\<close>

text \<open>
  The arguments after the state are \<^verbatim>\<open>self.name\<close> and, where they matter, \<^verbatim>\<open>self._defaults\<close>.
\<close>

definition sec_getitem :: "cfg \<Rightarrow> string \<Rightarrow> options \<Rightarrow> string \<Rightarrow> string result" where
  "sec_getitem st sec defaults name =
     (if has_section (local_cfg st) sec \<and> has_option (local_cfg st) sec name
        then cp_get (local_cfg st) sec name
      else if has_section (main_cfg st) sec \<and> has_option (main_cfg st) sec name
        then cp_get (main_cfg st) sec name
      else (case dict_get defaults name of Some v \<Rightarrow> Inr v | None \<Rightarrow> Inl (KeyError name)))"

definition sec_setitem :: "cfg \<Rightarrow> string \<Rightarrow> string \<Rightarrow> string \<Rightarrow> unit result \<times> cfg" where
  "sec_setitem st sec name value =
     (let st1 = (if \<not> has_section (local_cfg st) sec
                 then st\<lparr>local_cfg := add_section (local_cfg st) sec\<rparr> else st)
      in case cp_set (local_cfg st1) sec name value of
           Inl e \<Rightarrow> (Inl e, st1)
         | Inr l \<Rightarrow> (Inr (), st1\<lparr>local_cfg := l\<rparr>))"

definition sec_contains :: "cfg \<Rightarrow> string \<Rightarrow> string \<Rightarrow> bool" where
  "sec_contains st sec name =
     (if has_section (local_cfg st) sec \<and> has_option (local_cfg st) sec name then True
      else if has_section (main_cfg st) sec \<and> has_option (main_cfg st) sec name then True
      else False)"

text \<open>\<^verbatim>\<open>get\<close> catches KeyError only; an interpolation error gets out.\<close>

definition sec_get :: "cfg \<Rightarrow> string \<Rightarrow> options \<Rightarrow> string \<Rightarrow> string option \<Rightarrow> string option result" where
  "sec_get st sec defaults name dflt = (case sec_getitem st sec defaults name of
       Inr v \<Rightarrow> Inr (Some v)
     | Inl (KeyError _) \<Rightarrow> Inr dflt
     | Inl e \<Rightarrow> Inl e)"

text \<open>\<^verbatim>\<open>get_config\<close>: the section name that belongs to a module name.\<close>

definition get_config :: "string \<Rightarrow> string result" where
  "get_config m =
     (if m = ''steamos_log_submitter'' then Inr ''sls''
      else if \<not> prefix ''steamos_log_submitter.'' m then Inl (KeyError m)
      else Inr (after (CHR ''.'') m))"

section \<open>Loading and saving\<close>

definition write_config :: "cfg \<Rightarrow> unit result \<times> cfg" where
  "write_config st = (case local_path st of
       None \<Rightarrow> (Inl FileNotFoundError, st)
     | Some p \<Rightarrow> save_cfg st p (local_cfg st))"

text \<open>The user file's path: named in the base file, or found through the configured uid.\<close>

definition find_user_path :: "cfg \<Rightarrow> parser \<Rightarrow> string option result" where
  "find_user_path st c =
     (if has_section c ''sls'' then
        (if has_option c ''sls'' ''user-config'' then map_sum id Some (cp_get c ''sls'' ''user-config'')
         else if has_option c ''sls'' ''uid'' then
           (case cp_get c ''sls'' ''uid'' of
              Inl e \<Rightarrow> Inl e
            | Inr uid \<Rightarrow> (case py_int uid of
                None \<Rightarrow> Inr None
              | Some n \<Rightarrow> (case dict_get (passwd st) n of
                  None \<Rightarrow> Inr None
                | Some home \<Rightarrow> Inr (Some (home @ ''/.steam/root/config/steamos-log-submitter.cfg'')))))
         else Inr None)
      else Inr None)"

text \<open>A file that is missing or cannot be opened is skipped.\<close>

definition merge_file :: "cfg \<Rightarrow> parser \<Rightarrow> string option \<Rightarrow> parser" where
  "merge_file st c path = (case path of
       None \<Rightarrow> c
     | Some p \<Rightarrow> (if p = [] then c else (case open_cfg st p of Inl _ \<Rightarrow> c | Inr f \<Rightarrow> read_file c f)))"

definition reload_config :: "cfg \<Rightarrow> unit result \<times> cfg" where
  "reload_config st =
     (let st0 = st\<lparr>main_cfg := empty_parser\<rparr> in
      case open_cfg st base_config_path of
        Inl e \<Rightarrow>
          (if e \<noteq> FileNotFoundError then (Inl e, st0)
           else (Inr (), st0\<lparr>user_path := None, local_path := None\<rparr>))
      | Inr f \<Rightarrow>
          (let c0 = read_file empty_parser f; st1 = st0\<lparr>main_cfg := c0, user_path := None\<rparr> in
           case find_user_path st c0 of
             Inl e \<Rightarrow> (Inl e, st1)
           | Inr up \<Rightarrow>
               (let c = merge_file st c0 up;
                    st2 = st1\<lparr>main_cfg := c, user_path := up, local_path := None\<rparr>
                in if has_section c ''sls'' \<and> has_option c ''sls'' ''local-config'' then
                     (case cp_get c ''sls'' ''local-config'' of
                        Inl e \<Rightarrow> (Inl e, st2)
                      | Inr lp \<Rightarrow>
                          (Inr (), st2\<lparr>local_path := Some lp,
                             local_cfg := (case open_cfg st lp of
                                Inl _ \<Rightarrow> local_cfg st | Inr f \<Rightarrow> read_file (local_cfg st) f)\<rparr>))
                   else (Inr (), st2))))"

text \<open>
  \<^verbatim>\<open>migrate_key\<close>: move one key from the user file to the local one, unless the local one has it.
\<close>

definition migrate_key :: "cfg \<Rightarrow> string \<Rightarrow> string \<Rightarrow> bool result \<times> cfg" where
  "migrate_key st sec key = (case user_path st of
       None \<Rightarrow> (Inr False, st)
     | Some up \<Rightarrow>
        (if up = [] then (Inr False, st)
         else (case open_cfg st up of
           Inl e \<Rightarrow> (Inr False, st)
         | Inr f \<Rightarrow>
            (let u = read_file empty_parser f in
             if \<not> has_section u sec then (Inr False, st)
             else if \<not> has_option u sec key then (Inr False, st)
             else (case cp_get u sec key of
                 Inl e \<Rightarrow> (Inl e, st)
               | Inr value \<Rightarrow>
                  (if has_section (local_cfg st) sec \<and> has_option (local_cfg st) sec key then (Inr False, st)
                   else (let u' = remove_option u sec key in
                     case sec_setitem st sec key value of
                       (Inl e, st1) \<Rightarrow> (Inl e, st1)
                     | (Inr _, st1) \<Rightarrow>
                        (case write_config st1 of
                           (Inl e, st2) \<Rightarrow> (Inl e, st2)
                         | (Inr _, st2) \<Rightarrow>
                            (case save_cfg st2 up u' of
                               (Inl e, st3) \<Rightarrow> (Inl e, st3)
                             | (Inr _, st3) \<Rightarrow> (Inr True, st3))))))))))"

definition migrations :: "string list \<Rightarrow> (string \<times> string) list" where
  "migrations helpers =
     [(''sls'', ''enable''), (''steam'', ''account_id''), (''steam'', ''account_name''), (''steam'', ''deck_serial'')]
     @ map (\<lambda>h. (''helpers.'' @ h, ''enable'')) helpers"

text \<open>The list in \<^verbatim>\<open>any([...])\<close> is built in full: every migration runs, whatever the earlier ones did.\<close>

fun migrate_all :: "cfg \<Rightarrow> (string \<times> string) list \<Rightarrow> bool list result \<times> cfg" where
  "migrate_all st [] = (Inr [], st)"
| "migrate_all st ((s, k) # ms) = (case migrate_key st s k of
       (Inl e, st1) \<Rightarrow> (Inl e, st1)
     | (Inr b, st1) \<Rightarrow> (case migrate_all st1 ms of
         (Inl e, st2) \<Rightarrow> (Inl e, st2)
       | (Inr bs, st2) \<Rightarrow> (Inr (b # bs), st2)))"

definition upgrade :: "string list \<Rightarrow> cfg \<Rightarrow> unit result \<times> cfg" where
  "upgrade helpers st = (case reload_config st of
       (Inl e, st1) \<Rightarrow> (Inl e, st1)
     | (Inr _, st1) \<Rightarrow> (case migrate_all st1 (migrations helpers) of
         (Inl e, st2) \<Rightarrow> (Inl e, st2)
       | (Inr bs, st2) \<Rightarrow> (if list_ex id bs then reload_config st2 else (Inr (), st2))))"

section \<open>The local layer as a key-value store\<close>

text \<open>
  What the program itself keeps in the local file are values without a dollar sign, under no DEFAULT
  section. \<open>store_ok\<close> says so; on such states a section is a key-value store.
\<close>

definition plain_parser :: "parser \<Rightarrow> bool" where
  "plain_parser cp = (dflts cp = [] \<and> list_all (\<lambda>(s, os). list_all (\<lambda>(k, v). CHR ''$'' \<notin> set v) os) (sections cp))"

definition store_ok :: "cfg \<Rightarrow> bool" where
  "store_ok st = plain_parser (local_cfg st)"

definition sec_lookup :: "string \<Rightarrow> options \<Rightarrow> cfg \<Rightarrow> string \<Rightarrow> string option" where
  "sec_lookup sec defaults st name = (case sec_getitem st sec defaults name of Inr v \<Rightarrow> Some v | Inl _ \<Rightarrow> None)"

definition sec_store :: "string \<Rightarrow> cfg \<Rightarrow> string \<Rightarrow> string \<Rightarrow> cfg option" where
  "sec_store sec st name v = (case sec_setitem st sec name v of (Inr _, st') \<Rightarrow> Some st' | (Inl _, _) \<Rightarrow> None)"

lemma dict_get_in: "dict_get d k = Some v \<Longrightarrow> (k, v) \<in> set d"
  by (simp add: dict_get_def map_of_SomeD)

lemma set_dict_set_subset: "set (dict_set d k v) \<subseteq> insert (k, v) (set d)"
  by (induction d) (auto split: if_splits)

lemma plain_raw: "plain_parser cp \<Longrightarrow> raw_get cp s opt = Some v \<Longrightarrow> CHR ''$'' \<notin> set v"
  by (fastforce simp: plain_parser_def raw_get_def list_all_iff dest!: dict_get_in split: option.splits)

lemma plain_get: "plain_parser cp \<Longrightarrow> raw_get cp s opt = Some v \<Longrightarrow> cp_get cp s opt = Inr v"
  by (simp add: cp_get_def interpolate_plain plain_raw)

lemma plain_dict_set:
  "list_all (\<lambda>(s, os). list_all (\<lambda>(k, v). CHR ''$'' \<notin> set v) os) ss \<Longrightarrow>
   list_all (\<lambda>(k, v). CHR ''$'' \<notin> set v) os \<Longrightarrow>
   list_all (\<lambda>(s, os). list_all (\<lambda>(k, v). CHR ''$'' \<notin> set v) os) (dict_set ss s os)"
  using set_dict_set_subset [of ss s os] by (fastforce simp: list_all_iff)

lemma plain_cp_set:
  assumes "plain_parser cp" and "CHR ''$'' \<notin> set v" and "cp_set cp s opt v = Inr cp'"
  shows "plain_parser cp'"
proof -
  from assms(2,3) obtain os where os: "dict_get (sections cp) s = Some os"
    and cp': "cp' = cp\<lparr>sections := dict_set (sections cp) s (dict_set os (optionxform opt) v)\<rparr>"
    by (auto simp: cp_set_def settable_plain split: option.splits if_splits)
  from assms(1) os have "list_all (\<lambda>(k, v). CHR ''$'' \<notin> set v) os"
    by (fastforce simp: plain_parser_def list_all_iff dest: dict_get_in)
  then have "list_all (\<lambda>(k, v). CHR ''$'' \<notin> set v) (dict_set os (optionxform opt) v)"
    using set_dict_set_subset [of os "optionxform opt" v] assms(2) by (fastforce simp: list_all_iff)
  with assms(1) show ?thesis by (simp add: plain_parser_def cp' plain_dict_set)
qed

lemma sec_setitem_ok:
  assumes "store_ok st" and "CHR ''$'' \<notin> set v"
  shows "\<exists>l. sec_setitem st sec name v = (Inr (), st\<lparr>local_cfg := l\<rparr>) \<and> plain_parser l
     \<and> has_section l sec
     \<and> (\<forall>s n. raw_get l s n
          = (if s = sec \<and> optionxform n = optionxform name then Some v else raw_get (local_cfg st) s n))"
proof -
  define l1 where "l1 = (if \<not> has_section (local_cfg st) sec then add_section (local_cfg st) sec else local_cfg st)"
  have d: "dflts (local_cfg st) = []" using assms(1) by (simp add: store_ok_def plain_parser_def)
  have p1: "plain_parser l1"
    using assms(1) by (auto simp: l1_def store_ok_def plain_parser_def add_section_def plain_dict_set)
  have h1: "has_section l1 sec" by (simp add: l1_def)
  then obtain os where os: "dict_get (sections l1) sec = Some os"
    by (auto simp: has_section_def dict_has_def)
  have r1: "raw_get l1 s n = raw_get (local_cfg st) s n" for s n
    using d by (auto simp: l1_def raw_get_add_section dest: raw_get_section)
               (metis option.exhaust raw_get_section)
  obtain l where l: "cp_set l1 sec name v = Inr l"
    using os assms(2) by (simp add: cp_set_def settable_plain)
  have "sec_setitem st sec name v = (Inr (), st\<lparr>local_cfg := l\<rparr>)"
    using l by (auto simp: sec_setitem_def l1_def Let_def)
  moreover have "plain_parser l" using plain_cp_set [OF p1 assms(2) l] .
  moreover have "has_section l sec" using h1 l by simp
  ultimately show ?thesis using raw_get_set [OF l] r1 by auto
qed

lemma has_option_section: "has_option cp s n \<Longrightarrow> has_section cp s"
  by (auto simp: has_option_def dest: raw_get_section)

lemma section_option: "has_section cp s \<and> has_option cp s n \<longleftrightarrow> has_option cp s n"
  using has_option_section by blast

lemma sec_getitem_eq:
  "sec_getitem st sec d name =
     (if has_option (local_cfg st) sec name then cp_get (local_cfg st) sec name
      else if has_option (main_cfg st) sec name then cp_get (main_cfg st) sec name
      else (case dict_get d name of Some v \<Rightarrow> Inr v | None \<Rightarrow> Inl (KeyError name)))"
  by (simp add: sec_getitem_def section_option)

lemma sec_lookup_eq:
  assumes "store_ok st"
  shows "sec_lookup sec d st name = (case raw_get (local_cfg st) sec name of
       Some v \<Rightarrow> Some v
     | None \<Rightarrow> (if has_option (main_cfg st) sec name
                then (case cp_get (main_cfg st) sec name of Inr v \<Rightarrow> Some v | Inl _ \<Rightarrow> None)
                else dict_get d name))"
proof (cases "raw_get (local_cfg st) sec name")
  case None
  then show ?thesis by (auto simp: sec_lookup_def sec_getitem_eq has_option_def split: option.splits)
next
  case (Some v)
  with assms show ?thesis by (simp add: sec_lookup_def sec_getitem_eq has_option_def store_ok_def plain_get)
qed

lemma optionxform_idem [simp]: "optionxform (optionxform n) = optionxform n"
proof -
  have "lower_char (lower_char c) = lower_char c" for c
  proof (cases "is_upper c")
    case True
    then have "code c + 32 < 256" by (auto simp: is_upper_def)
    with True have "code (lower_char c) = code c + 32" by (simp add: lower_char_def)
    with True have "\<not> is_upper (lower_char c)" by (auto simp: is_upper_def)
    then show ?thesis by (simp add: lower_char_def)
  next
    case False
    then show ?thesis by (simp add: lower_char_def)
  qed
  then show ?thesis by (simp add: optionxform_def py_lower_def)
qed

interpretation section_kv: kv_store "sec_lookup sec []" "sec_store sec" optionxform
  "\<lambda>v. CHR ''$'' \<notin> set v" store_ok for sec
proof (unfold_locales, goal_cases)
  case (1 s v k)
  then show ?case using sec_setitem_ok [of s v sec k] by (auto simp: sec_store_def store_ok_def)
next
  case (2 s v k s' k')
  then obtain l where l: "s' = s\<lparr>local_cfg := l\<rparr>" "plain_parser l"
    and r: "\<And>s2 n. raw_get l s2 n
      = (if s2 = sec \<and> optionxform n = optionxform k then Some v else raw_get (local_cfg s) s2 n)"
    using sec_setitem_ok [of s v sec k] by (auto simp: sec_store_def)
  have "store_ok s'" using l by (simp add: store_ok_def)
  with 2(1) l r show ?case by (auto simp: sec_lookup_eq split: option.splits)
qed

section \<open>Reading files back\<close>

text \<open>Keys are distinct at both levels, as in every dict.\<close>

definition wf_parser :: "parser \<Rightarrow> bool" where
  "wf_parser cp = (distinct (dict_keys (dflts cp)) \<and> distinct (dict_keys (sections cp))
     \<and> list_all (\<lambda>(s, os). distinct (dict_keys os)) (sections cp))"

lemma map_of_rev_distinct: "distinct (map fst e) \<Longrightarrow> map_of (rev e) = map_of e"
proof (rule ext)
  fix k
  assume "distinct (map fst e)"
  then have "map_of (rev e) k = Some v \<longleftrightarrow> map_of e k = Some v" for v
    by (simp add: map_of_eq_Some_iff rev_map [symmetric])
  then show "map_of (rev e) k = map_of e k" by (metis option.exhaust)
qed

lemma dict_get_update_distinct:
  "distinct (dict_keys e) \<Longrightarrow>
     dict_get (dict_update d e) k = (case dict_get e k of None \<Rightarrow> dict_get d k | Some v \<Rightarrow> Some v)"
  by (simp add: dict_get_update dict_keys_def map_of_rev_distinct) (simp add: dict_get_def)

lemma dict_get_not_key: "k \<notin> set (dict_keys d) \<Longrightarrow> dict_get d k = None"
  using dict_has_iff_keys [of d k] by (simp add: dict_has_def)

lemma dict_get_fold_sections:
  "distinct (dict_keys ss) \<Longrightarrow>
     dict_get (fold (\<lambda>(s, os) acc. dict_set acc s (dict_update (dict_getd acc s []) os)) ss acc) k
     = (case dict_get ss k of None \<Rightarrow> dict_get acc k | Some os \<Rightarrow> Some (dict_update (dict_getd acc k []) os))"
proof (induction ss arbitrary: acc)
  case Nil
  then show ?case by simp
next
  case (Cons p ss)
  obtain s os where p: "p = (s, os)" by (cases p)
  with Cons.prems have "dict_get ss s = None" by (intro dict_get_not_key) (simp add: dict_keys_def)
  with Cons p show ?case by (auto simp: dict_keys_def dict_getd_def split: option.splits)
qed

lemma raw_get_read_file:
  assumes "wf_parser f"
  shows "raw_get (read_file cp f) s opt = (case dict_get (sections f) s of
      None \<Rightarrow> (case dict_get (sections cp) s of None \<Rightarrow> None
        | Some os \<Rightarrow> (case dict_get os (optionxform opt) of Some v \<Rightarrow> Some v
            | None \<Rightarrow> dict_get (dict_update (dflts cp) (dflts f)) (optionxform opt)))
    | Some os \<Rightarrow> (case dict_get os (optionxform opt) of Some v \<Rightarrow> Some v
        | None \<Rightarrow> (case dict_get (dict_getd (sections cp) s []) (optionxform opt) of Some v \<Rightarrow> Some v
            | None \<Rightarrow> dict_get (dict_update (dflts cp) (dflts f)) (optionxform opt))))"
proof -
  have d: "distinct (dict_keys os)" if "dict_get (sections f) s = Some os" for os
    using assms dict_get_in [OF that] by (auto simp: wf_parser_def list_all_iff)
  show ?thesis
    using assms d
    by (auto simp: raw_get_def read_file_def wf_parser_def dict_get_fold_sections
        dict_get_update_distinct split: option.splits)
qed

lemma raw_get_read_empty: "wf_parser f \<Longrightarrow> raw_get (read_file empty_parser f) s opt = raw_get f s opt"
  by (subst raw_get_read_file)
     (auto simp: raw_get_def empty_parser_def dict_getd_def wf_parser_def dict_get_update_distinct
       split: option.splits)

text \<open>What the files say wins over what the parser had, and no option is lost.\<close>

lemma raw_get_read_own:
  "wf_parser f \<Longrightarrow> own_option f s opt \<Longrightarrow> raw_get (read_file cp f) s opt = raw_get f s opt"
  by (subst raw_get_read_file) (auto simp: own_option_def raw_get_def dict_has_def split: option.splits)

lemma wf_parser_simps:
  "wf_parser empty_parser"
  "wf_parser cp \<Longrightarrow> wf_parser (add_section cp s)"
  "wf_parser cp \<Longrightarrow> cp_set cp s opt v = Inr cp' \<Longrightarrow> wf_parser cp'"
proof -
  show "wf_parser empty_parser" by (simp add: wf_parser_def empty_parser_def dict_keys_def)
  show "wf_parser cp \<Longrightarrow> wf_parser (add_section cp s)"
    using set_dict_set_subset [of "sections cp" s "[]"]
    by (fastforce simp: wf_parser_def add_section_def distinct_dict_set list_all_iff dict_keys_def [of "[]"])
  assume w: "wf_parser cp" and c: "cp_set cp s opt v = Inr cp'"
  from c obtain os where os: "dict_get (sections cp) s = Some os"
    and cp': "cp' = cp\<lparr>sections := dict_set (sections cp) s (dict_set os (optionxform opt) v)\<rparr>"
    by (auto simp: cp_set_def split: option.splits if_splits)
  have "distinct (dict_keys os)" using w dict_get_in [OF os] by (auto simp: wf_parser_def list_all_iff)
  then show "wf_parser cp'"
    using w set_dict_set_subset [of "sections cp" s "dict_set os (optionxform opt) v"]
    by (fastforce simp: wf_parser_def cp' distinct_dict_set list_all_iff)
qed

lemma wf_sec_setitem:
  "sec_setitem st sec name v = (r, st') \<Longrightarrow> wf_parser (local_cfg st) \<Longrightarrow> wf_parser (local_cfg st')"
  by (auto simp: sec_setitem_def Let_def split: sum.splits if_splits
      intro: wf_parser_simps(2) wf_parser_simps(3) [rotated])

lemma sec_setitem_reads:
  assumes "store_ok st" and "CHR ''$'' \<notin> set v"
  shows "\<exists>st'. sec_setitem st sec name v = (Inr (), st') \<and> store_ok st' \<and> main_cfg st' = main_cfg st
     \<and> (\<forall>s n. sec_getitem st' s d n
          = (if s = sec \<and> optionxform n = optionxform name then Inr v else sec_getitem st s d n))"
proof -
  obtain l where l: "sec_setitem st sec name v = (Inr (), st\<lparr>local_cfg := l\<rparr>)" "plain_parser l"
    and r: "\<And>s n. raw_get l s n
      = (if s = sec \<and> optionxform n = optionxform name then Some v else raw_get (local_cfg st) s n)"
    using sec_setitem_ok [OF assms] by blast
  have "sec_getitem (st\<lparr>local_cfg := l\<rparr>) s d n
      = (if s = sec \<and> optionxform n = optionxform name then Inr v else sec_getitem st s d n)" for s n
  proof (cases "raw_get l s n")
    case None
    then show ?thesis using r [of s n] by (auto simp: sec_getitem_eq has_option_def split: if_splits)
  next
    case (Some w)
    then show ?thesis using r [of s n] plain_get [OF l(2) Some] assms(1)
      by (auto simp: sec_getitem_eq has_option_def store_ok_def plain_get split: if_splits)
  qed
  with l show ?thesis by (intro exI [of _ "st\<lparr>local_cfg := l\<rparr>"]) (simp add: store_ok_def)
qed

section \<open>Properties\<close>

text \<open>A plain value assigned to a section is read back from it under any spelling of the option
  name that differs in letter case only, ahead of the user and base files and of the defaults, and
  no other option of any section changes.\<close>

theorem setting_roundtrip:
  assumes "store_ok st" and "CHR ''$'' \<notin> set v"
  shows "\<exists>st'. sec_setitem st sec name v = (Inr (), st') \<and> store_ok st' \<and> main_cfg st' = main_cfg st
     \<and> (\<forall>s n. sec_getitem st' s d n
          = (if s = sec \<and> optionxform n = optionxform name then Inr v else sec_getitem st s d n))"
  using sec_setitem_reads [OF assms] .

definition start_cfg :: cfg where
  "start_cfg = \<lparr>main_cfg = empty_parser, local_cfg = empty_parser, user_path = None, local_path = None,
     cfg_files = [(base_config_path, \<lparr>sections = [(''sls'', [(''base'', ''/var/lib''),
        (''local-config'', ''${base}/local.cfg'')])], dflts = []\<rparr>)],
     unreadable = [], unwritable = [], passwd = []\<rparr>"

theorem setting_roundtrip_witness:
  "\<exists>st'. sec_setitem start_cfg ''helpers.gpu'' ''enable'' ''off'' = (Inr (), st')
     \<and> sec_getitem st' ''helpers.gpu'' [] ''Enable'' = Inr ''off''"
proof -
  have "store_ok start_cfg" by (simp add: store_ok_def start_cfg_def plain_parser_def empty_parser_def)
  moreover have "CHR ''$'' \<notin> set ''off''" by simp
  ultimately obtain st' where "sec_setitem start_cfg ''helpers.gpu'' ''enable'' ''off'' = (Inr (), st')"
    and "\<forall>s n. sec_getitem st' s [] n = (if s = ''helpers.gpu'' \<and> optionxform n = optionxform ''enable''
      then Inr ''off'' else sec_getitem start_cfg s [] n)"
    using setting_roundtrip [of start_cfg "''off''" "''helpers.gpu''" "''enable''" "[]"] by blast
  moreover have "optionxform ''Enable'' = optionxform ''enable''"
    by code_simp
  ultimately show ?thesis by auto
qed

section \<open>Persistence and migration\<close>

text \<open>A new process starts with an empty local parser and reloads.\<close>

definition restarted :: "cfg \<Rightarrow> cfg" where
  "restarted st = st\<lparr>main_cfg := empty_parser, local_cfg := empty_parser, user_path := None, local_path := None\<rparr>"

lemma reload_local:
  assumes "reload_config st = (Inr (), st')" and "local_path st' = Some lp"
  shows "local_cfg st' = (case open_cfg st lp of Inl _ \<Rightarrow> local_cfg st | Inr f \<Rightarrow> read_file (local_cfg st) f)"
  using assms by (auto simp: reload_config_def Let_def split: sum.splits if_splits)

lemma reload_files:
  "reload_config st = (r, st') \<Longrightarrow> cfg_files st' = cfg_files st \<and> unreadable st' = unreadable st
     \<and> unwritable st' = unwritable st \<and> passwd st' = passwd st"
  by (auto simp: reload_config_def Let_def split: sum.splits if_splits)

lemma write_config_ok:
  "local_path st = Some p \<Longrightarrow> p \<notin> set (unwritable st) \<Longrightarrow>
     write_config st = (Inr (), st\<lparr>cfg_files := dict_set (cfg_files st) p (local_cfg st)\<rparr>)"
  by (simp add: write_config_def save_cfg_def)


definition run_cfg :: cfg where
  "run_cfg = snd (reload_config start_cfg)"


text \<open>Whether the file at a path gives the option this raw value.\<close>

definition file_has :: "cfg \<Rightarrow> string \<Rightarrow> string \<Rightarrow> string \<Rightarrow> string \<Rightarrow> bool" where
  "file_has st p sec key v = (case dict_get (cfg_files st) p of
       None \<Rightarrow> False | Some f \<Rightarrow> raw_get f sec key = Some v)"

lemma file_has_local:
  assumes "sec_setitem st sec key v = (Inr (), st1)"
  shows "raw_get (local_cfg st1) sec key = Some v"
  using assms by (auto simp: sec_setitem_def Let_def raw_get_set split: sum.splits if_splits)

lemma sec_setitem_frame:
  "sec_setitem st sec key v = (r, st1) \<Longrightarrow> cfg_files st1 = cfg_files st \<and> local_path st1 = local_path st
     \<and> user_path st1 = user_path st \<and> main_cfg st1 = main_cfg st \<and> unwritable st1 = unwritable st"
  by (auto simp: sec_setitem_def Let_def split: sum.splits if_splits)


definition user_cfg :: cfg where
  "user_cfg = run_cfg\<lparr>user_path := Some ''/home/deck/u.cfg'',
     cfg_files := (''/home/deck/u.cfg'', \<lparr>sections = [(''sls'', [(''enable'', ''on'')])], dflts = []\<rparr>)
       # cfg_files run_cfg, unwritable := [''/home/deck/u.cfg'']\<rparr>"


text \<open>A migrated user value that the user wrote with an escaped dollar sign cannot be stored: the value is
  read with the escape undone and assigned as it is, so the migration raises ValueError and the key
  stays in the user file.\<close>

theorem migrate_escaped_dollar_fails:
  assumes "user_path st = Some up" and "up \<noteq> []" and "open_cfg st up = Inr f" and "wf_parser f"
    and "raw_get f sec key = Some ''$$''" and "\<not> has_option (local_cfg st) sec key"
  shows "\<exists>st'. migrate_key st sec key = (Inl ValueError, st') \<and> cfg_files st' = cfg_files st"
proof -
  define u where "u = read_file empty_parser f"
  have u: "raw_get u sec key = Some ''$$''" using assms(4,5) by (simp add: u_def raw_get_read_empty)
  have "interpolate u sec 1 ''$$'' = Inr ''$''"
    by (simp add: interpolate.simps [of u sec _ "''$$''"])
  then have g: "cp_get u sec key = Inr ''$''" using u by (simp add: cp_get_def)
  have hu: "has_option u sec key" "has_section u sec" using u by (auto simp: has_option_def dest: raw_get_section)
  have "\<not> settable ''$''" by code_simp
  then have "\<exists>st1. sec_setitem st sec key ''$'' = (Inl ValueError, st1) \<and> cfg_files st1 = cfg_files st"
    by (auto simp: sec_setitem_def cp_set_def Let_def)
  then show ?thesis
    using assms(1,2,3,6) g hu
    by (auto simp: migrate_key_def u_def [symmetric] section_option Let_def)
qed

definition dollar_cfg :: cfg where
  "dollar_cfg = run_cfg\<lparr>user_path := Some ''u.cfg'',
     cfg_files := [(''u.cfg'', \<lparr>sections = [(''sls'', [(''enable'', ''$$'')])], dflts = []\<rparr>)]\<rparr>"

theorem migrate_escaped_dollar_fails_witness:
  "\<exists>st'. migrate_key dollar_cfg ''sls'' ''enable'' = (Inl ValueError, st') \<and> cfg_files st' = cfg_files dollar_cfg"
proof (rule migrate_escaped_dollar_fails [of dollar_cfg "''u.cfg''"
      "\<lparr>sections = [(''sls'', [(''enable'', ''$$'')])], dflts = []\<rparr>"])
qed code_simp+

end
