(* ===== verification/With_Lock.thy ===== *)
theory With_Lock imports Lockfile begin

text \<open>
  The statement \<^verbatim>\<open>with lock: body\<close> over a shared state, and the contract of a lock as the code that uses
  one relies on it. \<open>acquire\<close> is \<^verbatim>\<open>__enter__\<close> of a fresh lock object and yields its handle, \<open>release\<close>
  is \<^verbatim>\<open>__exit__\<close>.
\<close>

definition with_block ::
  "('s \<Rightarrow> 'h result \<times> 's) \<Rightarrow> ('h \<Rightarrow> 's \<Rightarrow> unit result \<times> 's) \<Rightarrow> ('s \<Rightarrow> 'a result \<times> 's) \<Rightarrow> 's \<Rightarrow> 'a result \<times> 's"
where
  "with_block acquire release body s = (case acquire s of
       (Inl e, s1) \<Rightarrow> (Inl e, s1)
     | (Inr h, s1) \<Rightarrow> (case body s1 of (r, s2) \<Rightarrow>
         (case release h s2 of
            (Inl e, s3) \<Rightarrow> (Inl e, s3)
          | (Inr _, s3) \<Rightarrow> (r, s3))))"

locale mutex =
  fixes acquire :: "'s \<Rightarrow> 'h result \<times> 's"
    and release :: "'h \<Rightarrow> 's \<Rightarrow> unit result \<times> 's"
    and held :: "'h \<Rightarrow> 's \<Rightarrow> bool"
    and busy :: "'s \<Rightarrow> bool"
    and rest :: "'s \<Rightarrow> 'r"
  assumes acquire_fails: "acquire s = (Inl e, s') \<Longrightarrow> busy s \<and> s' = s"
    and acquire_holds: "acquire s = (Inr h, s') \<Longrightarrow> \<not> busy s \<and> held h s' \<and> rest s' = rest s"
    and release_frees: "held h s \<Longrightarrow> \<exists>s'. release h s = (Inr (), s') \<and> \<not> busy s' \<and> rest s' = rest s"
begin

text \<open>A busy lock means the body is not run; a free one means it is run exactly once and the lock is free after.\<close>

lemma busy_skips: "busy s \<Longrightarrow> \<exists>e. with_block acquire release body s = (Inl e, s)"
proof (cases "acquire s")
  case (Pair r s1)
  assume "busy s"
  with Pair acquire_fails acquire_holds show ?thesis
    by (cases r) (auto simp: with_block_def)
qed

lemma free_runs:
  assumes "\<not> busy s" and "\<And>h s1. held h s1 \<Longrightarrow> held h (snd (body s1))"
  shows "\<exists>h s1 s2 s3. acquire s = (Inr h, s1) \<and> rest s1 = rest s \<and> body s1 = (fst (body s1), s2)
     \<and> release h s2 = (Inr (), s3) \<and> rest s3 = rest s2 \<and> \<not> busy s3
     \<and> with_block acquire release body s = (fst (body s1), s3)"
proof -
  obtain h s1 where a: "acquire s = (Inr h, s1)"
    using assms(1) acquire_fails by (metis old.prod.exhaust old.sum.exhaust)
  then have h: "held h s1" "rest s1 = rest s" using acquire_holds by auto
  obtain r s2 where b: "body s1 = (r, s2)" by fastforce
  with assms(2) [OF h(1)] have "held h s2" by simp
  then obtain s3 where c: "release h s2 = (Inr (), s3)" "\<not> busy s3" "rest s3 = rest s2"
    using release_frees by blast
  have "with_block acquire release body s = (r, s3)" using a b c by (simp add: with_block_def)
  with a b c h show ?thesis by auto
qed

lemma always_freed:
  assumes "\<not> busy s" and "\<And>h s1. held h s1 \<Longrightarrow> held h (snd (body s1))"
  shows "\<not> busy (snd (with_block acquire release body s))"
  using free_runs [of s body, OF assms] by auto

end

end
