(* ===== verification/Helpers.thy ===== *)
theory Helpers
  imports Config With_Lock "HOL-Library.Char_ord" "HOL-Library.List_Lexorder"
begin

text \<open>
  \<^verbatim>\<open>steamos_log_submitter/helpers/__init__.py\<close>: result codes, the D-Bus facade of a helper, the base
  class with its flags, directory listings and collection, staged log files, and the validation of
  helper names. The directories below pending, uploaded and failed, the lock files, the
  configuration and the emitted D-Bus signals are one record, which the runner and the helpers share.
\<close>

section \<open>Results\<close>

datatype hresult = OK | TRANSIENT_ERROR | PERMANENT_ERROR | CLASS_ERROR

definition hresult_of :: "int \<Rightarrow> hresult result" where
  "hresult_of n = (if n = 0 then Inr OK else if n = - 1 then Inr TRANSIENT_ERROR
     else if n = - 2 then Inr PERMANENT_ERROR else if n = - 3 then Inr CLASS_ERROR else Inl ValueError)"

definition check :: "bool \<Rightarrow> int \<Rightarrow> int \<Rightarrow> hresult result" where
  "check r true_code false_code = (if r then hresult_of true_code else hresult_of false_code)"

fun raise_dbus_error :: "hresult \<Rightarrow> unit result" where
  "raise_dbus_error OK = Inr ()"
| "raise_dbus_error TRANSIENT_ERROR = Inl TransientError"
| "raise_dbus_error PERMANENT_ERROR = Inl PermanentError"
| "raise_dbus_error CLASS_ERROR = Inl ClassError"

section \<open>The world\<close>

record logfile =
  lf_text :: string
  lf_mtime :: int           \<comment> \<open>modification time, rounded to milliseconds\<close>
  lf_readable :: bool       \<comment> \<open>os.access(path, R_OK)\<close>
  lf_stat :: bool           \<comment> \<open>os.stat succeeds\<close>

type_synonym dir = "(string, logfile) dict"
type_synonym tree = "(string, dir) dict"

datatype signal =
    SigNewLogs string "string list"             \<comment> \<open>NewLogs of a helper\<close>
  | SigDaemonNewLogs "string list"              \<comment> \<open>NewLogs of the daemon\<close>
  | SigChanged string string json               \<comment> \<open>PropertiesChanged: interface, property, value\<close>

record world =
  pend :: tree
  upl :: tree
  fail :: tree
  lockfs :: lfs
  my_pid :: nat
  conf :: cfg
  daemon_set :: bool        \<comment> \<open>HelperInterface.daemon is set\<close>
  signals :: "signal list"

record helper =
  h_name :: string
  h_exts :: "string list"   \<comment> \<open>valid_extensions\<close>

text \<open>\<^verbatim>\<open>_setup\<close>: the names that follow from the module name.\<close>

definition helper_name :: "string \<Rightarrow> string" where
  "helper_name m = after (CHR ''.'') (after (CHR ''.'') m)"

definition h_section :: "helper \<Rightarrow> string" where
  "h_section h = ''helpers.'' @ h_name h"

definition emit :: "signal \<Rightarrow> 'x world_scheme \<Rightarrow> 'x world_scheme" where
  "emit sg w = w\<lparr>signals := signals w @ [sg]\<rparr>"

section \<open>Listings\<close>

definition filter_log :: "helper \<Rightarrow> string \<Rightarrow> bool" where
  "filter_log h fname =
     (if prefix ''.'' fname then False
      else if h_exts h \<noteq> [] \<and> snd (splitext (basename fname)) \<notin> set (h_exts h) then False
      else True)"

text \<open>
  \<^verbatim>\<open>list_type\<close>: the directory is read when the listing is made, the filter is applied when a name is
  taken from it. \<open>raw_listing\<close> is the first part (a missing directory is an empty tuple), \<open>listed\<close> the
  second.
\<close>

definition raw_listing :: "tree \<Rightarrow> helper \<Rightarrow> string list option" where
  "raw_listing t h = map_option dict_keys (dict_get t (h_name h))"

definition listed :: "tree \<Rightarrow> helper \<Rightarrow> string \<Rightarrow> bool" where
  "listed t h log = (filter_log h log \<and> (case dict_get t (h_name h) of
       None \<Rightarrow> False
     | Some d \<Rightarrow> (case dict_get d log of None \<Rightarrow> False | Some f \<Rightarrow> lf_readable f)))"

definition list_type :: "tree \<Rightarrow> helper \<Rightarrow> string list" where
  "list_type t h = (case raw_listing t h of None \<Rightarrow> [] | Some names \<Rightarrow> filter (listed t h) names)"

definition list_pending :: "'x world_scheme \<Rightarrow> helper \<Rightarrow> string list" where
  "list_pending w h = list_type (pend w) h"

definition list_failed :: "'x world_scheme \<Rightarrow> helper \<Rightarrow> string list" where
  "list_failed w h = list_type (fail w) h"

definition list_uploaded :: "'x world_scheme \<Rightarrow> helper \<Rightarrow> string list" where
  "list_uploaded w h = list_type (upl w) h"

section \<open>Flags\<close>

definition flag :: "'x world_scheme \<Rightarrow> helper \<Rightarrow> string \<Rightarrow> bool result" where
  "flag w h name = map_sum id (\<lambda>v. v = Some ''on'') (sec_get (conf w) (h_section h) [] name (Some ''on''))"

definition enabled :: "'x world_scheme \<Rightarrow> helper \<Rightarrow> bool result" where
  "enabled w h = flag w h ''enable''"

definition collect_enabled :: "'x world_scheme \<Rightarrow> helper \<Rightarrow> bool result" where
  "collect_enabled w h = flag w h ''collect''"

definition submit_enabled :: "'x world_scheme \<Rightarrow> helper \<Rightarrow> bool result" where
  "submit_enabled w h = flag w h ''submit''"

text \<open>Assigning a setting and writing the local file; the two steps every setter below shares.\<close>

definition set_and_write :: "helper \<Rightarrow> string \<Rightarrow> string \<Rightarrow> 'x world_scheme \<Rightarrow> unit result \<times> 'x world_scheme" where
  "set_and_write h name v w = (case sec_setitem (conf w) (h_section h) name v of
       (Inl e, c) \<Rightarrow> (Inl e, w\<lparr>conf := c\<rparr>)
     | (Inr _, c) \<Rightarrow> (case write_config c of (r, c') \<Rightarrow> (r, w\<lparr>conf := c'\<rparr>)))"

definition set_flag :: "helper \<Rightarrow> string \<Rightarrow> string \<Rightarrow> bool \<Rightarrow> 'x world_scheme \<Rightarrow> unit result \<times> 'x world_scheme" where
  "set_flag h name prop on w = (case set_and_write h name (if on then ''on'' else ''off'') w of
       (Inl e, w') \<Rightarrow> (Inl e, w')
     | (Inr _, w') \<Rightarrow> (Inr (), emit (SigChanged (h_name h) prop (JBool on)) w'))"

definition enable :: "helper \<Rightarrow> bool \<Rightarrow> 'x world_scheme \<Rightarrow> unit result \<times> 'x world_scheme" where
  "enable h on = set_flag h ''enable'' ''Enabled'' on"

definition enable_collect :: "helper \<Rightarrow> bool \<Rightarrow> 'x world_scheme \<Rightarrow> unit result \<times> 'x world_scheme" where
  "enable_collect h on = set_flag h ''collect'' ''CollectEnabled'' on"

definition enable_submit :: "helper \<Rightarrow> bool \<Rightarrow> 'x world_scheme \<Rightarrow> unit result \<times> 'x world_scheme" where
  "enable_submit h on = set_flag h ''submit'' ''SubmitEnabled'' on"

section \<open>The base class's collect\<close>

text \<open>
  Times are milliseconds. \<open>show_ms\<close> is \<^verbatim>\<open>str\<close> of a float that was rounded to three digits,
  \<open>parse_ms\<close> is \<^verbatim>\<open>round(float(s), 3)\<close> on the decimal notation without exponent (later digits are cut
  off), with None for the ValueError of any other text.
\<close>

definition frac_digits :: "nat \<Rightarrow> string" where
  "frac_digits f = [digit_char (f div 100), digit_char (f div 10 mod 10), digit_char (f mod 10)]"

definition trim_zeros :: "string \<Rightarrow> string" where
  "trim_zeros s = (let t = rev (dropWhile (\<lambda>c. c = CHR ''0'') (rev s)) in if t = [] then ''0'' else t)"

definition show_ms :: "int \<Rightarrow> string" where
  "show_ms t = (if t < 0 then ''-'' else []) @ show_nat (nat \<bar>t\<bar> div 1000) @ ''.''
     @ trim_zeros (frac_digits (nat \<bar>t\<bar> mod 1000))"

definition parse_frac :: "string \<Rightarrow> nat" where
  "parse_frac s = digits_value (take 3 (filter is_digit s @ ''000''))"

definition parse_ms :: "string \<Rightarrow> int option" where
  "parse_ms s0 =
     (let s = strip s0;
          sgn = (if prefix ''-'' s then - 1 else 1);
          b = (if prefix ''-'' s \<or> prefix ''+'' s then tl s else s);
          i = before (CHR ''.'') b; f = (if CHR ''.'' \<in> set b then after (CHR ''.'') b else [])
      in if (i = [] \<and> f = []) \<or> (i \<noteq> [] \<and> \<not> digits_ok i) \<or> (f \<noteq> [] \<and> \<not> digits_ok f) then None
         else Some (sgn * int (digits_value i * 1000 + parse_frac f)))"

text \<open>\<^verbatim>\<open>last_collected\<close>: absent, unreadable as a number, or a time. An interpolation error gets out.\<close>

definition last_collected :: "'x world_scheme \<Rightarrow> helper \<Rightarrow> int option result" where
  "last_collected w h =
     (if sec_contains (conf w) (h_section h) ''newest''
      then map_sum id parse_ms (sec_getitem (conf w) (h_section h) [] ''newest'')
      else Inr None)"

definition mtime_of :: "'x world_scheme \<Rightarrow> helper \<Rightarrow> string \<Rightarrow> int option" where
  "mtime_of w h log = (case dict_get (pend w) (h_name h) of
       None \<Rightarrow> None
     | Some d \<Rightarrow> (case dict_get d log of
         None \<Rightarrow> None | Some f \<Rightarrow> (if lf_stat f then Some (lf_mtime f) else None)))"

definition later :: "int \<Rightarrow> int option \<Rightarrow> bool" where
  "later t prev = (case prev of None \<Rightarrow> True | Some l \<Rightarrow> l < t)"

text \<open>The loop over the pending logs: what is newer than the last collection, and the newest time.\<close>

fun scan_logs :: "'x world_scheme \<Rightarrow> helper \<Rightarrow> int option \<Rightarrow> string list \<Rightarrow> string list \<times> int option
    \<Rightarrow> string list \<times> int option" where
  "scan_logs w h prev [] acc = acc"
| "scan_logs w h prev (log # logs) (newer, newest) = (case mtime_of w h log of
       None \<Rightarrow> scan_logs w h prev logs (newer, newest)
     | Some t \<Rightarrow> scan_logs w h prev logs
         (if later t prev then newer @ [log] else newer,
          if later t newest then Some t else newest))"

text \<open>The NewLogs signal: logs that are no longer pending are dropped, and the daemon is told first.\<close>

definition new_logs :: "helper \<Rightarrow> string list \<Rightarrow> 'x world_scheme \<Rightarrow> 'x world_scheme" where
  "new_logs h logs w =
     (let here = filter (\<lambda>log. log \<in> set (list_pending w h)) logs;
          w1 = (if daemon_set w then emit (SigDaemonNewLogs (map (\<lambda>log. h_name h @ ''/'' @ log) here)) w else w)
      in emit (SigNewLogs (h_name h) here) w1)"

text \<open>\<^verbatim>\<open>int\<close> of a float truncates towards zero.\<close>

definition whole_seconds :: "int \<Rightarrow> int" where
  "whole_seconds t = (if 0 \<le> t then t div 1000 else - (- t div 1000))"

definition base_collect :: "helper \<Rightarrow> 'x world_scheme \<Rightarrow> string list result \<times> 'x world_scheme" where
  "base_collect h w = (case last_collected w h of
       Inl e \<Rightarrow> (Inl e, w)
     | Inr prev \<Rightarrow> (case scan_logs w h prev (list_pending w h) ([], None) of
         (newer, newest) \<Rightarrow>
           (case (case newest of None \<Rightarrow> None | Some t \<Rightarrow> if later t prev then Some t else None) of
              None \<Rightarrow> (Inr newer, if newer \<noteq> [] then new_logs h newer w else w)
            | Some t \<Rightarrow> (case sec_setitem (conf w) (h_section h) ''newest'' (show_ms t) of
                (Inl e, c) \<Rightarrow> (Inl e, w\<lparr>conf := c\<rparr>)
              | (Inr _, c) \<Rightarrow>
                 (let w1 = w\<lparr>conf := c\<rparr>; w2 = (if newer \<noteq> [] then new_logs h newer w1 else w1)
                  in (case write_config (conf w2) of
                        (Inl e, c') \<Rightarrow> (Inl e, w2\<lparr>conf := c'\<rparr>)
                      | (Inr _, c') \<Rightarrow> (Inr newer,
                          emit (SigChanged (h_name h) ''LastCollected'' (JInt (whole_seconds t)))
                            (w2\<lparr>conf := c'\<rparr>))))))))"

text \<open>The LastCollected property.\<close>

definition last_collected_prop :: "'x world_scheme \<Rightarrow> helper \<Rightarrow> int result" where
  "last_collected_prop w h = (case sec_get (conf w) (h_section h) [] ''newest'' None of
       Inl e \<Rightarrow> Inl e
     | Inr None \<Rightarrow> Inr 0
     | Inr (Some s) \<Rightarrow> (case parse_ms s of None \<Rightarrow> Inl ValueError | Some t \<Rightarrow> Inr (whole_seconds t)))"

section \<open>Helper names\<close>

definition validate_helpers :: "string list \<Rightarrow> string list \<Rightarrow> string list \<times> string list" where
  "validate_helpers known helpers =
     (sort (remdups (filter (\<lambda>x. x \<in> set known) helpers)),
      sort (remdups (filter (\<lambda>x. x \<notin> set known) helpers)))"

section \<open>Lemmas\<close>

lemma list_type_in [simp]:
  "log \<in> set (list_type t h) \<longleftrightarrow> listed t h log"
  by (auto simp: list_type_def raw_listing_def listed_def dict_has_iff_keys [symmetric] dict_has_def
      split: option.splits)

lemma digit_char_0: "digit_char 0 = CHR ''0''" by code_simp

lemma digit_char_eq_0 [simp]: "n < 10 \<Longrightarrow> digit_char n = CHR ''0'' \<longleftrightarrow> n = 0"
  using code_digit_char [of n] code_digit_char [of 0] by (metis digit_char_0 add_left_cancel zero_less_numeral)

lemma trim_digits:
  assumes "a < 10" "b < 10" "c < 10"
  shows "trim_zeros [digit_char a, digit_char b, digit_char c]
    = (if c \<noteq> 0 then [digit_char a, digit_char b, digit_char c]
       else if b \<noteq> 0 then [digit_char a, digit_char b] else [digit_char a])"
  using assms by (simp add: trim_zeros_def digit_char_0)

lemma parse_frac_trim:
  assumes "a < 10" "b < 10" "c < 10"
  shows "parse_frac (trim_zeros [digit_char a, digit_char b, digit_char c]) = 100 * a + 10 * b + c"
proof -
  have "is_digit (CHR ''0'')" "code (CHR ''0'') = 48" by code_simp+
  with assms show ?thesis by (simp add: trim_digits parse_frac_def digits_value_def)
qed

lemma parse_frac_digits:
  assumes "f < 1000"
  shows "parse_frac (trim_zeros (frac_digits f)) = f"
proof -
  have "f div 100 < 10" "f div 10 mod 10 < 10" "f mod 10 < 10" using assms by auto
  then have p: "parse_frac (trim_zeros (frac_digits f)) = 100 * (f div 100) + 10 * (f div 10 mod 10) + f mod 10"
    unfolding frac_digits_def by (rule parse_frac_trim)
  have q: "f div 10 div 10 = f div 100" by (simp add: div_mult2_eq [symmetric])
  have "10 * (f div 10) + f mod 10 = f" by (rule mult_div_mod_eq)
  moreover have "10 * (f div 10 div 10) + f div 10 mod 10 = f div 10" by (rule mult_div_mod_eq)
  ultimately show ?thesis unfolding p q [symmetric] by linarith
qed

lemma frac_chars: "f < 1000 \<Longrightarrow> \<forall>c \<in> set (trim_zeros (frac_digits f)). is_digit c"
  by (auto simp: frac_digits_def trim_digits)

lemma frac_not_Nil: "f < 1000 \<Longrightarrow> trim_zeros (frac_digits f) \<noteq> []"
  by (auto simp: frac_digits_def trim_digits)

lemma digits_okI: "s \<noteq> [] \<Longrightarrow> \<forall>c \<in> set s. is_digit c \<Longrightarrow> digits_ok s"
  by (auto simp: digits_ok_def no_double_underscore_digits)

lemma not_digit_chars: "\<not> is_digit (CHR ''.'')" "\<not> is_digit (CHR ''-'')" "\<not> is_digit (CHR ''$'')"
  "\<not> is_digit (CHR ''+'')" "\<not> is_space (CHR ''.'')" "\<not> is_space (CHR ''-'')" by code_simp+

lemma show_ms_chars: "c \<in> set (show_ms t) \<Longrightarrow> is_digit c \<or> c = CHR ''.'' \<or> c = CHR ''-''"
  using frac_chars [of "nat \<bar>t\<bar> mod 1000"]
  by (auto simp: show_ms_def dest: show_nat_digits split: if_splits)

lemma show_ms_plain: "CHR ''$'' \<notin> set (show_ms t)"
  using show_ms_chars [of "CHR ''$''" t] not_digit_chars by auto

lemma parse_show_ms [simp]: "parse_ms (show_ms t) = Some t"
proof -
  define n where "n = nat \<bar>t\<bar>"
  define body where "body = show_nat (n div 1000) @ CHR ''.'' # trim_zeros (frac_digits (n mod 1000))"
  have s: "show_ms t = (if t < 0 then CHR ''-'' # body else body)"
    by (simp add: show_ms_def body_def n_def)
  have st: "strip (show_ms t) = show_ms t"
    by (rule strip_no_space) (auto dest!: show_ms_chars simp: not_digit_chars not_space_digit)
  have nd: "CHR ''.'' \<notin> set (show_nat m)" for m
    using show_nat_digits [of "CHR ''.''" m] not_digit_chars by auto
  obtain c cs where c: "show_nat (n div 1000) = c # cs" by (cases "show_nat (n div 1000)") auto
  have "is_digit c" using show_nat_digits [of c "n div 1000"] c by simp
  then have c': "c \<noteq> CHR ''-''" "c \<noteq> CHR ''+''" using not_digit_chars by auto
  have m: "n mod 1000 < 1000" by simp
  have ok: "digits_ok (trim_zeros (frac_digits (n mod 1000)))"
    using frac_not_Nil [OF m] frac_chars [OF m] by (rule digits_okI)
  have b: "before (CHR ''.'') body = show_nat (n div 1000)"
    "after (CHR ''.'') body = trim_zeros (frac_digits (n mod 1000))" "CHR ''.'' \<in> set body"
    using nd by (simp_all add: body_def)
  have p: "prefix ''-'' body = False" "prefix ''+'' body = False" using c' c by (auto simp: body_def)
  have v: "int (n div 1000 * 1000 + n mod 1000) = \<bar>t\<bar>" by (simp add: n_def)
  show ?thesis
    unfolding parse_ms_def Let_def st
    using s b p v ok frac_not_Nil [OF m] parse_frac_digits [OF m] by (cases "t < 0") auto
qed

text \<open>The scan, as a filter and a maximum.\<close>

definition newest_of :: "int list \<Rightarrow> int option \<Rightarrow> int option" where
  "newest_of ts acc = fold (\<lambda>t m. if later t m then Some t else m) ts acc"

lemma scan_logs_eq:
  "scan_logs w h prev logs (newer, newest) =
     (newer @ filter (\<lambda>log. \<exists>t. mtime_of w h log = Some t \<and> later t prev) logs,
      newest_of (List.map_filter (mtime_of w h) logs) newest)"
  by (induction logs arbitrary: newer newest)
     (auto simp: newest_of_def map_filter_simps split: option.splits)

lemma newest_of_Some:
  "newest_of ts (Some m) = Some (Max (insert m (set ts)))"
proof (induction ts arbitrary: m)
  case Nil
  then show ?case by (simp add: newest_of_def)
next
  case (Cons t ts)
  have "newest_of (t # ts) (Some m) = newest_of ts (Some (max m t))"
    by (auto simp: newest_of_def later_def max_def)
  moreover have "Max (insert (max m t) (set ts)) = Max (insert m (insert t (set ts)))"
    by (cases "set ts = {}") (simp_all add: max.assoc)
  ultimately show ?case by (simp add: Cons.IH)
qed

lemma newest_of_None: "newest_of ts None = (if ts = [] then None else Some (Max (set ts)))"
proof (cases ts)
  case Nil
  then show ?thesis by (simp add: newest_of_def)
next
  case (Cons t ts')
  have "newest_of (t # ts') None = newest_of ts' (Some t)" by (simp add: newest_of_def later_def)
  with Cons show ?thesis by (simp add: newest_of_Some)
qed

lemma emit_simps [simp]:
  "pend (emit sg w) = pend w" "upl (emit sg w) = upl w" "fail (emit sg w) = fail w"
  "lockfs (emit sg w) = lockfs w" "conf (emit sg w) = conf w" "my_pid (emit sg w) = my_pid w"
  "daemon_set (emit sg w) = daemon_set w" "signals (emit sg w) = signals w @ [sg]"
  by (simp_all add: emit_def)

lemma new_logs_simps [simp]:
  "pend (new_logs h logs w) = pend w" "upl (new_logs h logs w) = upl w" "fail (new_logs h logs w) = fail w"
  "lockfs (new_logs h logs w) = lockfs w" "conf (new_logs h logs w) = conf w"
  "my_pid (new_logs h logs w) = my_pid w" "daemon_set (new_logs h logs w) = daemon_set w"
  by (simp_all add: new_logs_def Let_def)

lemma new_logs_signals:
  "\<forall>log \<in> set logs. listed (pend w) h log \<Longrightarrow> SigNewLogs (h_name h) logs \<in> set (signals (new_logs h logs w))"
  by (simp add: new_logs_def Let_def list_pending_def)

lemma write_config_conf:
  "write_config c = (r, c') \<Longrightarrow> \<exists>fs. c' = c\<lparr>cfg_files := fs\<rparr>"
  by (auto simp: write_config_def save_cfg_def split: option.splits if_splits intro: exI [of _ "cfg_files c"])

text \<open>Reading a section depends on the two parsers only.\<close>

lemma section_files [simp]:
  "sec_contains (c\<lparr>cfg_files := fs\<rparr>) = sec_contains c"
  "sec_getitem (c\<lparr>cfg_files := fs\<rparr>) = sec_getitem c"
  by (simp_all add: fun_eq_iff sec_contains_def sec_getitem_def)

lemma last_collected_stored:
  assumes "store_ok c" and "sec_setitem c (h_section h) ''newest'' (show_ms t) = (Inr (), c')" and "conf w = c'\<lparr>cfg_files := fs\<rparr>"
  shows "last_collected w h = Inr (Some t)"
proof -
  have r: "raw_get (local_cfg c') (h_section h) ''newest'' = Some (show_ms t)"
    using file_has_local [OF assms(2)] .
  then have "cp_get (local_cfg c') (h_section h) ''newest'' = Inr (show_ms t)"
    by (simp add: cp_get_def interpolate_plain show_ms_plain)
  with r assms(3) show ?thesis
    by (auto simp: last_collected_def sec_contains_def sec_getitem_def has_option_def section_files
        dest: raw_get_section)
qed

lemma later_Some: "later t (Some m) = (m < t)"
  by (simp add: later_def)

lemma mtime_of_pend: "pend w' = pend w \<Longrightarrow> mtime_of w' h = mtime_of w h"
  by (rule ext) (simp add: mtime_of_def)

text \<open>A scan with nothing later than the last collection reports nothing and writes nothing.\<close>

lemma base_collect_idle:
  assumes "last_collected w h = Inr prev"
    and "\<forall>log \<in> set (list_pending w h). \<forall>t. mtime_of w h log = Some t \<longrightarrow> \<not> later t prev"
  shows "base_collect h w = (Inr [], w)"
proof -
  let ?ts = "List.map_filter (mtime_of w h) (list_pending w h)"
  have no: "\<forall>t \<in> set ?ts. \<not> later t prev" using assms(2) by (auto simp: set_map_filter)
  have f: "filter (\<lambda>log. \<exists>t. mtime_of w h log = Some t \<and> later t prev) (list_pending w h) = []"
    using assms(2) by (auto simp: filter_empty_conv)
  have "?ts \<noteq> [] \<Longrightarrow> \<not> later (Max (set ?ts)) prev" using no by (meson List.finite_set Max_in set_empty)
  then show ?thesis
    using assms(1) f by (simp add: base_collect_def scan_logs_eq newest_of_None)
qed

text \<open>A scan that finds something later stores the newest time, tells of the logs and writes the file.\<close>

lemma base_collect_new:
  assumes "last_collected w h = Inr prev" and "store_ok (conf w)"
    and "local_path (conf w) = Some p" and "p \<notin> set (unwritable (conf w))"
    and "log \<in> set (list_pending w h)" and "mtime_of w h log = Some t" and "later t prev"
    and "newer = filter (\<lambda>log. \<exists>t. mtime_of w h log = Some t \<and> later t prev) (list_pending w h)"
    and "m = Max (set (List.map_filter (mtime_of w h) (list_pending w h)))"
  shows "\<exists>w'. base_collect h w = (Inr newer, w') \<and> pend w' = pend w \<and> upl w' = upl w \<and> fail w' = fail w
     \<and> lockfs w' = lockfs w \<and> last_collected w' h = Inr (Some m)
     \<and> SigNewLogs (h_name h) newer \<in> set (signals w')"
proof -
  let ?ts = "List.map_filter (mtime_of w h) (list_pending w h)"
  have t: "t \<in> set ?ts" using assms(5,6) by (force simp: set_map_filter)
  then have ne: "?ts \<noteq> []" and tm: "t \<le> m" by (auto simp: assms(9))
  then have m: "newest_of ?ts None = Some m" "later m prev"
    using assms(7) by (auto simp: newest_of_None assms(9) later_def split: option.splits)
  have nn: "newer \<noteq> []" using assms(5-8) by (auto simp: filter_empty_conv)
  obtain l where l: "sec_setitem (conf w) (h_section h) ''newest'' (show_ms m) = (Inr (), (conf w)\<lparr>local_cfg := l\<rparr>)"
    using sec_setitem_ok [OF assms(2) show_ms_plain, of "h_section h" "''newest''" m] by blast
  let ?c = "(conf w)\<lparr>local_cfg := l\<rparr>"
  let ?w2 = "new_logs h newer (w\<lparr>conf := ?c\<rparr>)"
  let ?w' = "emit (SigChanged (h_name h) ''LastCollected'' (JInt (whole_seconds m)))
    (?w2\<lparr>conf := ?c\<lparr>cfg_files := dict_set (cfg_files (conf w)) p l\<rparr>\<rparr>)"
  have wr: "write_config ?c = (Inr (), ?c\<lparr>cfg_files := dict_set (cfg_files (conf w)) p l\<rparr>)"
    using assms(3,4) write_config_ok [of ?c p] by simp
  have "base_collect h w = (Inr newer, ?w')"
    using assms(1) m nn l wr by (simp add: base_collect_def scan_logs_eq assms(8) [symmetric])
  moreover have "last_collected ?w' h = Inr (Some m)"
    using last_collected_stored [OF assms(2) l, of ?w'] by simp
  moreover have "SigNewLogs (h_name h) newer \<in> set (signals ?w2)"
    by (rule new_logs_signals) (auto simp: assms(8) list_pending_def)
  ultimately show ?thesis by (intro exI [of _ ?w']) simp
qed

section \<open>Properties of a collection\<close>

definition gpu_helper :: helper where
  "gpu_helper = \<lparr>h_name = ''gpu'', h_exts = [''.zip'']\<rparr>"

definition gpu_world :: world where
  "gpu_world = \<lparr>pend = [(''gpu'', [(''a.zip'', \<lparr>lf_text = ''a'', lf_mtime = 1500, lf_readable = True, lf_stat = True\<rparr>),
        (''.lock'', \<lparr>lf_text = [], lf_mtime = 1900, lf_readable = True, lf_stat = True\<rparr>),
        (''b.zip'', \<lparr>lf_text = ''b'', lf_mtime = 1750, lf_readable = True, lf_stat = True\<rparr>)])],
     upl = [(''gpu'', [])], fail = [(''gpu'', [])],
     lockfs = \<lparr>entry = [], content = [], fds = [], next_ino = 0, hidden = []\<rparr>, my_pid = 7,
     conf = snd (sec_setitem run_cfg ''helpers.gpu'' ''newest'' ''1.5''),
     daemon_set = True, signals = []\<rparr>"

text \<open>C14. A collection reports exactly the pending logs whose modification time lies after the stored
  time of the last collection, in listing order; it moves no log; the time it stores then covers
  every pending log, so that collecting again with no new log reports nothing and changes nothing;
  and when it reports something it has announced the same logs on the bus.\<close>

theorem collect_reports_new_logs:
  assumes "last_collected w h = Inr prev" and "store_ok (conf w)"
    and "local_path (conf w) = Some p" and "p \<notin> set (unwritable (conf w))"
    and "newer = filter (\<lambda>log. \<exists>t. mtime_of w h log = Some t \<and> later t prev) (list_pending w h)"
  shows "\<exists>w'. base_collect h w = (Inr newer, w')
     \<and> pend w' = pend w \<and> upl w' = upl w \<and> fail w' = fail w \<and> lockfs w' = lockfs w
     \<and> base_collect h w' = (Inr [], w')
     \<and> (newer = [] \<or> SigNewLogs (h_name h) newer \<in> set (signals w'))"
proof (cases "newer = []")
  case True
  then have "base_collect h w = (Inr [], w)"
    using assms(5) by (intro base_collect_idle [OF assms(1)]) (auto simp: filter_empty_conv)
  with True show ?thesis by auto
next
  case False
  then obtain log t where l: "log \<in> set (list_pending w h)" "mtime_of w h log = Some t" "later t prev"
    using assms(5) by (auto simp: filter_empty_conv)
  from base_collect_new [OF assms(1-4) l assms(5) refl] obtain w' where w':
    "base_collect h w = (Inr newer, w')" "pend w' = pend w" "upl w' = upl w" "fail w' = fail w"
    "lockfs w' = lockfs w" "SigNewLogs (h_name h) newer \<in> set (signals w')"
    "last_collected w' h = Inr (Some (Max (set (List.map_filter (mtime_of w h) (list_pending w h)))))"
    by blast
  have "base_collect h w' = (Inr [], w')"
  proof (rule base_collect_idle [OF w'(7)], intro ballI allI impI)
    fix log t assume "log \<in> set (list_pending w' h)" "mtime_of w' h log = Some t"
    moreover have "mtime_of w' h = mtime_of w h" "list_pending w' h = list_pending w h"
      using w'(2) by (rule mtime_of_pend) (simp add: list_pending_def w'(2))
    ultimately have "t \<in> set (List.map_filter (mtime_of w h) (list_pending w h))"
      unfolding set_map_filter by auto
    then show "\<not> later t (Some (Max (set (List.map_filter (mtime_of w h) (list_pending w h)))))"
      unfolding later_Some not_less by (intro Max_ge) simp
  qed
  with w' show ?thesis by blast
qed

theorem collect_reports_new_logs_witness:
  "\<exists>w'. base_collect gpu_helper gpu_world = (Inr [''b.zip''], w') \<and> base_collect gpu_helper w' = (Inr [], w')"
proof -
  have "last_collected gpu_world gpu_helper = Inr (Some 1500)" "store_ok (conf gpu_world)"
    "local_path (conf gpu_world) = Some ''/var/lib/local.cfg''"
    "''/var/lib/local.cfg'' \<notin> set (unwritable (conf gpu_world))"
    by code_simp+
  moreover have "[''b.zip''] = filter (\<lambda>log. case mtime_of gpu_world gpu_helper log of None \<Rightarrow> False
      | Some t \<Rightarrow> later t (Some 1500)) (list_pending gpu_world gpu_helper)"
    by code_simp
  then have "[''b.zip''] = filter (\<lambda>log. \<exists>t. mtime_of gpu_world gpu_helper log = Some t \<and> later t (Some 1500))
      (list_pending gpu_world gpu_helper)"
    by (simp add: option.case_eq_if) (auto intro: filter_cong)
  ultimately show ?thesis using collect_reports_new_logs by blast
qed

end
