(* ===== verification/Helper_Files.thy ===== *)
theory Helper_Files imports Helpers begin

text \<open>
  The rest of \<^verbatim>\<open>helpers/__init__.py\<close>: the Extract method of the D-Bus facade and the staging files through
  which logs are published, with their safety properties, and what setting a flag does.
\<close>

section \<open>Extract\<close>

text \<open>\<^verbatim>\<open>__init__.py\<close>: the three directories under the base.\<close>

definition dir_path :: "string \<Rightarrow> string \<Rightarrow> string \<Rightarrow> string" where
  "dir_path base kind name = base @ ''/'' @ kind @ ''/'' @ name"

definition extract_paths :: "string \<Rightarrow> helper \<Rightarrow> string \<Rightarrow> string \<Rightarrow> string list result" where
  "extract_paths base h filename type =
     (if filename = [] then Inl IndexError
      else if hd filename = CHR ''.'' \<or> sublist ''..'' filename then Inl PermanentError
      else Inr (map (\<lambda>kind. dir_path base kind (h_name h) @ ''/'' @ filename)
             (filter (\<lambda>kind. type = [] \<or> type = kind) [''pending'', ''failed'', ''uploaded''])))"

fun first_open :: "(string \<Rightarrow> int result) \<Rightarrow> string list \<Rightarrow> int result" where
  "first_open os_open [] = Inl PermanentError"
| "first_open os_open (p # ps) = (case os_open p of
       Inr fd \<Rightarrow> Inr fd
     | Inl e \<Rightarrow> (if e = FileNotFoundError then first_open os_open ps else Inl e))"

definition Extract :: "(string \<Rightarrow> int result) \<Rightarrow> string \<Rightarrow> helper \<Rightarrow> string \<Rightarrow> string \<Rightarrow> int result" where
  "Extract os_open base h filename type = (case extract_paths base h filename type of
       Inl e \<Rightarrow> Inl e | Inr ps \<Rightarrow> first_open os_open ps)"

section \<open>Staged files\<close>

definition pend_dir :: "'x world_scheme \<Rightarrow> string \<Rightarrow> dir option" where
  "pend_dir w cat = dict_get (pend w) cat"

definition set_pend :: "string \<Rightarrow> dir \<Rightarrow> 'x world_scheme \<Rightarrow> 'x world_scheme" where
  "set_pend cat d w = w\<lparr>pend := dict_set (pend w) cat d\<rparr>"

definition staging_name :: "string \<Rightarrow> string" where
  "staging_name rnd = ''.staging-'' @ rnd"

text \<open>
  \<^verbatim>\<open>with StagingFile(category, name) as f: ...\<close>, where the block writes \<open>text\<close> and ends normally or with
  an exception. \<open>chown\<close> is the outcome of giving the file away when running as root. \<^verbatim>\<open>__exit__\<close> closes,
  and so renames, in both cases.
\<close>

definition staging_open :: "string \<Rightarrow> string \<Rightarrow> logfile \<Rightarrow> 'x world_scheme \<Rightarrow> unit result \<times> 'x world_scheme" where
  "staging_open cat rnd f w = (case pend_dir w cat of
       None \<Rightarrow> (Inl FileNotFoundError, w)
     | Some d \<Rightarrow> (Inr (), set_pend cat (dict_set d (staging_name rnd) f) w))"

definition staging_close ::
  "string \<Rightarrow> string \<Rightarrow> string \<Rightarrow> unit result \<Rightarrow> 'x world_scheme \<Rightarrow> unit result \<times> 'x world_scheme" where
  "staging_close cat rnd name chown w = (case chown of
       Inl e \<Rightarrow> (Inl e, w)
     | Inr _ \<Rightarrow> (case pend_dir w cat of
         None \<Rightarrow> (Inl FileNotFoundError, w)
       | Some d \<Rightarrow> (case dict_get d (staging_name rnd) of
           None \<Rightarrow> (Inl FileNotFoundError, w)
         | Some f \<Rightarrow> (Inr (), set_pend cat (dict_set (dict_del d (staging_name rnd)) name f) w))))"

definition with_staging ::
  "string \<Rightarrow> string \<Rightarrow> string \<Rightarrow> unit result \<Rightarrow> unit result \<times> logfile \<Rightarrow> 'x world_scheme
     \<Rightarrow> unit result \<times> 'x world_scheme" where
  "with_staging cat rnd name chown blk w = (case staging_open cat rnd (snd blk) w of
       (Inl e, w1) \<Rightarrow> (Inl e, w1)
     | (Inr _, w1) \<Rightarrow> (case staging_close cat rnd name chown w1 of
         (Inl e, w2) \<Rightarrow> (Inl e, w2) | (Inr _, w2) \<Rightarrow> (fst blk, w2)))"

section \<open>Extract stays inside the helper's directory\<close>

text \<open>Lexical resolution of a path's components, as the kernel walks them when there are no links.\<close>

fun resolve :: "string list \<Rightarrow> string list \<Rightarrow> string list" where
  "resolve st [] = rev st"
| "resolve st (c # cs) =
     (if c = [] \<or> c = ''.'' then resolve st cs
      else if c = ''..'' then resolve (tl st) cs else resolve (c # st) cs)"

lemma resolve_append: "resolve st (a @ b) = resolve (rev (resolve st a)) b"
  by (induction st a rule: resolve.induct) auto

lemma resolve_plain: "''..'' \<notin> set cs \<Longrightarrow> resolve st cs = rev st @ filter (\<lambda>c. c \<noteq> [] \<and> c \<noteq> ''.'') cs"
  by (induction st cs rule: resolve.induct) auto

lemma split_on_join: "split_on c (a @ c # b) = split_on c a @ split_on c b"
  by (induction c a rule: split_on.induct) (auto split: list.splits)

lemma split_on_hd_prefix: "prefix (hd (split_on c s)) s"
  by (induction c s rule: split_on.induct) (auto split: list.splits)

lemma split_on_sublist: "p \<in> set (split_on c s) \<Longrightarrow> sublist p s"
proof (induction s arbitrary: p)
  case Nil
  then show ?case by simp
next
  case (Cons a s)
  obtain q qs where q: "split_on c s = q # qs" by (cases "split_on c s") auto
  have pq: "prefix q s" using split_on_hd_prefix [of c s] q by simp
  from Cons.prems q consider "a = c" "p = []" | "p \<in> set (split_on c s)" | "p = a # q"
    by (auto split: if_splits)
  then show ?case
  proof cases
    case 1
    then show ?thesis by simp
  next
    case 2
    then have "sublist p s" by (rule Cons.IH)
    then show ?thesis by (simp add: sublist_Cons_right)
  next
    case 3
    with pq show ?thesis by (simp add: prefix_imp_sublist)
  qed
qed

lemma first_open_from: "first_open os_open ps = Inr fd \<Longrightarrow> \<exists>p \<in> set ps. os_open p = Inr fd"
  by (induction ps) (auto split: sum.splits if_splits)

text \<open>C21. Whatever file name a D-Bus client passes to Extract, the file handed out lies in the helper's own
  pending, failed or uploaded directory: with the path resolved component by component the
  directory's own components come first and the rest are the file name's, none of them a parent.\<close>

theorem extract_stays_inside:
  assumes "Extract os_open base h filename type = Inr fd"
  shows "\<exists>kind \<in> {''pending'', ''failed'', ''uploaded''}.
     os_open (dir_path base kind (h_name h) @ ''/'' @ filename) = Inr fd
     \<and> resolve [] (split_on (CHR ''/'') (dir_path base kind (h_name h) @ ''/'' @ filename))
       = resolve [] (split_on (CHR ''/'') (dir_path base kind (h_name h)))
         @ filter (\<lambda>c. c \<noteq> [] \<and> c \<noteq> ''.'') (split_on (CHR ''/'') filename)
     \<and> ''..'' \<notin> set (split_on (CHR ''/'') filename)"
proof -
  from assms have nodots: "\<not> sublist ''..'' filename"
    by (auto simp: Extract_def extract_paths_def split: if_splits)
  then have n: "''..'' \<notin> set (split_on (CHR ''/'') filename)" using split_on_sublist by blast
  from assms have "first_open os_open (map (\<lambda>kind. dir_path base kind (h_name h) @ ''/'' @ filename)
      (filter (\<lambda>kind. type = [] \<or> type = kind) [''pending'', ''failed'', ''uploaded''])) = Inr fd"
    by (simp only: Extract_def extract_paths_def sum.case sum.distinct split: if_splits)
  from first_open_from [OF this] obtain kind where
    k: "kind \<in> {''pending'', ''failed'', ''uploaded''}"
    and o: "os_open (dir_path base kind (h_name h) @ ''/'' @ filename) = Inr fd"
    unfolding set_map set_filter by auto
  let ?d = "dir_path base kind (h_name h)"
  have "resolve [] (split_on (CHR ''/'') (?d @ ''/'' @ filename))
      = resolve [] (split_on (CHR ''/'') ?d) @ filter (\<lambda>c. c \<noteq> [] \<and> c \<noteq> ''.'') (split_on (CHR ''/'') filename)"
    using split_on_join [of "CHR ''/''" ?d filename] n by (simp add: resolve_append resolve_plain)
  with k o n show ?thesis by blast
qed

definition sample_open :: "string \<Rightarrow> int result" where
  "sample_open p = (if prefix ''/v/failed'' p then Inr 5 else Inl FileNotFoundError)"

theorem extract_stays_inside_witness:
  "\<exists>kind \<in> {''pending'', ''failed'', ''uploaded''}.
     sample_open (dir_path ''/v'' kind (h_name gpu_helper) @ ''/'' @ ''/etc/passwd'') = Inr 5
     \<and> ''..'' \<notin> set (split_on (CHR ''/'') ''/etc/passwd'')"
proof -
  have "Extract sample_open ''/v'' gpu_helper ''/etc/passwd'' [] = Inr 5" by code_simp
  from extract_stays_inside [OF this] show ?thesis by blast
qed

section \<open>Staging\<close>

lemma staging_hidden: "\<not> filter_log h (staging_name rnd)"
  by (simp add: filter_log_def staging_name_def)

text \<open>A log written through a staging file is never listed half-written: while it is open no helper
  lists it, and once the block is left it is listed under its final name, if the helper's filter
  lets that name through, with the text written; every other name is listed as before.\<close>

theorem staged_log_appears_whole:
  assumes "pend_dir w (h_name h) = Some d" and "lf_readable f" and "dict_get d (staging_name rnd) = None"
    and "staging_open (h_name h) rnd f w = (Inr (), w1)"
    and "staging_close (h_name h) rnd name (Inr ()) w1 = (Inr (), w2)"
  shows "(\<forall>log. listed (pend w1) h log = listed (pend w) h log)
     \<and> (\<forall>log. listed (pend w2) h log = (if log = name then filter_log h name else listed (pend w) h log))
     \<and> (\<exists>d2. pend_dir w2 (h_name h) = Some d2 \<and> dict_get d2 name = Some f)"
proof -
  let ?s = "staging_name rnd"
  have w1: "w1 = set_pend (h_name h) (dict_set d ?s f) w"
    using assms(1,4) by (simp add: staging_open_def)
  have w2: "w2 = set_pend (h_name h) (dict_set (dict_del (dict_set d ?s f) ?s) name f) w1"
    using assms(5) by (simp add: staging_close_def w1 pend_dir_def set_pend_def)
  have o: "dict_get (pend w) (h_name h) = Some d" using assms(1) by (simp add: pend_dir_def)
  have "listed (pend w1) h log = listed (pend w) h log" for log
    using staging_hidden [of h rnd] by (auto simp: w1 set_pend_def listed_def o)
  moreover have "listed (pend w2) h log = (if log = name then filter_log h name else listed (pend w) h log)" for log
    using staging_hidden [of h rnd] assms(2) by (auto simp: w1 w2 set_pend_def listed_def o)
  ultimately show ?thesis by (auto simp: w2 pend_dir_def set_pend_def)
qed

theorem staged_log_appears_whole_witness:
  "\<exists>w1 w2. staging_open ''gpu'' ''x'' \<lparr>lf_text = ''t'', lf_mtime = 1, lf_readable = True, lf_stat = True\<rparr> gpu_world = (Inr (), w1)
     \<and> staging_close ''gpu'' ''x'' ''c.zip'' (Inr ()) w1 = (Inr (), w2)
     \<and> \<not> listed (pend w1) gpu_helper ''c.zip'' \<and> listed (pend w2) gpu_helper ''c.zip''"
proof -
  let ?f = "\<lparr>lf_text = ''t'', lf_mtime = 1, lf_readable = True, lf_stat = True\<rparr> :: logfile"
  obtain d where d: "pend_dir gpu_world (h_name gpu_helper) = Some d" "dict_get d (staging_name ''x'') = None"
    by (auto simp: pend_dir_def gpu_world_def gpu_helper_def staging_name_def)
  have f: "lf_readable ?f" by simp
  define w1 where "w1 = snd (staging_open (h_name gpu_helper) ''x'' ?f gpu_world)"
  have w1: "staging_open (h_name gpu_helper) ''x'' ?f gpu_world = (Inr (), w1)"
    using d by (simp add: w1_def staging_open_def)
  define w2 where "w2 = snd (staging_close (h_name gpu_helper) ''x'' ''c.zip'' (Inr ()) w1)"
  have w2: "staging_close (h_name gpu_helper) ''x'' ''c.zip'' (Inr ()) w1 = (Inr (), w2)"
    using d by (simp add: w2_def w1_def staging_open_def staging_close_def pend_dir_def set_pend_def)
  have "\<not> listed (pend gpu_world) gpu_helper ''c.zip''" "filter_log gpu_helper ''c.zip''" by code_simp+
  moreover have "h_name gpu_helper = ''gpu''" by (simp add: gpu_helper_def)
  ultimately show ?thesis
    using staged_log_appears_whole [OF d(1) f d(2) w1 w2] w1 w2 by metis
qed

text \<open>Leaving the block of a staging file by an exception does not discard it: the text written so far
  is published under the final name all the same, and the exception goes on.\<close>

theorem staging_publishes_on_error:
  assumes "pend_dir w cat = Some d" and "chown = Inr ()"
  shows "\<exists>w' d'. with_staging cat rnd name chown (Inl e, f) w = (Inl e, w')
     \<and> pend_dir w' cat = Some d' \<and> dict_get d' name = Some f"
  using assms by (simp add: with_staging_def staging_open_def staging_close_def pend_dir_def set_pend_def)

theorem staging_publishes_on_error_witness:
  "\<exists>w' d'. with_staging ''gpu'' ''x'' ''c.zip'' (Inr ()) (Inl OSError, undefined) gpu_world = (Inl OSError, w')
     \<and> pend_dir w' ''gpu'' = Some d' \<and> dict_get d' ''c.zip'' = Some undefined"
  by (rule staging_publishes_on_error [OF _ refl]) (simp add: pend_dir_def gpu_world_def)

section \<open>Flags\<close>

text \<open>Setting one of a helper's flags is seen by its own getter, changes no other flag of any helper,
  and announces the property, provided the local file can be written; if it cannot, the flag is set
  in memory all the same, the exception is raised and nothing is announced.\<close>

theorem set_flag_spec:
  assumes "store_ok (conf w)"
  shows "\<exists>r w'. set_flag h name prop on w = (r, w')
     \<and> (\<forall>h' name'. flag w' h' name'
          = (if h_section h' = h_section h \<and> optionxform name' = optionxform name then Inr on else flag w h' name'))
     \<and> (if \<exists>p. local_path (conf w) = Some p \<and> p \<notin> set (unwritable (conf w))
        then r = Inr () \<and> signals w' = signals w @ [SigChanged (h_name h) prop (JBool on)]
        else r \<noteq> Inr () \<and> signals w' = signals w)"
proof -
  let ?v = "if on then ''on'' else ''off''"
  have "CHR ''$'' \<notin> set ?v" by simp
  from sec_setitem_reads [OF assms this, of "h_section h" name "[]"] obtain c where
    c: "sec_setitem (conf w) (h_section h) name ?v = (Inr (), c)"
    and g: "\<And>s n. sec_getitem c s [] n
       = (if s = h_section h \<and> optionxform n = optionxform name then Inr ?v else sec_getitem (conf w) s [] n)"
    by blast
  note fr = sec_setitem_frame [OF c]
  have gf: "sec_getitem (c\<lparr>cfg_files := fs\<rparr>) s [] n = sec_getitem c s [] n" for fs s n by simp
  have fl: "flag w' h' name'
      = (if h_section h' = h_section h \<and> optionxform name' = optionxform name then Inr on else flag w h' name')"
    if "sec_getitem (conf w') (h_section h') [] name' = sec_getitem c (h_section h') [] name'" for w' h' name'
    using that g by (auto simp: flag_def sec_get_def)
  show ?thesis
  proof (cases "\<exists>p. local_path (conf w) = Some p \<and> p \<notin> set (unwritable (conf w))")
    case True
    then obtain p where p: "local_path c = Some p" "p \<notin> set (unwritable c)" using fr by auto
    let ?w = "emit (SigChanged (h_name h) prop (JBool on))
        (w\<lparr>conf := c\<lparr>cfg_files := dict_set (cfg_files c) p (local_cfg c)\<rparr>\<rparr>)"
    have "set_flag h name prop on w = (Inr (), ?w)"
      using c write_config_ok [OF p] by (simp add: set_flag_def set_and_write_def)
    moreover have "conf ?w = c\<lparr>cfg_files := dict_set (cfg_files c) p (local_cfg c)\<rparr>" by simp
    ultimately show ?thesis using True fl [of ?w] by auto
  next
    case False
    then obtain e where e: "write_config c = (Inl e, c)"
      using fr by (cases "local_path (conf w)") (auto simp: write_config_def save_cfg_def)
    then have "set_flag h name prop on w = (Inl e, w\<lparr>conf := c\<rparr>)"
      using c by (simp add: set_flag_def set_and_write_def)
    with False fl [of "w\<lparr>conf := c\<rparr>"] show ?thesis by auto
  qed
qed

theorem set_flag_spec_witness:
  "flag (snd (set_flag gpu_helper ''enable'' ''Enabled'' False gpu_world)) gpu_helper ''enable'' = Inr False"
proof -
  have "store_ok (conf gpu_world)" by code_simp
  from set_flag_spec [OF this, of gpu_helper "''enable''" "''Enabled''" False] show ?thesis by auto
qed

end
