(* ===== verification/Util.thy ===== *)
theory Util imports Py_Strings begin

text \<open>
  \<^verbatim>\<open>steamos_log_submitter/util.py\<close>: what the helpers, hooks and the runner use to look at the system. What
  the functions read (files, processes, answers of a server) is an argument.
\<close>

section \<open>check\_network\<close>

text \<open>
  One probe is the status code of the HEAD request, or None for an exception. Five probes at most are
  made; a failed one is followed by four seconds of sleep. The result comes with the number of
  sleeps.
\<close>

fun check_probes :: "nat \<Rightarrow> (nat \<Rightarrow> int option) \<Rightarrow> nat \<Rightarrow> bool \<times> nat" where
  "check_probes 0 probe k = (False, k)"
| "check_probes (Suc n) probe k = (if probe k = Some 204 then (True, k) else check_probes n probe (Suc k))"

definition check_network :: "(nat \<Rightarrow> int option) \<Rightarrow> bool" where
  "check_network probe = fst (check_probes 5 probe 0)"

lemma check_network_iff: "check_network probe \<longleftrightarrow> (\<exists>k \<in> {0, 1, 2, 3, 4}. probe k = Some 204)"
  by (auto simp: check_network_def eval_nat_numeral)

end
