(* ===== verification/Runner.thy ===== *)
theory Runner imports Helpers Util begin

text \<open>
  \<^verbatim>\<open>steamos_log_submitter/runner.py\<close>: collecting and submitting the logs of one helper under its lock, and
  of all helpers. A helper is its record together with its three coroutines, which are arguments
  here. The tasks of \<^verbatim>\<open>asyncio.wait\<close> are run one after the other in the order they were created, and
  their results are taken in an arbitrary order, the argument \<open>arrange\<close>.
\<close>

section \<open>The lock of a helper's directory\<close>

definition lock_path :: "helper \<Rightarrow> string" where
  "lock_path h = h_name h @ ''/.lock''"

text \<open>
  \<^verbatim>\<open>with helper.lock()\<close> on the world and whatever local variables \<open>'a\<close> the block changes. The lock file
  lies in the pending directory: without that directory it cannot be created.
\<close>

definition acquire_lock :: "helper \<Rightarrow> 'x world_scheme \<times> 'a \<Rightarrow> nat result \<times> 'x world_scheme \<times> 'a" where
  "acquire_lock h s = (case s of (w, a) \<Rightarrow>
     (if \<not> dict_has (pend w) (h_name h) then (Inl FileNotFoundError, w, a)
      else (case lock_alone (my_pid w) (lock_path h) None (lockfs w) of
          (Inr _, Some fd, fs) \<Rightarrow> (Inr fd, w\<lparr>lockfs := fs\<rparr>, a)
        | (Inr _, None, fs) \<Rightarrow> (Inl OtherException, w\<lparr>lockfs := fs\<rparr>, a)
        | (Inl e, _, fs) \<Rightarrow> (Inl e, w\<lparr>lockfs := fs\<rparr>, a))))"

definition release_lock :: "helper \<Rightarrow> nat \<Rightarrow> 'x world_scheme \<times> 'a \<Rightarrow> unit result \<times> 'x world_scheme \<times> 'a" where
  "release_lock h fd s = (case s of (w, a) \<Rightarrow>
     (case unlock_alone (my_pid w) (lock_path h) (Some fd) (lockfs w) of
        (r, _, fs) \<Rightarrow> (r, w\<lparr>lockfs := fs\<rparr>, a)))"

definition holds_lock :: "helper \<Rightarrow> nat \<Rightarrow> 'x world_scheme \<times> 'a \<Rightarrow> bool" where
  "holds_lock h fd s = (owns (lockfs (fst s)) (lock_path h) (my_pid (fst s)) fd \<and> dict_has (pend (fst s)) (h_name h))"

definition lock_busy :: "helper \<Rightarrow> 'x world_scheme \<Rightarrow> bool" where
  "lock_busy h w = (\<not> dict_has (pend w) (h_name h) \<or> live (lockfs w) (lock_path h))"

definition no_locks :: lfs where
  "no_locks = \<lparr>entry = [], content = [], fds = [], next_ino = 0, hidden = []\<rparr>"

lemma lock_none: "(live fs p \<and> lock_alone pid p None fs = (Inl LockHeldError, None, fs))
   \<or> (\<not> live fs p \<and> (\<exists>fd fs'. lock_alone pid p None fs = (Inr (), Some fd, fs') \<and> owns fs' p pid fd))"
proof (cases "live fs p")
  case True
  then show ?thesis by (simp add: lock_alone_eq)
next
  case False
  obtain fd fs' where "obtain_lock pid p fs = (fd, fs')" by fastforce
  with False obtain_lock_owns show ?thesis by (auto simp: lock_alone_eq)
qed

interpretation helper_lock: mutex "acquire_lock h" "release_lock h" "holds_lock h" "\<lambda>s. lock_busy h (fst s)"
  "\<lambda>s. ((fst s)\<lparr>lockfs := no_locks\<rparr>, snd s)" for h
proof (unfold_locales, goal_cases)
  case (1 s e s')
  obtain w a where s: "s = (w, a)" by fastforce
  show ?case using 1 lock_none [of "lockfs w" "lock_path h" "my_pid w"]
    by (auto simp: s acquire_lock_def lock_busy_def split: if_splits)
next
  case (2 s fd s')
  obtain w a where s: "s = (w, a)" by fastforce
  show ?case using 2 lock_none [of "lockfs w" "lock_path h" "my_pid w"]
    by (auto simp: s acquire_lock_def lock_busy_def holds_lock_def split: if_splits)
next
  case (3 fd s)
  obtain w a where s: "s = (w, a)" by fastforce
  show ?case using 3 unlock_alone_owned [of "lockfs w" "lock_path h" "my_pid w" fd]
    by (auto simp: s release_lock_def lock_busy_def holds_lock_def live_def)
qed

section \<open>Submitting one helper's logs\<close>

record 'w helper_ops =
  op_helper :: helper
  op_collect :: "'w \<Rightarrow> string list result \<times> 'w"
  op_submit :: "string \<Rightarrow> 'w \<Rightarrow> hresult result \<times> 'w"      \<comment> \<open>of the log of this name\<close>
  op_startup :: "'w \<Rightarrow> unit result \<times> 'w"

type_synonym submitted = "(string, hresult result) dict"

definition look :: "tree \<Rightarrow> string \<Rightarrow> string \<Rightarrow> logfile option" where
  "look t c log = (case dict_get t c of None \<Rightarrow> None | Some d \<Rightarrow> dict_get d log)"

definition put_log :: "string \<Rightarrow> string \<Rightarrow> logfile \<Rightarrow> tree \<Rightarrow> tree" where
  "put_log c log f t = (case dict_get t c of None \<Rightarrow> t | Some d \<Rightarrow> dict_set t c (dict_set d log f))"

definition del_log :: "string \<Rightarrow> string \<Rightarrow> tree \<Rightarrow> tree" where
  "del_log c log t = (case dict_get t c of None \<Rightarrow> t | Some d \<Rightarrow> dict_set t c (dict_del d log))"

text \<open>\<^verbatim>\<open>os.replace\<close> from pending to uploaded or failed.\<close>

definition move_uploaded :: "string \<Rightarrow> string \<Rightarrow> 'x world_scheme \<Rightarrow> unit result \<times> 'x world_scheme" where
  "move_uploaded c log w = (case look (pend w) c log of
       None \<Rightarrow> (Inl FileNotFoundError, w)
     | Some f \<Rightarrow> (if \<not> dict_has (upl w) c then (Inl FileNotFoundError, w)
         else (Inr (), w\<lparr>pend := del_log c log (pend w), upl := put_log c log f (upl w)\<rparr>)))"

definition move_failed :: "string \<Rightarrow> string \<Rightarrow> 'x world_scheme \<Rightarrow> unit result \<times> 'x world_scheme" where
  "move_failed c log w = (case look (pend w) c log of
       None \<Rightarrow> (Inl FileNotFoundError, w)
     | Some f \<Rightarrow> (if \<not> dict_has (fail w) c then (Inl FileNotFoundError, w)
         else (Inr (), w\<lparr>pend := del_log c log (pend w), fail := put_log c log f (fail w)\<rparr>)))"

text \<open>
  The loop under the lock, over the world and \<^verbatim>\<open>submitted\<close>. \<open>keep\<close> is the filter of the lazy listing,
  applied when a name is drawn from it. A cancellation leaves the loop, every other exception is
  recorded.
\<close>

fun submit_logs :: "'x world_scheme helper_ops \<Rightarrow> ('x world_scheme \<Rightarrow> string \<Rightarrow> bool) \<Rightarrow> string list
    \<Rightarrow> 'x world_scheme \<times> submitted \<Rightarrow> unit result \<times> 'x world_scheme \<times> submitted" where
  "submit_logs ops keep [] (w, acc) = (Inr (), w, acc)"
| "submit_logs ops keep (log # logs) (w, acc) =
     (if \<not> keep w log then submit_logs ops keep logs (w, acc)
      else if prefix ''.'' log then submit_logs ops keep logs (w, acc)
      else (case op_submit ops log w of
          (Inl e, w1) \<Rightarrow>
            (if is_Exception e then submit_logs ops keep logs (w1, dict_set acc log (Inl e))
             else (Inl e, w1, acc))
        | (Inr OK, w1) \<Rightarrow> (case move_uploaded (h_name (op_helper ops)) log w1 of
             (Inl e, w2) \<Rightarrow> submit_logs ops keep logs (w2, dict_set acc log (Inl e))
           | (Inr _, w2) \<Rightarrow> submit_logs ops keep logs (w2, dict_set acc log (Inr OK)))
        | (Inr PERMANENT_ERROR, w1) \<Rightarrow> (case move_failed (h_name (op_helper ops)) log w1 of
             (Inl e, w2) \<Rightarrow> submit_logs ops keep logs (w2, dict_set acc log (Inl e))
           | (Inr _, w2) \<Rightarrow> submit_logs ops keep logs (w2, dict_set acc log (Inr PERMANENT_ERROR)))
        | (Inr CLASS_ERROR, w1) \<Rightarrow> (Inr (), w1, dict_set acc log (Inr CLASS_ERROR))
        | (Inr TRANSIENT_ERROR, w1) \<Rightarrow> submit_logs ops keep logs (w1, dict_set acc log (Inr TRANSIENT_ERROR))))"

definition submit_category :: "'x world_scheme helper_ops \<Rightarrow> ('x world_scheme \<Rightarrow> string \<Rightarrow> bool) \<Rightarrow> string list
    \<Rightarrow> 'x world_scheme \<Rightarrow> submitted result \<times> 'x world_scheme" where
  "submit_category ops keep logs w =
     (case with_block (acquire_lock (op_helper ops)) (release_lock (op_helper ops))
         (submit_logs ops keep logs) (w, []) of
        (Inr _, w', acc) \<Rightarrow> (Inr acc, w')
      | (Inl e, w', acc) \<Rightarrow> (if is_Exception e then (Inr acc, w') else (Inl e, w')))"

section \<open>Collecting one helper's logs\<close>

definition collect_body :: "'x world_scheme helper_ops \<Rightarrow> 'x world_scheme \<times> unit
    \<Rightarrow> string list result \<times> 'x world_scheme \<times> unit" where
  "collect_body ops s = (case op_collect ops (fst s) of (r, w) \<Rightarrow> (r, w, ()))"

definition collect_category :: "'x world_scheme helper_ops \<Rightarrow> 'x world_scheme
    \<Rightarrow> string list result \<times> 'x world_scheme" where
  "collect_category ops w =
     (case with_block (acquire_lock (op_helper ops)) (release_lock (op_helper ops)) (collect_body ops) (w, ()) of
        (Inr logs, w', _) \<Rightarrow> (Inr logs, w')
      | (Inl e, w', _) \<Rightarrow> (if is_Exception e then (Inr [], w') else (Inl e, w')))"

section \<open>All helpers\<close>

text \<open>
  \<^verbatim>\<open>list_helpers\<close> and \<^verbatim>\<open>create_helper\<close>: the categories, with None where the module cannot be loaded.
\<close>

type_synonym 'w registry = "(string \<times> 'w helper_ops option) list"

text \<open>
  The selection loops: the helpers for which a task is created, and the exception that ends the loop
  early, if any. \<open>flag2\<close> is \<^verbatim>\<open>collect_enabled\<close> or \<^verbatim>\<open>submit_enabled\<close>.
\<close>

fun select_helpers :: "('x world_scheme \<Rightarrow> helper \<Rightarrow> bool result) \<Rightarrow> 'x world_scheme
    \<Rightarrow> 'x world_scheme registry \<Rightarrow> 'x world_scheme helper_ops list \<times> exn option" where
  "select_helpers flag2 w [] = ([], None)"
| "select_helpers flag2 w ((cat, None) # reg) = select_helpers flag2 w reg"
| "select_helpers flag2 w ((cat, Some ops) # reg) = (case enabled w (op_helper ops) of
       Inl e \<Rightarrow> ([], Some e)
     | Inr False \<Rightarrow> select_helpers flag2 w reg
     | Inr True \<Rightarrow> (case flag2 w (op_helper ops) of
         Inl e \<Rightarrow> ([], Some e)
       | Inr False \<Rightarrow> select_helpers flag2 w reg
       | Inr True \<Rightarrow> (case select_helpers flag2 w reg of (l, e) \<Rightarrow> (ops # l, e))))"

text \<open>Running the tasks: every one is run, whatever the others returned.\<close>

fun run_tasks :: "('a \<Rightarrow> 'w \<Rightarrow> 'r \<times> 'w) \<Rightarrow> 'a list \<Rightarrow> 'w \<Rightarrow> 'r list \<times> 'w" where
  "run_tasks f [] w = ([], w)"
| "run_tasks f (a # as) w = (case f a w of (r, w1) \<Rightarrow> (case run_tasks f as w1 of (rs, w2) \<Rightarrow> (r # rs, w2)))"

text \<open>\<^verbatim>\<open>task.result()\<close> of one task after the other; the first exception is raised.\<close>

fun gather :: "('b \<Rightarrow> 'a \<Rightarrow> 'b) \<Rightarrow> 'b \<Rightarrow> 'a result list \<Rightarrow> 'b result" where
  "gather f b [] = Inr b"
| "gather f b (Inl e # rs) = Inl e"
| "gather f b (Inr a # rs) = gather f (f b a) rs"

definition base_get :: "'x world_scheme \<Rightarrow> string \<Rightarrow> string \<Rightarrow> string option result" where
  "base_get w name dflt = sec_get (conf w) ''sls''
     [(''enable'', ''off''), (''base'', ''/var/lib/steamos-log-submitter'')] name (Some dflt)"

definition name_logs :: "string \<Rightarrow> string list \<Rightarrow> string list" where
  "name_logs n logs = map (\<lambda>log. n @ ''/'' @ log) logs"

definition collect_fn :: "'x world_scheme helper_ops \<Rightarrow> 'x world_scheme \<Rightarrow> string list result \<times> 'x world_scheme" where
  "collect_fn ops w = (case collect_category ops w of (r, w') \<Rightarrow>
     (map_sum id (name_logs (h_name (op_helper ops))) r, w'))"

text \<open>
  When a flag cannot be read the exception leaves \<^verbatim>\<open>collect\<close> (or \<^verbatim>\<open>submit\<close>) with the tasks created so far
  still scheduled: they run, and their results are dropped.
\<close>

definition collect :: "(string list result list \<Rightarrow> string list result list) \<Rightarrow> 'x world_scheme registry
    \<Rightarrow> 'x world_scheme \<Rightarrow> string list result \<times> 'x world_scheme" where
  "collect arrange reg w = (case base_get w ''collect'' ''on'' of
       Inl e \<Rightarrow> (Inl e, w)
     | Inr v \<Rightarrow> (if v \<noteq> Some ''on'' then (Inr [], w)
         else (case select_helpers collect_enabled w reg of (sel, err) \<Rightarrow>
           (case run_tasks collect_fn sel w of (rs, w') \<Rightarrow>
             (case err of
                Some e \<Rightarrow> (Inl e, w')
              | None \<Rightarrow> (gather (@) [] (arrange rs), w'))))))"

text \<open>
  \<^verbatim>\<open>submit_fn\<close> gets the listing made in the loop: its names, or None when the directory could not be
  read, in which case no task is created.
\<close>

definition submit_fn :: "'x world_scheme helper_ops \<times> string list \<Rightarrow> 'x world_scheme \<Rightarrow> submitted result \<times> 'x world_scheme"
where
  "submit_fn task w = (case task of (ops, names) \<Rightarrow>
     (case submit_category ops (\<lambda>w log. listed (pend w) (op_helper ops) log) names w of (r, w') \<Rightarrow>
        (map_sum id (map (\<lambda>(log, res). (h_name (op_helper ops) @ ''/'' @ log, res))) r, w')))"

definition submit_tasks :: "'x world_scheme \<Rightarrow> 'x world_scheme helper_ops list
    \<Rightarrow> ('x world_scheme helper_ops \<times> string list) list" where
  "submit_tasks w sel = List.map_filter (\<lambda>ops. map_option (Pair ops) (raw_listing (pend w) (op_helper ops))) sel"

definition submit :: "(nat \<Rightarrow> int option) \<Rightarrow> (submitted result list \<Rightarrow> submitted result list)
    \<Rightarrow> 'x world_scheme registry \<Rightarrow> 'x world_scheme \<Rightarrow> submitted result \<times> 'x world_scheme" where
  "submit probe arrange reg w = (case base_get w ''submit'' ''on'' of
       Inl e \<Rightarrow> (Inl e, w)
     | Inr v \<Rightarrow> (if v \<noteq> Some ''on'' then (Inr [], w)
         else if \<not> check_network probe then (Inr [], w)
         else (case select_helpers submit_enabled w reg of (sel, err) \<Rightarrow>
           (case run_tasks submit_fn (submit_tasks w sel) w of (rs, w') \<Rightarrow>
             (case err of
                Some e \<Rightarrow> (Inl e, w')
              | None \<Rightarrow> (gather dict_update [] (arrange rs), w'))))))"

definition trigger :: "(nat \<Rightarrow> int option) \<Rightarrow> (string list result list \<Rightarrow> string list result list)
    \<Rightarrow> (submitted result list \<Rightarrow> submitted result list) \<Rightarrow> 'x world_scheme registry
    \<Rightarrow> 'x world_scheme \<Rightarrow> (string list \<times> submitted) result \<times> 'x world_scheme" where
  "trigger probe arrc arrs reg w = (case base_get w ''enable'' ''off'' of
       Inl e \<Rightarrow> (Inl e, w)
     | Inr v \<Rightarrow> (if v \<noteq> Some ''on'' then (Inr ([], []), w)
         else (case collect arrc reg w of (rc, w1) \<Rightarrow>
           (case rc of Inl e \<Rightarrow> (if is_Exception e
                then (case submit probe arrs reg w1 of (rs, w2) \<Rightarrow>
                  (case rs of Inl e' \<Rightarrow> (if is_Exception e' then (Inr ([], []), w2) else (Inl e', w2))
                   | Inr sub \<Rightarrow> (Inr ([], sub), w2)))
                else (Inl e, w1))
            | Inr logs \<Rightarrow> (case submit probe arrs reg w1 of (rs, w2) \<Rightarrow>
                (case rs of Inl e' \<Rightarrow> (if is_Exception e' then (Inr (logs, []), w2) else (Inl e', w2))
                 | Inr sub \<Rightarrow> (Inr (logs, sub), w2)))))))"

definition startup :: "'x world_scheme registry \<Rightarrow> 'x world_scheme \<Rightarrow> unit result list \<times> 'x world_scheme" where
  "startup reg w = run_tasks op_startup (List.map_filter snd reg) w"

end
