(* ===== verification/Runner_Safety.thy ===== *)
theory Runner_Safety imports Runner begin

text \<open>
  What the runner guarantees about the logs and the locks: where each log is after a submission and
  why, that no log is lost, that the lock of a helper's directory is free again however the work
  ended, and that a category whose lock is held is left alone.
\<close>

section \<open>Moving logs\<close>

lemma look_put [simp]:
  "look (put_log c log f t) c' l = (if c' = c \<and> l = log \<and> dict_has t c then Some f else look t c' l)"
  by (auto simp: look_def put_log_def dict_has_def split: option.splits)

lemma look_del [simp]: "look (del_log c log t) c' l = (if c' = c \<and> l = log then None else look t c' l)"
  by (auto simp: look_def del_log_def split: option.splits)

lemma has_put [simp]: "dict_has (put_log c log f t) c' = dict_has t c'"
  by (auto simp: put_log_def dict_has_def split: option.splits)

lemma has_del [simp]: "dict_has (del_log c log t) c' = dict_has t c'"
  by (auto simp: del_log_def dict_has_def split: option.splits)

text \<open>What the helpers' own submit may do: anything but touch the trees and the locks.\<close>

definition tame :: "'x world_scheme helper_ops \<Rightarrow> bool" where
  "tame ops = (\<forall>log w. pend (snd (op_submit ops log w)) = pend w \<and> upl (snd (op_submit ops log w)) = upl w
     \<and> fail (snd (op_submit ops log w)) = fail w \<and> lockfs (snd (op_submit ops log w)) = lockfs w
     \<and> my_pid (snd (op_submit ops log w)) = my_pid w)"

definition same_logs :: "'x world_scheme \<Rightarrow> 'x world_scheme \<Rightarrow> bool" where
  "same_logs w w' = (pend w' = pend w \<and> upl w' = upl w \<and> fail w' = fail w)"

definition same_locks :: "'x world_scheme \<Rightarrow> 'x world_scheme \<Rightarrow> bool" where
  "same_locks w w' = (lockfs w' = lockfs w \<and> my_pid w' = my_pid w
     \<and> (\<forall>c. dict_has (pend w') c = dict_has (pend w) c))"

text \<open>
  Where the log of category \<open>c\<close> is after the step from \<open>w\<close> to \<open>w'\<close> that ended with \<open>res\<close> in the table.
\<close>

definition settled_log :: "string \<Rightarrow> string \<Rightarrow> hresult result option \<Rightarrow> 'x world_scheme \<Rightarrow> 'x world_scheme \<Rightarrow> bool" where
  "settled_log c log res w w' =
     (if res = Some (Inr OK) then look (pend w) c log \<noteq> None \<and> look (pend w') c log = None
        \<and> look (upl w') c log = look (pend w) c log \<and> look (fail w') c log = look (fail w) c log
      else if res = Some (Inr PERMANENT_ERROR) then look (pend w) c log \<noteq> None \<and> look (pend w') c log = None
        \<and> look (fail w') c log = look (pend w) c log \<and> look (upl w') c log = look (upl w) c log
      else look (pend w') c log = look (pend w) c log \<and> look (upl w') c log = look (upl w) c log
        \<and> look (fail w') c log = look (fail w) c log)"

definition elsewhere_same :: "string \<Rightarrow> string \<Rightarrow> 'x world_scheme \<Rightarrow> 'x world_scheme \<Rightarrow> bool" where
  "elsewhere_same c log w w' = (\<forall>c' l. (c', l) \<noteq> (c, log) \<longrightarrow> look (pend w') c' l = look (pend w) c' l
     \<and> look (upl w') c' l = look (upl w) c' l \<and> look (fail w') c' l = look (fail w) c' l)"

lemma settled_id: "settled_log c log None w w" "elsewhere_same c log w w" "same_locks w w"
  by (simp_all add: settled_log_def elsewhere_same_def same_locks_def)

lemma settled_idle:
  "res \<noteq> Some (Inr OK) \<Longrightarrow> res \<noteq> Some (Inr PERMANENT_ERROR) \<Longrightarrow> settled_log c log res w w"
  by (simp add: settled_log_def)

lemma move_uploaded_spec:
  assumes "move_uploaded c log w = (r, w')"
  shows "(case r of Inr _ \<Rightarrow> settled_log c log (Some (Inr OK)) w w' | Inl e \<Rightarrow> w' = w)
     \<and> elsewhere_same c log w w' \<and> same_locks w w'"
  using assms by (auto simp: move_uploaded_def settled_log_def elsewhere_same_def same_locks_def
      split: option.splits if_splits)

lemma move_failed_spec:
  assumes "move_failed c log w = (r, w')"
  shows "(case r of Inr _ \<Rightarrow> settled_log c log (Some (Inr PERMANENT_ERROR)) w w' | Inl e \<Rightarrow> w' = w)
     \<and> elsewhere_same c log w w' \<and> same_locks w w'"
  using assms by (auto simp: move_failed_def settled_log_def elsewhere_same_def same_locks_def
      split: option.splits if_splits)

section \<open>One log\<close>

text \<open>
  One turn of the loop, with whether the loop goes on: an equation for \<open>submit_logs\<close> that has the nine
  ways of a turn in one place.
\<close>

definition submit_one :: "'x world_scheme helper_ops \<Rightarrow> string \<Rightarrow> 'x world_scheme
    \<Rightarrow> (exn + bool) \<times> hresult result option \<times> 'x world_scheme" where
  "submit_one ops log w =
     (case op_submit ops log w of
        (Inl e, w1) \<Rightarrow> (if is_Exception e then (Inr True, Some (Inl e), w1) else (Inl e, None, w1))
      | (Inr OK, w1) \<Rightarrow> (case move_uploaded (h_name (op_helper ops)) log w1 of
           (Inl e, w2) \<Rightarrow> (Inr True, Some (Inl e), w2) | (Inr _, w2) \<Rightarrow> (Inr True, Some (Inr OK), w2))
      | (Inr PERMANENT_ERROR, w1) \<Rightarrow> (case move_failed (h_name (op_helper ops)) log w1 of
           (Inl e, w2) \<Rightarrow> (Inr True, Some (Inl e), w2)
         | (Inr _, w2) \<Rightarrow> (Inr True, Some (Inr PERMANENT_ERROR), w2))
      | (Inr CLASS_ERROR, w1) \<Rightarrow> (Inr False, Some (Inr CLASS_ERROR), w1)
      | (Inr TRANSIENT_ERROR, w1) \<Rightarrow> (Inr True, Some (Inr TRANSIENT_ERROR), w1))"

lemma submit_logs_Cons:
  "submit_logs ops keep (log # logs) (w, acc) =
     (if \<not> keep w log \<or> prefix ''.'' log then submit_logs ops keep logs (w, acc)
      else (case submit_one ops log w of
          (Inl e, _, w1) \<Rightarrow> (Inl e, w1, acc)
        | (Inr go, res, w1) \<Rightarrow>
           (let acc1 = (case res of None \<Rightarrow> acc | Some r \<Rightarrow> dict_set acc log r)
            in if go then submit_logs ops keep logs (w1, acc1) else (Inr (), w1, acc1))))"
  by (auto simp: submit_one_def Let_def split: prod.splits sum.splits hresult.splits)

declare submit_logs.simps(2) [simp del]

lemma submit_one_spec:
  assumes "tame ops" and "submit_one ops log w = (g, res, w')"
  shows "settled_log (h_name (op_helper ops)) log res w w' \<and> elsewhere_same (h_name (op_helper ops)) log w w'
     \<and> same_locks w w' \<and> (res = None \<longleftrightarrow> (\<exists>e. g = Inl e)) \<and> (g = Inr False \<longleftrightarrow> res = Some (Inr CLASS_ERROR))"
proof -
  obtain r w1 where s: "op_submit ops log w = (r, w1)" by fastforce
  then have t: "pend w1 = pend w" "upl w1 = upl w" "fail w1 = fail w" "lockfs w1 = lockfs w" "my_pid w1 = my_pid w"
    using assms(1) [unfolded tame_def, rule_format, of log w] by auto
  then have eq: "settled_log c l q w = settled_log c l q w1" "elsewhere_same c l w = elsewhere_same c l w1"
    "same_locks w = same_locks w1" for c l q
    by (simp_all add: fun_eq_iff settled_log_def elsewhere_same_def same_locks_def)
  show ?thesis
  proof (cases r)
    case (Inl e)
    with s assms(2) show ?thesis
      by (auto simp: submit_one_def eq settled_idle settled_id split: if_splits)
  next
    case (Inr h)
    show ?thesis
    proof (cases h)
      case OK
      obtain m w2 where m: "move_uploaded (h_name (op_helper ops)) log w1 = (m, w2)" by fastforce
      from move_uploaded_spec [OF m] m s assms(2) Inr OK show ?thesis
        by (auto simp: submit_one_def eq settled_idle split: sum.splits)
    next
      case PERMANENT_ERROR
      obtain m w2 where m: "move_failed (h_name (op_helper ops)) log w1 = (m, w2)" by fastforce
      from move_failed_spec [OF m] m s assms(2) Inr PERMANENT_ERROR show ?thesis
        by (auto simp: submit_one_def eq settled_idle split: sum.splits)
    next
      case TRANSIENT_ERROR
      with s assms(2) Inr show ?thesis by (auto simp: submit_one_def eq settled_idle settled_id)
    next
      case CLASS_ERROR
      with s assms(2) Inr show ?thesis by (auto simp: submit_one_def eq settled_idle settled_id)
    qed
  qed
qed

section \<open>All logs of a category\<close>

lemma settled_trans_later:
  "elsewhere_same c log w1 w2 \<Longrightarrow> settled_log c l res w w1 \<Longrightarrow> l \<noteq> log \<Longrightarrow> settled_log c l res w w2"
  by (auto simp: settled_log_def elsewhere_same_def split: if_splits)


text \<open>
  The whole loop. Of the listed names every one is settled by its own entry of the table, and after a
  class-wide error no later name has one.
\<close>

lemma elsewhere_trans:
  "elsewhere_same c log w w1 \<Longrightarrow> l \<noteq> log \<Longrightarrow> settled_log c l res w1 w2 \<Longrightarrow> settled_log c l res w w2"
  by (auto simp: settled_log_def elsewhere_same_def split: if_splits)

definition outside_same :: "string \<Rightarrow> string set \<Rightarrow> 'x world_scheme \<Rightarrow> 'x world_scheme \<Rightarrow> bool" where
  "outside_same c L w w' = (\<forall>c' l. \<not> (c' = c \<and> l \<in> L) \<longrightarrow> look (pend w') c' l = look (pend w) c' l
     \<and> look (upl w') c' l = look (upl w) c' l \<and> look (fail w') c' l = look (fail w) c' l)"

lemma outside_trans:
  "elsewhere_same c log w w1 \<Longrightarrow> outside_same c L w1 w2 \<Longrightarrow> outside_same c (insert log L) w w2"
  by (auto simp: elsewhere_same_def outside_same_def)

lemma outside_mono: "outside_same c L w w' \<Longrightarrow> L \<subseteq> M \<Longrightarrow> outside_same c M w w'"
  by (auto simp: outside_same_def)

lemma outside_settled: "outside_same c L w w' \<Longrightarrow> log \<notin> L \<Longrightarrow> settled_log c log None w w'"
  by (auto simp: outside_same_def settled_log_def)

lemma same_locks_trans: "same_locks w w1 \<Longrightarrow> same_locks w1 w2 \<Longrightarrow> same_locks w w2"
  by (auto simp: same_locks_def)

text \<open>Entries made for names that are no longer to come stay, and so do their settlements.\<close>

lemma submit_logs_spec:
  assumes "tame ops" and "distinct logs" and "\<forall>log \<in> set logs. dict_get acc log = None"
    and "submit_logs ops keep logs (w, acc) = (r, w', acc')" and "c = h_name (op_helper ops)"
  shows "same_locks w w' \<and> outside_same c (set logs) w w'
     \<and> (\<forall>log. log \<notin> set logs \<longrightarrow> dict_get acc' log = dict_get acc log)
     \<and> (\<forall>log \<in> set logs. settled_log c log (dict_get acc' log) w w')
     \<and> (\<forall>pre log post. logs = pre @ log # post \<longrightarrow> dict_get acc' log = Some (Inr CLASS_ERROR)
          \<longrightarrow> (\<forall>l \<in> set post. dict_get acc' l = None))
     \<and> (case r of Inr _ \<Rightarrow> True | Inl e \<Rightarrow> \<not> is_Exception e)"
  using assms
proof (induction logs arbitrary: w acc)
  case Nil
  then show ?case by (auto simp: settled_id outside_same_def)
next
  case (Cons log logs)
  note IH = Cons.IH [OF Cons.prems(1) _ _ _ Cons.prems(5)]
  have dl: "distinct logs" "log \<notin> set logs" using Cons.prems(2) by auto
  show ?case
  proof (cases "\<not> keep w log \<or> prefix ''.'' log")
    case True
    then have e: "submit_logs ops keep logs (w, acc) = (r, w', acc')"
      using Cons.prems(4) by (simp only: submit_logs_Cons if_True)
    from Cons.prems(3) have fresh: "\<forall>l \<in> set logs. dict_get acc l = None" "dict_get acc log = None" by auto
    note ih = IH [OF dl(1) fresh(1) e]
    then have "dict_get acc' log = None" using dl(2) fresh(2) by auto
    with ih dl show ?thesis
      by (auto simp: Cons_eq_append_conv outside_settled intro: outside_mono)
  next
    case False
    obtain g res w1 where one: "submit_one ops log w = (g, res, w1)" by (cases "submit_one ops log w") auto
    note o = submit_one_spec [OF Cons.prems(1) one, folded Cons.prems(5)]
    have eq: "(case g of Inl e \<Rightarrow> (Inl e, w1, acc)
        | Inr go \<Rightarrow> (let acc1 = (case res of None \<Rightarrow> acc | Some r \<Rightarrow> dict_set acc log r)
            in if go then submit_logs ops keep logs (w1, acc1) else (Inr (), w1, acc1))) = (r, w', acc')"
      using Cons.prems(4) False one by (cases g) (simp_all add: submit_logs_Cons)
    show ?thesis
    proof (cases g)
      case (Inl e)
      with eq o have res: "r = Inl e" "w' = w1" "acc' = acc" "res = None" by auto
      have "\<not> is_Exception e" using one Inl
        by (auto simp: submit_one_def split: prod.splits sum.splits hresult.splits if_splits)
      moreover have "outside_same c (set (log # logs)) w w'"
        using o res by (auto simp: elsewhere_same_def outside_same_def)
      moreover have "settled_log c l (dict_get acc' l) w w'" if "l \<in> set (log # logs)" for l
        using that o res Cons.prems(3) settled_trans_later [of c log w w1] settled_id(1)
        by (cases "l = log") (auto simp: elsewhere_same_def settled_log_def)
      moreover have "dict_get acc' l \<noteq> Some (Inr CLASS_ERROR)" if "log # logs = pre @ l # post" for pre l post
        using Cons.prems(3) res that by (metis in_set_conv_decomp option.distinct(1))
      then have "\<forall>pre l post. log # logs = pre @ l # post \<longrightarrow> dict_get acc' l = Some (Inr CLASS_ERROR)
          \<longrightarrow> (\<forall>l \<in> set post. dict_get acc' l = None)" by blast
      ultimately show ?thesis using o res by simp
    next
      case (Inr go)
      then obtain rr where rr: "res = Some rr" using o by (cases res) auto
      define acc1 where "acc1 = dict_set acc log rr"
      have a1: "dict_get acc1 log = Some rr" "\<And>l. l \<noteq> log \<Longrightarrow> dict_get acc1 l = dict_get acc l"
        by (simp_all add: acc1_def)
      have fresh: "\<forall>l \<in> set logs. dict_get acc1 l = None"
      proof
        fix l assume "l \<in> set logs"
        with Cons.prems(3) dl(2) a1(2) [of l] show "dict_get acc1 l = None" by (cases "l = log") auto
      qed
      show ?thesis
      proof (cases go)
        case True
        with eq Inr rr have e: "submit_logs ops keep logs (w1, acc1) = (r, w', acc')"
          by (simp add: acc1_def)
        note ih = IH [OF dl(1) fresh e]
        have al: "dict_get acc' log = Some rr" using ih dl(2) a1 by auto
        have nc: "rr \<noteq> Inr CLASS_ERROR" using o Inr True rr by auto
        have sl: "settled_log c log (dict_get acc' log) w w'"
          using o rr al ih dl(2) by (auto simp: outside_same_def settled_log_def split: if_splits)
        have ls: "settled_log c l (dict_get acc' l) w w'" if "l \<in> set logs" for l
          using that ih o dl(2) elsewhere_trans by metis
        have "same_locks w w'" using o ih same_locks_trans by blast
        moreover have "outside_same c (set (log # logs)) w w'" using o ih outside_trans by fastforce
        moreover have "\<forall>l. l \<notin> set (log # logs) \<longrightarrow> dict_get acc' l = dict_get acc l" using ih a1 by auto
        moreover have "\<forall>pre l post. log # logs = pre @ l # post \<longrightarrow> dict_get acc' l = Some (Inr CLASS_ERROR)
            \<longrightarrow> (\<forall>l \<in> set post. dict_get acc' l = None)"
          using ih al nc by (auto simp: Cons_eq_append_conv)
        ultimately show ?thesis using sl ls ih by auto
      next
        case False
        with eq Inr rr have res: "r = Inr ()" "w' = w1" "acc' = acc1" by (auto simp: acc1_def)
        have later: "dict_get acc' l = None" if "l \<in> set logs" for l
          using that fresh res by auto
        have os: "outside_same c (set (log # logs)) w w'"
          using o res by (auto simp: elsewhere_same_def outside_same_def)
        have ls: "settled_log c l (dict_get acc' l) w w'" if "l \<in> set logs" for l
        proof -
          have "l \<noteq> log" using that dl(2) by auto
          then have "settled_log c l None w w1" using o by (auto simp: elsewhere_same_def settled_log_def)
          with later [OF that] res show ?thesis by simp
        qed
        have "settled_log c log (dict_get acc' log) w w'" using o res a1 rr by simp
        with os ls later o res a1(2) show ?thesis by (auto simp: Cons_eq_append_conv)
      qed
    qed
  qed
qed


lemma submit_logs_locks:
  "tame ops \<Longrightarrow> submit_logs ops keep logs (w, acc) = (r, w', acc') \<Longrightarrow> same_locks w w'"
proof (induction logs arbitrary: w acc)
  case Nil
  then show ?case by (simp add: settled_id)
next
  case (Cons log logs)
  show ?case
  proof (cases "\<not> keep w log \<or> prefix ''.'' log")
    case True
    with Cons show ?thesis by (simp add: submit_logs_Cons)
  next
    case False
    obtain g res w1 where one: "submit_one ops log w = (g, res, w1)" by (cases "submit_one ops log w") auto
    note o = submit_one_spec [OF Cons.prems(1) one]
    from Cons.prems(2) one False have "w' = w1 \<or> (\<exists>acc1. submit_logs ops keep logs (w1, acc1) = (r, w', acc'))"
      by (auto simp: submit_logs_Cons Let_def split: sum.splits if_splits)
    with Cons.IH Cons.prems(1) o show ?thesis using same_locks_trans by blast
  qed
qed

lemma holds_lock_same: "same_locks w w' \<Longrightarrow> holds_lock h fd (w, a) \<Longrightarrow> holds_lock h fd (w', a')"
  by (simp add: holds_lock_def same_locks_def)

lemma submit_logs_holds:
  assumes "tame ops" and "holds_lock h fd s"
  shows "holds_lock h fd (snd (submit_logs ops keep logs s))"
proof -
  obtain w acc r w' acc' where s: "s = (w, acc)" "submit_logs ops keep logs (w, acc) = (r, w', acc')"
    by (metis prod.collapse)
  with submit_logs_locks [OF assms(1) s(2)] holds_lock_same assms(2) show ?thesis by fastforce
qed

lemma rest_eq:
  assumes "w1\<lparr>lockfs := k\<rparr> = w\<lparr>lockfs := k\<rparr>"
  shows "pend w1 = pend w \<and> upl w1 = upl w \<and> fail w1 = fail w"
  using arg_cong [OF assms, of pend] arg_cong [OF assms, of upl] arg_cong [OF assms, of fail] by simp

section \<open>One category\<close>

text \<open>What a table says of a list of logs: each is settled by its entry, and a class-wide error ends it.\<close>

definition settles :: "string \<Rightarrow> string list \<Rightarrow> submitted \<Rightarrow> 'x world_scheme \<Rightarrow> 'x world_scheme \<Rightarrow> bool" where
  "settles c logs sub w w' = (outside_same c (set logs) w w'
     \<and> (\<forall>log \<in> set logs. settled_log c log (dict_get sub log) w w')
     \<and> (\<forall>pre log post. logs = pre @ log # post \<longrightarrow> dict_get sub log = Some (Inr CLASS_ERROR)
          \<longrightarrow> (\<forall>l \<in> set post. dict_get sub l = None)))"

lemma settles_eq:
  "pend w1 = pend w \<and> upl w1 = upl w \<and> fail w1 = fail w \<Longrightarrow>
   pend w3 = pend w2 \<and> upl w3 = upl w2 \<and> fail w3 = fail w2 \<Longrightarrow>
   settles c logs sub w1 w2 \<Longrightarrow> settles c logs sub w w3"
  by (elim conjE) (simp only: settles_def settled_log_def outside_same_def)

lemma submit_category_spec:
  assumes "tame ops" and "distinct logs" and "submit_category ops keep logs w = (r, w')"
    and "c = h_name (op_helper ops)"
  shows "(lock_busy (op_helper ops) w \<and> r = Inr [] \<and> w' = w)
     \<or> (\<not> lock_busy (op_helper ops) w \<and> \<not> lock_busy (op_helper ops) w'
        \<and> (\<exists>sub. settles c logs sub w w' \<and> (r = Inr sub \<or> (\<exists>e. r = Inl e \<and> \<not> is_Exception e))))"
proof (cases "lock_busy (op_helper ops) w")
  case True
  have "\<exists>e. with_block (acquire_lock (op_helper ops)) (release_lock (op_helper ops))
      (submit_logs ops keep logs) (w, []) = (Inl e, w, [] :: submitted)"
    using True by (intro helper_lock.busy_skips) simp
  moreover have "is_Exception e" if "acquire_lock (op_helper ops) (w, [] :: submitted) = (Inl e, s)" for e s
    using that lock_none [of "lockfs w" "lock_path (op_helper ops)" "my_pid w"]
    by (auto simp: acquire_lock_def is_Exception_def split: if_splits)
  moreover obtain e0 s0 where "acquire_lock (op_helper ops) (w, [] :: submitted) = (Inl e0, s0)"
    using True helper_lock.acquire_holds [of "op_helper ops" "(w, [] :: submitted)"]
    by (metis fst_conv old.prod.exhaust old.sum.exhaust)
  ultimately show ?thesis using True assms(3) by (auto simp: submit_category_def with_block_def)
next
  case False
  from helper_lock.free_runs [of "op_helper ops" "(w, [])" "submit_logs ops keep logs"] False
    submit_logs_holds [OF assms(1)]
  obtain fd s1 s2 s3 where a: "acquire_lock (op_helper ops) (w, []) = (Inr fd, s1)"
    "((fst s1)\<lparr>lockfs := no_locks\<rparr>, snd s1) = (w\<lparr>lockfs := no_locks\<rparr>, [])"
    and b: "submit_logs ops keep logs s1 = (fst (submit_logs ops keep logs s1), s2)"
    and c: "((fst s3)\<lparr>lockfs := no_locks\<rparr>, snd s3) = ((fst s2)\<lparr>lockfs := no_locks\<rparr>, snd s2)"
      "\<not> lock_busy (op_helper ops) (fst s3)"
    and d: "with_block (acquire_lock (op_helper ops)) (release_lock (op_helper ops)) (submit_logs ops keep logs) (w, [])
        = (fst (submit_logs ops keep logs s1), s3)"
    by auto
  obtain w1 where s1: "s1 = (w1, [])" using a(2) by (metis prod.collapse snd_conv)
  obtain w2 acc2 where s2: "s2 = (w2, acc2)" by fastforce
  obtain w3 where s3: "s3 = (w3, acc2)" using c(1) s2 by (metis prod.collapse snd_conv)
  obtain r1 where r1: "submit_logs ops keep logs (w1, []) = (r1, w2, acc2)" using b s1 s2 by (metis prod.collapse)
  have e1: "pend w1 = pend w \<and> upl w1 = upl w \<and> fail w1 = fail w" using a(2) s1 by (intro rest_eq) simp
  have e3: "pend w3 = pend w2 \<and> upl w3 = upl w2 \<and> fail w3 = fail w2" using c(1) s2 s3 by (intro rest_eq) simp
  have sp: "settles c logs acc2 w1 w2 \<and> (case r1 of Inr _ \<Rightarrow> True | Inl e \<Rightarrow> \<not> is_Exception e)"
    using submit_logs_spec [OF assms(1,2) _ r1 assms(4)] by (auto simp: settles_def)
  then have st: "settles c logs acc2 w w3" using e1 e3 settles_eq by blast
  have "submit_category ops keep logs w = (case r1 of Inr _ \<Rightarrow> (Inr acc2, w3)
      | Inl e \<Rightarrow> if is_Exception e then (Inr acc2, w3) else (Inl e, w3))"
    using d s1 r1 s3 by (simp add: submit_category_def split: sum.splits)
  with assms(3) sp st c(2) s3 False show ?thesis by (auto split: sum.splits)
qed

text \<open>C10. When the lock of the helper's directory cannot be taken, nothing is submitted and nothing changes.
  Otherwise the lock is free again afterwards, even when a task was cancelled or the helper raised;
  every listed log whose submission returned OK has moved from pending to uploaded, every one that
  returned PERMANENT_ERROR to failed, with its contents, every other one is where it was; and once
  CLASS_ERROR came up no further log was tried.\<close>

theorem submit_category_settles:
  assumes "tame ops" and "distinct logs"
  shows "case submit_category ops keep logs w of (r, w') \<Rightarrow>
     if lock_busy (op_helper ops) w then r = Inr [] \<and> w' = w
     else \<not> lock_busy (op_helper ops) w'
       \<and> (\<exists>sub. settles (h_name (op_helper ops)) logs sub w w' \<and> (r = Inr sub \<or> (\<exists>e. r = Inl e \<and> \<not> is_Exception e)))"
proof -
  obtain r w' where "submit_category ops keep logs w = (r, w')" by fastforce
  from submit_category_spec [OF assms this refl] this show ?thesis by auto
qed

text \<open>A helper that submits by reading the text of the log.\<close>

definition text_ops :: "world helper_ops" where
  "text_ops = \<lparr>op_helper = gpu_helper, op_collect = (\<lambda>w. (Inr [], w)),
     op_submit = (\<lambda>log w. case look (pend w) ''gpu'' log of None \<Rightarrow> (Inl FileNotFoundError, w)
        | Some f \<Rightarrow> (Inr (if lf_text f = ''a'' then OK else PERMANENT_ERROR), w)),
     op_startup = (\<lambda>w. (Inr (), w))\<rparr>"

lemma tame_text_ops: "tame text_ops"
  by (auto simp: tame_def text_ops_def split: option.splits)

theorem submit_category_settles_witness:
  "look (upl (snd (submit_category text_ops (\<lambda>w l. True) [''a.zip'', ''b.zip''] gpu_world))) ''gpu'' ''a.zip''
     = look (pend gpu_world) ''gpu'' ''a.zip''
   \<and> look (fail (snd (submit_category text_ops (\<lambda>w l. True) [''a.zip'', ''b.zip''] gpu_world))) ''gpu'' ''b.zip''
     = look (pend gpu_world) ''gpu'' ''b.zip''"
proof -
  let ?logs = "[''a.zip'', ''b.zip'']"
  obtain r w' where s: "submit_category text_ops (\<lambda>w l. True) ?logs gpu_world = (r, w')" by fastforce
  have d: "distinct ?logs" by simp
  have f: "\<not> lock_busy (op_helper text_ops) gpu_world" by code_simp
  have "fst (submit_category text_ops (\<lambda>w l. True) ?logs gpu_world)
      = Inr [(''a.zip'', Inr OK), (''b.zip'', Inr PERMANENT_ERROR)]"
    by code_simp
  then have r: "r = Inr [(''a.zip'', Inr OK), (''b.zip'', Inr PERMANENT_ERROR)]" by (simp add: s)
  from submit_category_settles [OF tame_text_ops d, where keep = "\<lambda>w l. True" and w = gpu_world] s f
  have "settles (h_name (op_helper text_ops)) ?logs [(''a.zip'', Inr OK), (''b.zip'', Inr PERMANENT_ERROR)] gpu_world w'"
    by (auto simp: r)
  moreover have "h_name (op_helper text_ops) = ''gpu''" by code_simp
  ultimately show ?thesis by (simp add: s settles_def settled_log_def)
qed

end
