(* ===== verification/Runner_All.thy ===== *)
theory Runner_All imports Runner_Safety begin

text \<open>
  The passes over all helpers: submitting never loses a log, collecting under a held lock does nothing,
  and a trigger runs both passes unless it is disabled or cancelled.
\<close>

section \<open>Submission of all helpers\<close>

text \<open>The text \<open>f\<close> of a log is still there: pending, or moved on under the same name.\<close>

definition kept :: "string \<Rightarrow> string \<Rightarrow> logfile \<Rightarrow> 'x world_scheme \<Rightarrow> bool" where
  "kept c log f w = (look (pend w) c log = Some f
     \<or> (look (pend w) c log = None \<and> (look (upl w) c log = Some f \<or> look (fail w) c log = Some f)))"

lemma settled_kept: "settled_log c log res w w' \<Longrightarrow> kept c log f w \<Longrightarrow> kept c log f w'"
  by (auto simp: settled_log_def kept_def split: if_splits)

lemma settles_kept:
  assumes "settles c logs sub w w'" and "kept c' log f w"
  shows "kept c' log f w'"
proof (cases "c' = c \<and> log \<in> set logs")
  case True
  then have "settled_log c' log (dict_get sub log) w w'" using assms(1) by (simp add: settles_def)
  then show ?thesis using assms(2) by (rule settled_kept)
next
  case False
  with assms show ?thesis by (auto simp: settles_def outside_same_def kept_def)
qed

lemma submit_fn_kept:
  assumes "tame ops" and "distinct names" and "kept c log f w" and "submit_fn (ops, names) w = (r, w')"
  shows "kept c log f w'"
proof -
  obtain r1 where "submit_category ops (\<lambda>w log. listed (pend w) (op_helper ops) log) names w = (r1, w')"
    using assms(4) by (auto simp: submit_fn_def split: prod.splits)
  from submit_category_spec [OF assms(1,2) this refl] settles_kept assms(3) show ?thesis by blast
qed

lemma run_submit_kept:
  "run_tasks submit_fn tasks w = (rs, w') \<Longrightarrow> \<forall>(ops, names) \<in> set tasks. tame ops \<and> distinct names \<Longrightarrow>
     kept c log f w \<Longrightarrow> kept c log f w'"
proof (induction tasks arbitrary: w rs)
  case Nil
  then show ?case by simp
next
  case (Cons task tasks)
  obtain ops names where t: "task = (ops, names)" by fastforce
  obtain r w1 where s: "submit_fn (ops, names) w = (r, w1)" by fastforce
  from Cons.prems t submit_fn_kept [OF _ _ _ s] have "kept c log f w1" by auto
  with Cons s t show ?case by (auto split: prod.splits)
qed

lemma select_helpers_in:
  "ops \<in> set (fst (select_helpers g w reg)) \<Longrightarrow> \<exists>cat. (cat, Some ops) \<in> set reg"
  by (induction g w reg rule: select_helpers.induct) (auto split: sum.splits bool.splits prod.splits)

definition wf_tree :: "tree \<Rightarrow> bool" where
  "wf_tree t = list_all (\<lambda>(c, d). distinct (dict_keys d)) t"

lemma wf_tree_get: "wf_tree t \<Longrightarrow> dict_get t c = Some d \<Longrightarrow> distinct (dict_keys d)"
  by (auto simp: wf_tree_def list_all_iff dest: dict_get_in)

lemma submit_kept:
  assumes "\<forall>(cat, m) \<in> set reg. case m of None \<Rightarrow> True | Some ops \<Rightarrow> tame ops" and "wf_tree (pend w)"
    and "submit probe arrange reg w = (r, w')" and "kept c log f w"
  shows "kept c log f w'"
proof (cases "w' = w")
  case True
  with assms(4) show ?thesis by simp
next
  case False
  obtain sel err where sel: "select_helpers submit_enabled w reg = (sel, err)" by fastforce
  with assms(3) False obtain rs where r: "run_tasks submit_fn (submit_tasks w sel) w = (rs, w')"
    by (auto simp: submit_def split: sum.splits if_splits prod.splits option.splits)
  have "tame ops \<and> distinct names" if t: "(ops, names) \<in> set (submit_tasks w sel)" for ops names
  proof
    from t have o: "ops \<in> set sel" "raw_listing (pend w) (op_helper ops) = Some names"
      by (auto simp: submit_tasks_def set_map_filter)
    from o(1) sel select_helpers_in [of ops submit_enabled w reg] assms(1) show "tame ops" by fastforce
    from o(2) wf_tree_get [OF assms(2)] show "distinct names" by (auto simp: raw_listing_def)
  qed
  then show ?thesis using run_submit_kept [OF r _ assms(4)] by auto
qed

text \<open>C3. No log is lost by a submission pass over all helpers, whichever of them are enabled, in whatever
  order their results come in, and whatever they return, raise or are cancelled by: every log that
  was pending is afterwards pending, uploaded or failed under the same name with the same contents,
  and an uploaded or failed log without a pending namesake stays.\<close>

theorem submit_keeps_every_log:
  assumes "\<forall>(cat, m) \<in> set reg. case m of None \<Rightarrow> True | Some ops \<Rightarrow> tame ops" and "wf_tree (pend w)"
    and "submit probe arrange reg w = (r, w')" and "kept c log f w"
  shows "kept c log f w'"
  using assms by (rule submit_kept)

definition run_registry :: "world registry" where
  "run_registry = [(''gpu'', Some text_ops), (''gone'', None)]"

theorem submit_keeps_every_log_witness:
  "\<exists>r w'. submit (\<lambda>k. Some 204) (\<lambda>rs. rs) run_registry gpu_world = (r, w')
     \<and> (\<forall>f. look (pend gpu_world) ''gpu'' ''b.zip'' = Some f \<longrightarrow> kept ''gpu'' ''b.zip'' f w')"
proof -
  obtain r w' where s: "submit (\<lambda>k. Some 204) (\<lambda>rs. rs) run_registry gpu_world = (r, w')" by fastforce
  have a: "\<forall>(cat, m) \<in> set run_registry. case m of None \<Rightarrow> True | Some ops \<Rightarrow> tame ops"
    by (simp add: run_registry_def tame_text_ops)
  have "wf_tree (pend gpu_world)" by code_simp
  from submit_keeps_every_log [OF a this s] s show ?thesis by (auto simp: kept_def)
qed

section \<open>Collection\<close>

text \<open>When another process holds the lock of the directory, or the directory is missing, collecting
  reports nothing and changes nothing. Otherwise the helper's collect is run once under the lock,
  which is free again afterwards; its logs are reported, and an exception of it, other than a
  cancellation, is turned into an empty report. (The world called locked has the lock taken.)\<close>

theorem collect_category_spec:
  assumes "\<forall>fd w1. holds_lock (op_helper ops) fd (w1, ()) \<longrightarrow> holds_lock (op_helper ops) fd (snd (op_collect ops w1), ())"
  shows "if lock_busy (op_helper ops) w then collect_category ops w = (Inr [], w)
     else \<exists>locked. locked\<lparr>lockfs := no_locks\<rparr> = w\<lparr>lockfs := no_locks\<rparr>
       \<and> \<not> lock_busy (op_helper ops) (snd (collect_category ops w))
       \<and> (snd (collect_category ops w))\<lparr>lockfs := no_locks\<rparr> = (snd (op_collect ops locked))\<lparr>lockfs := no_locks\<rparr>
       \<and> fst (collect_category ops w) = (case fst (op_collect ops locked) of
            Inr logs \<Rightarrow> Inr logs | Inl e \<Rightarrow> if is_Exception e then Inr [] else Inl e)"
proof (cases "lock_busy (op_helper ops) w")
  case True
  then obtain e where b: "with_block (acquire_lock (op_helper ops)) (release_lock (op_helper ops))
      (collect_body ops) (w, ()) = (Inl e, w, ())"
    using helper_lock.busy_skips [of "op_helper ops" "(w, ())"] by auto
  obtain e' s' where "acquire_lock (op_helper ops) (w, ()) = (Inl e', s')"
    using True helper_lock.acquire_holds [of "op_helper ops" "(w, ())"]
    by (metis fst_conv old.prod.exhaust old.sum.exhaust)
  moreover from this have "is_Exception e'"
    using lock_none [of "lockfs w" "lock_path (op_helper ops)" "my_pid w"]
    by (auto simp: acquire_lock_def is_Exception_def split: if_splits)
  ultimately have "is_Exception e" using b by (auto simp: with_block_def)
  with True b show ?thesis by (simp add: collect_category_def)
next
  case False
  have h: "holds_lock (op_helper ops) fd (snd (collect_body ops s1))"
    if "holds_lock (op_helper ops) fd s1" for fd s1
  proof -
    obtain w1 where s1: "s1 = (w1, ())" by (metis old.prod.exhaust old.unit.exhaust)
    have "snd (collect_body ops s1) = (snd (op_collect ops w1), ())"
      by (simp add: s1 collect_body_def split: prod.splits)
    with that s1 assms show ?thesis by simp
  qed
  from helper_lock.free_runs [of "op_helper ops" "(w, ())" "collect_body ops"] False h
  obtain fd s1 s2 s3 where a: "((fst s1)\<lparr>lockfs := no_locks\<rparr>, snd s1) = (w\<lparr>lockfs := no_locks\<rparr>, ())"
    and b: "collect_body ops s1 = (fst (collect_body ops s1), s2)"
    and c: "((fst s3)\<lparr>lockfs := no_locks\<rparr>, snd s3) = ((fst s2)\<lparr>lockfs := no_locks\<rparr>, snd s2)"
      "\<not> lock_busy (op_helper ops) (fst s3)"
    and d: "with_block (acquire_lock (op_helper ops)) (release_lock (op_helper ops)) (collect_body ops) (w, ())
        = (fst (collect_body ops s1), s3)"
    by auto
  have "fst (collect_body ops s1) = fst (op_collect ops (fst s1))" "fst s2 = snd (op_collect ops (fst s1))"
    using b by (auto simp: collect_body_def split: prod.splits)
  moreover have "collect_category ops w = (case fst (collect_body ops s1) of Inr logs \<Rightarrow> (Inr logs, fst s3)
      | Inl e \<Rightarrow> if is_Exception e then (Inr [], fst s3) else (Inl e, fst s3))"
    using d by (auto simp: collect_category_def split: sum.splits prod.splits)
  ultimately show ?thesis using False a c
    by (auto intro!: exI [of _ "fst s1"] split: sum.splits)
qed

theorem collect_category_spec_witness:
  "fst (collect_category text_ops gpu_world) = Inr []
   \<and> \<not> lock_busy (op_helper text_ops) (snd (collect_category text_ops gpu_world))"
proof -
  have "\<forall>fd w1. holds_lock (op_helper text_ops) fd (w1, ())
      \<longrightarrow> holds_lock (op_helper text_ops) fd (snd (op_collect text_ops w1), ())"
    by (simp add: text_ops_def)
  from collect_category_spec [OF this, of gpu_world]
  have "fst (collect_category text_ops gpu_world) = Inr [] \<and> (lock_busy (op_helper text_ops) gpu_world
      \<or> \<not> lock_busy (op_helper text_ops) (snd (collect_category text_ops gpu_world)))"
    by (auto simp: text_ops_def split: if_splits)
  moreover have "\<not> lock_busy (op_helper text_ops) gpu_world" by code_simp
  ultimately show ?thesis by simp
qed

section \<open>Trigger\<close>

text \<open>A disabled trigger does nothing. An enabled one runs the collection and then the submission, even
  if the collection failed, each failure costing only its own part of the result; the only
  exception that leaves it is a cancellation.\<close>

theorem trigger_spec:
  assumes "base_get w ''enable'' ''off'' = Inr v"
  shows "if v \<noteq> Some ''on'' then trigger probe arrc arrs reg w = (Inr ([], []), w)
     else case collect arrc reg w of (rc, w1) \<Rightarrow> case submit probe arrs reg w1 of (rs, w2) \<Rightarrow>
       (if rc = Inl CancelledError then trigger probe arrc arrs reg w = (Inl CancelledError, w1)
        else if rs = Inl CancelledError then trigger probe arrc arrs reg w = (Inl CancelledError, w2)
        else trigger probe arrc arrs reg w
          = (Inr (case rc of Inr logs \<Rightarrow> logs | Inl _ \<Rightarrow> [], case rs of Inr sub \<Rightarrow> sub | Inl _ \<Rightarrow> []), w2))"
  using assms by (auto simp: trigger_def is_Exception_def split: sum.splits prod.splits)

theorem trigger_spec_witness:
  "trigger (\<lambda>k. None) (\<lambda>rs. rs) (\<lambda>rs. rs) run_registry gpu_world = (Inr ([], []), gpu_world)"
proof -
  have "base_get gpu_world ''enable'' ''off'' = Inr (Some ''off'')" by code_simp
  from trigger_spec [OF this, of "\<lambda>k. None" "\<lambda>rs. rs" "\<lambda>rs. rs" run_registry] show ?thesis by simp
qed

end
