(* ===== verification/Util_Names.thy ===== *)
theory Util_Names imports Py_Strings begin

text \<open>
  \<^verbatim>\<open>util.camel_case\<close> and \<^verbatim>\<open>util.snake_case\<close>, which translate helper names to the names of D-Bus
  objects and back.
\<close>

section \<open>Definitions\<close>

text \<open>\<^verbatim>\<open>re.sub('(^|_)([a-z])?', ...)\<close> after the match at the start of the text.\<close>

fun camel_rest :: "string \<Rightarrow> string" where
  "camel_rest [] = []"
| "camel_rest (c # cs) =
     (if c = CHR ''_''
      then (case cs of
          [] \<Rightarrow> []
        | d # ds \<Rightarrow> (if is_lower d then upper_char d # camel_rest ds else camel_rest cs))
      else c # camel_rest cs)"

definition camel_case :: "string \<Rightarrow> string" where
  "camel_case text = (case text of
       [] \<Rightarrow> []
     | c # cs \<Rightarrow> (if is_lower c then upper_char c # camel_rest cs else camel_rest text))"

text \<open>
  The loop of \<^verbatim>\<open>snake_case\<close>; \<open>acc\<close> is \<^verbatim>\<open>snaked\<close> reversed. The inner loop looks for the last letter.
\<close>

definition last_alpha_lower :: "string \<Rightarrow> bool" where
  "last_alpha_lower acc = (case dropWhile (\<lambda>c. \<not> is_alpha c) acc of [] \<Rightarrow> False | c # _ \<Rightarrow> is_lower c)"

fun snake_loop :: "bool \<Rightarrow> string \<Rightarrow> string \<Rightarrow> string" where
  "snake_loop first acc [] = acc"
| "snake_loop first acc (c # cs) =
     (if is_digit c \<or> is_lower c then snake_loop False (c # acc) cs
      else if first then snake_loop False (c # acc) cs
      else (let acc1 = (if last_alpha_lower acc then CHR ''_'' # acc else acc);
                acc2 = (if acc1 \<noteq> [] \<and> is_alpha (hd acc1) \<and> cs \<noteq> [] \<and> is_lower (hd cs)
                        then CHR ''_'' # acc1 else acc1)
            in snake_loop False (c # acc2) cs))"

definition snake_case :: "string \<Rightarrow> string" where
  "snake_case text = py_lower (rev (snake_loop True [] text))"

section \<open>Round trip\<close>

text \<open>
  A word: two lower case letters, then lower case letters and digits. Every helper module's name is
  such words joined by underscores.
\<close>

definition name_word :: "string \<Rightarrow> bool" where
  "name_word w = (case w of a # b # r \<Rightarrow> is_lower a \<and> is_lower b \<and> list_all (\<lambda>c. is_lower c \<or> is_digit c) r | _ \<Rightarrow> False)"

lemma name_wordE:
  assumes "name_word w"
  obtains a b r where "w = a # b # r" "is_lower a" "is_lower b" "list_all (\<lambda>c. is_lower c \<or> is_digit c) r"
  using assms by (auto simp: name_word_def split: list.splits)

definition capital :: "string \<Rightarrow> string" where
  "capital w = (case w of [] \<Rightarrow> [] | c # r \<Rightarrow> upper_char c # r)"

lemma camel_rest_plain: "list_all (\<lambda>c. is_lower c \<or> is_digit c) r \<Longrightarrow> camel_rest (r @ s) = r @ camel_rest s"
  by (induction r) (auto simp: is_lower_def is_digit_def code_def)

lemma lower_not_underscore: "is_lower c \<Longrightarrow> c \<noteq> CHR ''_''"
  by (auto simp: is_lower_def code_def)

lemma camel_rest_word:
  assumes "name_word w"
  shows "camel_rest (CHR ''_'' # w @ s) = capital w @ camel_rest s"
proof -
  from assms obtain a b r where w: "w = a # b # r" "is_lower a" "is_lower b" "list_all (\<lambda>c. is_lower c \<or> is_digit c) r"
    by (rule name_wordE)
  then have "camel_rest ((b # r) @ s) = (b # r) @ camel_rest s" by (intro camel_rest_plain) simp
  with w show ?thesis by (simp add: capital_def)
qed

lemma camel_rest_words:
  "\<forall>w \<in> set ws. name_word w \<Longrightarrow> camel_rest (concat (map (\<lambda>w. CHR ''_'' # w) ws)) = concat (map capital ws)"
proof (induction ws)
  case Nil
  then show ?case by simp
next
  case (Cons w ws)
  then have "camel_rest (CHR ''_'' # w @ concat (map (\<lambda>w. CHR ''_'' # w) ws))
      = capital w @ camel_rest (concat (map (\<lambda>w. CHR ''_'' # w) ws))" by (intro camel_rest_word) simp
  with Cons show ?case by simp
qed

lemma join_concat: "ws \<noteq> [] \<Longrightarrow> join [c] ws = hd ws @ concat (map (\<lambda>w. c # w) (tl ws))"
proof (induction ws)
  case (Cons w ws)
  then show ?case by (cases ws) (auto simp: join_Cons)
qed simp

lemma camel_case_words:
  assumes "ws \<noteq> []" and "\<forall>w \<in> set ws. name_word w"
  shows "camel_case (join ''_'' ws) = concat (map capital ws)"
proof -
  obtain w ws' where ws: "ws = w # ws'" using assms(1) by (cases ws) auto
  then obtain a b r where w: "w = a # b # r" "is_lower a" "is_lower b" "list_all (\<lambda>c. is_lower c \<or> is_digit c) r"
    using assms(2) by (auto elim: name_wordE)
  have "join ''_'' ws = a # b # r @ concat (map (\<lambda>w. CHR ''_'' # w) ws')"
    using join_concat [OF assms(1)] ws w by simp
  then show ?thesis
    using assms(2) ws w camel_rest_words [of ws']
    by (simp add: camel_case_def capital_def camel_rest_plain lower_not_underscore)
qed

lemma snake_loop_plain:
  "list_all (\<lambda>c. is_lower c \<or> is_digit c) r \<Longrightarrow> r \<noteq> [] \<Longrightarrow> snake_loop f acc (r @ s) = snake_loop False (rev r @ acc) s"
proof (induction r arbitrary: f acc)
  case (Cons c r)
  then show ?case by (cases r) auto
qed simp

lemma last_alpha_word:
  "list_all (\<lambda>c. is_lower c \<or> is_digit c) r \<Longrightarrow> is_lower b \<Longrightarrow> last_alpha_lower (rev r @ b # acc)"
  by (induction r rule: rev_induct) (auto simp: last_alpha_lower_def not_alpha_digit)

text \<open>A capitalised word after text whose last letter is small gets its underscore back.\<close>

lemma snake_loop_word:
  assumes "name_word w" and "last_alpha_lower acc"
  shows "snake_loop False acc (capital w @ s) = snake_loop False (rev (CHR ''_'' # capital w) @ acc) s
    \<and> last_alpha_lower (rev (CHR ''_'' # capital w) @ acc)"
proof -
  obtain a b r where w: "w = a # b # r" "is_lower a" "is_lower b" "list_all (\<lambda>c. is_lower c \<or> is_digit c) r"
    using assms(1) by (auto simp: name_word_def split: list.splits)
  have up: "is_upper (upper_char a)" using w(2) by simp
  then have n: "\<not> is_lower (upper_char a)" "\<not> is_digit (upper_char a)"
    by (auto simp: not_lower_upper dest: not_upper_digit)
  have "snake_loop False acc (capital w @ s)
      = snake_loop False (upper_char a # CHR ''_'' # acc) ((b # r) @ s)"
    using n assms(2) by (simp add: w(1) capital_def)
  also have "\<dots> = snake_loop False (rev (b # r) @ upper_char a # CHR ''_'' # acc) s"
    using w(3,4) by (intro snake_loop_plain) auto
  finally show ?thesis
    using last_alpha_word [OF w(4,3), of "upper_char a # CHR ''_'' # acc"] by (simp add: w(1) capital_def)
qed

lemma snake_loop_words:
  "\<forall>w \<in> set ws. name_word w \<Longrightarrow> last_alpha_lower acc \<Longrightarrow>
     snake_loop False acc (concat (map capital ws)) = rev (concat (map (\<lambda>w. CHR ''_'' # capital w) ws)) @ acc"
proof (induction ws arbitrary: acc)
  case Nil
  then show ?case by simp
next
  case (Cons w ws)
  from snake_loop_word [of w acc "concat (map capital ws)"] Cons show ?case by simp
qed

lemma py_lower_append [simp]: "py_lower (a @ b) = py_lower a @ py_lower b"
  by (simp add: py_lower_def)

lemma py_lower_simps [simp]: "py_lower [] = []" "py_lower (c # s) = lower_char c # py_lower s"
  by (simp_all add: py_lower_def)

lemma py_lower_word: "list_all (\<lambda>c. is_lower c \<or> is_digit c) r \<Longrightarrow> py_lower r = r"
  by (induction r) auto

lemma py_lower_capital: "name_word w \<Longrightarrow> py_lower (capital w) = w"
  using py_lower_word by (auto simp: capital_def elim!: name_wordE)

lemma lower_underscore [simp]: "lower_char (CHR ''_'') = CHR ''_''" by code_simp

lemma py_lower_concat:
  "\<forall>w \<in> set ws. name_word w \<Longrightarrow>
     py_lower (concat (map (\<lambda>w. CHR ''_'' # capital w) ws)) = concat (map (\<lambda>w. CHR ''_'' # w) ws)"
proof (induction ws)
  case (Cons w ws)
  then have "py_lower (CHR ''_'' # capital w) = CHR ''_'' # w"
    using py_lower_capital [of w] by simp
  with Cons show ?case by simp
qed simp

text \<open>The name of a helper's D-Bus object gives the helper's name back: for names of lower case words
  with at least two letters each, joined by underscores, snake_case undoes camel_case.\<close>

theorem snake_camel_case:
  assumes "ws \<noteq> []" and "\<forall>w \<in> set ws. name_word w"
  shows "snake_case (camel_case (join ''_'' ws)) = join ''_'' ws"
proof -
  obtain w ws' where ws: "ws = w # ws'" using assms(1) by (cases ws) auto
  then obtain a b r where w: "w = a # b # r" "is_lower a" "is_lower b" "list_all (\<lambda>c. is_lower c \<or> is_digit c) r"
    using assms(2) by (auto simp: name_word_def split: list.splits)
  have "is_upper (upper_char a)" using w(2) by simp
  then have n: "\<not> is_lower (upper_char a)" "\<not> is_digit (upper_char a)"
    by (auto simp: not_lower_upper dest: not_upper_digit)
  have "snake_loop True [] (concat (map capital ws))
      = snake_loop False [upper_char a] ((b # r) @ concat (map capital ws'))"
    using n by (simp add: ws w(1) capital_def)
  also have "\<dots> = snake_loop False (rev (b # r) @ [upper_char a]) (concat (map capital ws'))"
    using w(3,4) by (intro snake_loop_plain) auto
  also have "\<dots> = rev (concat (map (\<lambda>w. CHR ''_'' # capital w) ws')) @ rev (b # r) @ [upper_char a]"
    using last_alpha_word [OF w(4,3)] assms(2) ws by (intro snake_loop_words) auto
  finally have "rev (snake_loop True [] (concat (map capital ws)))
      = capital w @ concat (map (\<lambda>w. CHR ''_'' # capital w) ws')"
    by (simp add: w(1) capital_def)
  then have "snake_case (camel_case (join ''_'' ws))
      = py_lower (capital w) @ py_lower (concat (map (\<lambda>w. CHR ''_'' # capital w) ws'))"
    using camel_case_words [OF assms] by (simp add: snake_case_def)
  also have "\<dots> = join ''_'' ws"
    using assms(2) ws join_concat [OF assms(1)] by (simp add: py_lower_capital py_lower_concat)
  finally show ?thesis .
qed

theorem snake_camel_case_witness: "snake_case (camel_case ''sysreport_gpu2'') = ''sysreport_gpu2''"
proof -
  have "\<forall>w \<in> set [''sysreport'', ''gpu2'']. name_word w" by code_simp
  from snake_camel_case [OF _ this] show ?thesis by (simp add: join_Cons)
qed

text \<open>Single-letter words do not survive.\<close>

lemma snake_camel_single_letter: "snake_case (camel_case ''a_b'') = ''ab''"
  by code_simp

end
