(* ===== verification/Util_Proc.thy ===== *)
theory Util_Proc imports Py_Strings begin

text \<open>
  The part of \<^verbatim>\<open>util.py\<close> that looks at processes: \<^verbatim>\<open>get_pid_stat\<close>, the walk of \<^verbatim>\<open>get_appid\<close> up the
  process tree, and \<^verbatim>\<open>drop_root\<close>. What \<^verbatim>\<open>/proc\<close> shows of a process is a record.
\<close>

section \<open>get\_pid\_stat\<close>

text \<open>The pattern's tail \<^verbatim>\<open>\)\s+[A-Za-z]\s+(\d+)\<close> at the start of a text: the digits it captures.\<close>

definition match_tail :: "string \<Rightarrow> string option" where
  "match_tail s = (case s of
       [] \<Rightarrow> None
     | p # s1 \<Rightarrow>
        (let s2 = dropWhile is_space s1 in
         if p \<noteq> CHR '')'' \<or> s2 = s1 then None
         else (case s2 of
             [] \<Rightarrow> None
           | a # s3 \<Rightarrow>
              (let s4 = dropWhile is_space s3; ds = takeWhile is_digit s4
               in if \<not> is_alpha a \<or> s4 = s3 \<or> ds = [] then None else Some ds))))"

text \<open>\<^verbatim>\<open>(.*)\<close> in front of it: the longest text without a line break after which the tail matches.\<close>

fun match_comm :: "string \<Rightarrow> (string \<times> string) option" where
  "match_comm [] = None"
| "match_comm (c # cs) =
     (case (if c = CHR 0x0A then None else match_comm cs) of
        Some (m, ds) \<Rightarrow> Some (c # m, ds)
      | None \<Rightarrow> map_option (Pair []) (match_tail (c # cs)))"

definition parse_stat :: "string \<Rightarrow> (string \<times> int) option" where
  "parse_stat s =
     (let s1 = dropWhile is_digit s; s2 = dropWhile is_space s1
      in if s1 = s \<or> s2 = s1 then None
         else (case s2 of
             [] \<Rightarrow> None
           | c # s3 \<Rightarrow> (if c \<noteq> CHR ''('' then None
               else (case match_comm s3 of
                   None \<Rightarrow> None | Some (comm, ds) \<Rightarrow> Some (comm, int (digits_value ds))))))"

record procinfo =
  pr_stat :: "string result"
  pr_environ :: "string result"
  pr_cmdline :: "string result"

type_synonym procs = "int \<Rightarrow> procinfo"

text \<open>An OSError is logged and gives (None, None), as a text that does not match does.\<close>

definition get_pid_stat :: "procs \<Rightarrow> int \<Rightarrow> (string \<times> int) option result" where
  "get_pid_stat ps pid = (case pr_stat (ps pid) of
       Inl e \<Rightarrow> (if is_OSError e then Inr None else Inl e)
     | Inr s \<Rightarrow> Inr (parse_stat s))"

section \<open>get\_appid\<close>

definition env_of :: "string \<Rightarrow> (string, string) dict" where
  "env_of text = fold (\<lambda>kv d. dict_set d (before (CHR ''='') kv) (after (CHR ''='') kv))
     (filter (\<lambda>kv. CHR ''='' \<in> set kv) (split_on (CHR 0x00) text)) []"

text \<open>The scan of the reaper's arguments; None is the \<^verbatim>\<open>return None\<close> at a malformed number.\<close>

fun reaper_scan :: "string list \<Rightarrow> bool \<Rightarrow> int option \<Rightarrow> int option option" where
  "reaper_scan [] launch appid = Some appid"
| "reaper_scan (arg # args) launch appid =
     (if arg = ''SteamLaunch'' then reaper_scan args True appid
      else if prefix ''AppId='' arg \<and> launch
        then (case py_int (drop 6 arg) of None \<Rightarrow> None | Some n \<Rightarrow> reaper_scan args launch (Some n))
      else if arg = ''--'' then Some appid
      else reaper_scan args launch appid)"

text \<open>
  One turn of the loop: leave it with a result, or go on with the parent and the application found so
  far. A decoding error of what is read is neither a PermissionError nor an OSError and is raised.
\<close>

datatype walk = Return "int option result" | Break "int option" | Up int "int option"

definition appid_step :: "procs \<Rightarrow> int \<Rightarrow> int option \<Rightarrow> walk" where
  "appid_step ps pid appid =
     (let found = (case pr_environ (ps pid) of
            Inr text \<Rightarrow> Inr (case dict_get (env_of text) ''SteamGameId'' of None \<Rightarrow> None | Some v \<Rightarrow> py_int v)
          | Inl e \<Rightarrow> (if is_OSError e then Inr None else Inl e))
      in case found of
           Inl e \<Rightarrow> Return (Inl e)
         | Inr (Some n) \<Rightarrow> Break (Some n)
         | Inr None \<Rightarrow> (case get_pid_stat ps pid of
             Inl e \<Rightarrow> Return (Inl e)
           | Inr None \<Rightarrow> Return (Inr None)
           | Inr (Some (comm, ppid)) \<Rightarrow>
              (if comm = ''reaper''
               then (case pr_cmdline (ps pid) of
                   Inl e \<Rightarrow> Return (if is_OSError e then Inr None else Inl e)
                 | Inr text \<Rightarrow> (case reaper_scan (split_on (CHR 0x00) text) False appid of
                     None \<Rightarrow> Return (Inr None) | Some appid' \<Rightarrow> Up ppid appid'))
               else Up ppid appid)))"

text \<open>After the loop: identifiers from 0x80000000 on are games that are not Steam's.\<close>

definition steam_only :: "int option \<Rightarrow> int option" where
  "steam_only appid = (case appid of None \<Rightarrow> None | Some n \<Rightarrow> (if n \<noteq> 0 \<and> 2147483648 \<le> n then None else Some n))"

fun appid_loop :: "nat \<Rightarrow> procs \<Rightarrow> int \<Rightarrow> int option \<Rightarrow> int option result option" where
  "appid_loop n ps pid appid =
     (if pid \<le> 1 then Some (Inr (steam_only appid))
      else (case n of
          0 \<Rightarrow> None
        | Suc m \<Rightarrow> (case appid_step ps pid appid of
            Return r \<Rightarrow> Some r
          | Break a \<Rightarrow> Some (Inr (steam_only a))
          | Up ppid a \<Rightarrow> appid_loop m ps ppid a)))"

declare appid_loop.simps [simp del]

text \<open>\<open>fuel\<close> bounds the number of processes walked; None is a walk that has not ended by then.\<close>

definition get_appid :: "nat \<Rightarrow> procs \<Rightarrow> int \<Rightarrow> int option result option" where
  "get_appid fuel ps pid = appid_loop fuel ps pid None"

section \<open>drop\_root\<close>

text \<open>
  The identities of the process. \<^verbatim>\<open>seteuid\<close> is allowed to a process with effective uid 0 and to the real,
  effective and saved uid, \<^verbatim>\<open>setegid\<close> likewise.
\<close>

record creds =
  ruid :: int
  euid :: int
  suid :: int
  rgid :: int
  egid :: int
  sgid :: int

definition seteuid :: "int \<Rightarrow> creds \<Rightarrow> unit result \<times> creds" where
  "seteuid u c = (if euid c = 0 \<or> u \<in> {ruid c, euid c, suid c} then (Inr (), c\<lparr>euid := u\<rparr>) else (Inl PermissionError, c))"

definition setegid :: "int \<Rightarrow> creds \<Rightarrow> unit result \<times> creds" where
  "setegid g c = (if euid c = 0 \<or> g \<in> {rgid c, egid c, sgid c} then (Inr (), c\<lparr>egid := g\<rparr>) else (Inl PermissionError, c))"

text \<open>
  The constructor's target, an integer or a string: a string is a number or a name looked up; an
  integer is not stored at all, so that the attribute does not exist when the block is entered.
\<close>

definition drop_target :: "(string, int) dict \<Rightarrow> int + string \<Rightarrow> int option result" where
  "drop_target names t = (case t of
       Inl n \<Rightarrow> Inr None
     | Inr s \<Rightarrow> (case py_int s of
         Some n \<Rightarrow> Inr (Some n)
       | None \<Rightarrow> (case dict_get names s of None \<Rightarrow> Inl (KeyError s) | Some n \<Rightarrow> Inr (Some n))))"

definition drop_enter :: "int option \<Rightarrow> int option \<Rightarrow> creds \<Rightarrow> (int \<times> int) result \<times> creds" where
  "drop_enter tuid tgid c = (case tuid of
       None \<Rightarrow> (Inl AttributeError, c)
     | Some u \<Rightarrow>
        (if euid c = u \<and> tgid = None then (Inl AttributeError, c)
         else if euid c = u \<and> tgid = Some (egid c) then (Inr (euid c, egid c), c)
         else (case tgid of
             None \<Rightarrow> (Inl AttributeError, c)
           | Some g \<Rightarrow> (case setegid g c of
               (Inl e, c1) \<Rightarrow> (Inl e, c1)
             | (Inr _, c1) \<Rightarrow> (case seteuid u c1 of
                 (Inl e, c2) \<Rightarrow> (Inl e, c2)
               | (Inr _, c2) \<Rightarrow> (Inr (euid c, egid c), c2))))))"

text \<open>\<^verbatim>\<open>__exit__\<close>: a PermissionError is logged and swallowed.\<close>

definition drop_exit :: "int \<times> int \<Rightarrow> creds \<Rightarrow> creds" where
  "drop_exit saved c = (case seteuid (fst saved) c of
       (Inl e, c1) \<Rightarrow> c1
     | (Inr _, c1) \<Rightarrow> snd (setegid (snd saved) c1))"

section \<open>Lemmas\<close>

lemma match_tail_needs_paren: "CHR '')'' \<notin> set s \<Longrightarrow> match_comm s = None"
  by (induction s) (auto simp: match_tail_def Let_def split: option.splits)

lemma match_comm_append:
  "CHR 0x0A \<notin> set comm \<Longrightarrow> match_comm s = Some (m, ds) \<Longrightarrow> match_comm (comm @ s) = Some (comm @ m, ds)"
  by (induction comm) auto

lemma takeWhile_digits_show: "takeWhile is_digit (show_nat n @ CHR '' '' # s) = show_nat n"
proof -
  have "\<not> is_digit (CHR '' '')" by code_simp
  then show ?thesis by (subst takeWhile_append2) (auto dest: show_nat_digits)
qed

lemma dropWhile_show:
  "dropWhile is_digit (show_nat n @ CHR '' '' # s) = CHR '' '' # s"
  "dropWhile is_space (show_nat n @ s) = show_nat n @ s"
proof -
  have "\<not> is_digit (CHR '' '')" by code_simp
  then show "dropWhile is_digit (show_nat n @ CHR '' '' # s) = CHR '' '' # s"
    by (subst dropWhile_append2) (auto dest: show_nat_digits)
  obtain c cs where c: "show_nat n = c # cs" by (cases "show_nat n") auto
  with show_nat_digits [of c n] show "dropWhile is_space (show_nat n @ s) = show_nat n @ s"
    by (simp add: not_space_digit)
qed

text \<open>The parent of a process is read from its stat line whatever the process calls itself: a command
  name may hold parentheses, spaces and digits that look like the rest of the line, and the pair
  returned is still the whole name and the true parent.\<close>

theorem pid_stat_unspoofable:
  assumes "pr_stat (ps pid) = Inr (show_nat p @ '' ('' @ comm @ '') '' @ [st] @ '' '' @ show_nat ppid @ '' '' @ rest)"
    and "CHR 0x0A \<notin> set comm" and "is_alpha st" and "CHR '')'' \<notin> set rest"
  shows "get_pid_stat ps pid = Inr (Some (comm, int ppid))"
proof -
  let ?tail = "CHR '')'' # CHR '' '' # st # CHR '' '' # show_nat ppid @ CHR '' '' # rest"
  have sp: "is_space (CHR '' '')" "\<not> is_space (CHR ''('')" by code_simp+
  have st: "\<not> is_space st" "st \<noteq> CHR '')''"
    using assms(3) by (auto simp: is_alpha_def is_lower_def is_upper_def is_space_def code_def)
  have ndp: "CHR '')'' \<notin> set (show_nat ppid)"
    by (auto dest!: show_nat_digits simp: is_digit_def code_def)
  have mt: "match_tail ?tail = Some (show_nat ppid)"
    using sp st assms(3) takeWhile_digits_show dropWhile_show(2) by (simp add: match_tail_def Let_def)
  have "match_comm (tl ?tail) = None"
    using ndp st assms(4) by (intro match_tail_needs_paren) auto
  then have "match_comm ?tail = Some ([], show_nat ppid)" using mt by simp
  then have "match_comm (comm @ ?tail) = Some (comm @ [], show_nat ppid)"
    by (intro match_comm_append assms(2))
  moreover have "show_nat p @ CHR '' '' # s \<noteq> CHR '' '' # s" for s
    by (metis append_self_conv2 show_nat_not_Nil)
  ultimately show ?thesis
    using assms(1) sp dropWhile_show(1) [of p] by (simp add: get_pid_stat_def parse_stat_def Let_def)
qed

theorem pid_stat_unspoofable_witness:
  "get_pid_stat (\<lambda>_. \<lparr>pr_stat = Inr ''42 (a) S 1 (b) S 7 0 -1'', pr_environ = Inl PermissionError,
     pr_cmdline = Inl PermissionError\<rparr>) 42 = Inr (Some (''a) S 1 (b'', 7))"
proof -
  let ?ps = "\<lambda>_ :: int. \<lparr>pr_stat = Inr ''42 (a) S 1 (b) S 7 0 -1'', pr_environ = Inl PermissionError,
     pr_cmdline = Inl PermissionError\<rparr>"
  have "pr_stat (?ps 42) = Inr (show_nat 42 @ '' ('' @ ''a) S 1 (b'' @ '') '' @ [CHR ''S''] @ '' '' @ show_nat 7 @ '' '' @ ''0 -1'')"
    by code_simp
  moreover have "CHR 0x0A \<notin> set ''a) S 1 (b''" "CHR '')'' \<notin> set ''0 -1''" by simp_all
  moreover have "is_alpha (CHR ''S'')" by code_simp
  ultimately show ?thesis using pid_stat_unspoofable [of ?ps 42 42 "''a) S 1 (b''" "CHR ''S''" 7 "''0 -1''"] by simp
qed

section \<open>The walk\<close>

lemma appid_loop_ends:
  assumes "\<And>q appid ppid a. 1 < q \<Longrightarrow> appid_step ps q appid = Up ppid a \<Longrightarrow> 1 < ppid \<Longrightarrow> rank ppid < (rank q :: nat)"
    and "rank pid < n"
  shows "\<exists>r. appid_loop n ps pid appid = Some r"
  using assms(2)
proof (induction n arbitrary: pid appid)
  case 0
  then show ?case by simp
next
  case (Suc n)
  show ?case
  proof (cases "pid \<le> 1")
    case True
    then show ?thesis by (simp add: appid_loop.simps [of "Suc n"])
  next
    case False
    show ?thesis
    proof (cases "appid_step ps pid appid")
      case (Up ppid a)
      show ?thesis
      proof (cases "ppid \<le> 1")
        case True
        with False Up show ?thesis by (simp add: appid_loop.simps [of "Suc n"] appid_loop.simps [of n])
      next
        case ppid: False
        with assms(1) [OF _ Up] False have "rank ppid < rank pid" by simp
        with Suc.prems have "rank ppid < n" by simp
        from Suc.IH [OF this] False Up show ?thesis by (simp add: appid_loop.simps [of "Suc n"])
      qed
    qed (use False in \<open>simp_all add: appid_loop.simps [of "Suc n"]\<close>)
  qed
qed

lemma appid_loop_range:
  "appid_loop n ps pid appid = Some (Inr (Some k)) \<Longrightarrow> k < 2147483648 \<or> (\<exists>q a. appid_step ps q a = Return (Inr (Some k)))"
proof (induction n arbitrary: pid appid)
  case 0
  then show ?case by (auto simp: appid_loop.simps [of 0] steam_only_def split: if_splits option.splits)
next
  case (Suc n)
  then show ?case
    by (subst (asm) appid_loop.simps)
       (auto simp: steam_only_def split: if_splits option.splits walk.splits)
qed

lemma appid_step_return: "appid_step ps q a = Return (Inr r) \<Longrightarrow> r = None"
  by (auto simp: appid_step_def Let_def split: sum.splits option.splits prod.splits if_splits)


definition sample_procs :: procs where
  "sample_procs pid = \<lparr>pr_stat = Inr (if pid = 9 then ''9 (game) S 5 1'' else ''5 (reaper) S 1 1''),
     pr_environ = Inl PermissionError,
     pr_cmdline = Inr (''reaper'' @ [CHR 0x00] @ ''SteamLaunch'' @ [CHR 0x00] @ ''AppId=570'' @ [CHR 0x00] @ ''--'')\<rparr>"


section \<open>Dropping privileges\<close>

text \<open>C34. Leaving a drop\_root block restores the effective uid and gid exactly, if the block was entered
  and itself left them alone, for a process whose effective ids are among its real and saved ones.\<close>

theorem drop_root_restores:
  assumes "drop_enter tuid tgid c = (Inr saved, c1)"
    and "euid c \<in> {ruid c, suid c}" and "egid c \<in> {rgid c, sgid c}"
  shows "drop_exit saved c1 = c \<and> tuid = Some (euid c1) \<and> tgid = Some (egid c1)"
proof -
  have "saved = (euid c, egid c) \<and> ((c1 = c \<and> tuid = Some (euid c) \<and> tgid = Some (egid c))
      \<or> (\<exists>u g. tuid = Some u \<and> tgid = Some g \<and> c1 = c\<lparr>egid := g, euid := u\<rparr>))"
    using assms(1) by (auto simp: drop_enter_def setegid_def seteuid_def split: option.splits if_splits)
  then show ?thesis using assms(2,3)
    by (cases c) (auto simp: drop_exit_def seteuid_def setegid_def)
qed

definition root_creds :: creds where
  "root_creds = \<lparr>ruid = 0, euid = 0, suid = 0, rgid = 0, egid = 0, sgid = 0\<rparr>"

theorem drop_root_restores_witness:
  "\<exists>c1. drop_enter (Some 965) (Some 965) root_creds = (Inr (0, 0), c1) \<and> euid c1 = 965 \<and> drop_exit (0, 0) c1 = root_creds"
proof -
  have e: "drop_enter (Some 965) (Some 965) root_creds = (Inr (0, 0), root_creds\<lparr>egid := 965, euid := 965\<rparr>)"
    by (simp add: drop_enter_def root_creds_def setegid_def seteuid_def)
  from drop_root_restores [OF this] have "drop_exit (0, 0) (root_creds\<lparr>egid := 965, euid := 965\<rparr>) = root_creds"
    by (simp add: root_creds_def)
  with e show ?thesis by auto
qed

text \<open>A drop\_root block given its target as an integer cannot be entered: the constructor keeps only
  targets given as strings.\<close>

theorem drop_root_integer_target:
  "drop_target names (Inl n) = Inr tuid \<Longrightarrow> drop_enter tuid tgid c = (Inl AttributeError, c)"
  by (simp add: drop_target_def drop_enter_def)

theorem drop_root_integer_target_witness:
  "drop_enter None (Some 0) root_creds = (Inl AttributeError, root_creds)"
  by (rule drop_root_integer_target [of "[]" 1000]) (simp add: drop_target_def)

end
