(* ===== verification/Util_System.thy ===== *)
theory Util_System imports Util begin

text \<open>
  The rest of \<^verbatim>\<open>util.py\<close>: keys of \<^verbatim>\<open>os-release\<close>, the unit id, the journal reader, build ids and
  packages of executables, the application names, and the DMI product table.
\<close>

section \<open>Files of key=value lines\<close>

text \<open>The lines that could be read, and the OSError that ended the reading, if one did.\<close>

fun get_file_key :: "string \<Rightarrow> string list \<times> exn option \<Rightarrow> string option result" where
  "get_file_key key ([], err) = (case err of None \<Rightarrow> Inr None | Some e \<Rightarrow> (if is_OSError e then Inr None else Inl e))"
| "get_file_key key (line # rest, err) =
     (if CHR ''='' \<notin> set line then get_file_key key (rest, err)
      else if before (CHR ''='') line = key
      then (let v = strip (after (CHR ''='') line)
            in Inr (Some (if 2 \<le> length v \<and> hd v = last v \<and> last v = CHR 0x22 then strip_char (CHR 0x22) v else v)))
      else get_file_key key (rest, err))"

definition os_release_key :: "string \<Rightarrow> (string list \<times> exn option) result \<Rightarrow> string option result" where
  "os_release_key key f = (case f of
       Inl e \<Rightarrow> (if is_OSError e then Inr None else Inl e)
     | Inr content \<Rightarrow> get_file_key key content)"

definition get_version_id :: "(string list \<times> exn option) result \<Rightarrow> string option result" where
  "get_version_id f = os_release_key ''VERSION_ID'' f"

definition get_build_id :: "(string list \<times> exn option) result \<Rightarrow> string option result" where
  "get_build_id f = os_release_key ''BUILD_ID'' f"

section \<open>The unit id and the branch\<close>

definition telemetry_unit_id :: "(string \<Rightarrow> string) \<Rightarrow> string result \<Rightarrow> string result \<Rightarrow> string option result" where
  "telemetry_unit_id digest wlan machine =
     (case (case wlan of Inr m \<Rightarrow> Inr [''mac:'' @ strip m] | Inl e \<Rightarrow> if is_OSError e then Inr [] else Inl e) of
        Inl e \<Rightarrow> Inl e
      | Inr fps \<Rightarrow> (case machine of
          Inl e \<Rightarrow> (if is_OSError e then Inr None else Inl e)
        | Inr i \<Rightarrow> Inr (Some (digest (join [CHR 0x00] (fps @ [''machine:'' @ strip i]))))))"

definition get_steamos_branch :: "string result \<Rightarrow> string option result" where
  "get_steamos_branch run = (case run of
       Inr out \<Rightarrow> Inr (Some (strip out))
     | Inl e \<Rightarrow> (if e = CalledProcessError \<or> is_OSError e then Inr None else Inl e))"

section \<open>read\_journal\<close>

record jquery =
  jq_unit :: string
  jq_cursor :: "string option"
  jq_current_boot :: bool
  jq_start_ago_ms :: "int option"
  jq_uid :: "int option"
  jq_allow_system :: bool
  jq_allow_user :: bool

definition journal_cmd :: "jquery \<Rightarrow> string list" where
  "journal_cmd q = [''journalctl'', ''-o'', ''json'']
     @ (if jq_unit q = ''kernel'' then [''-k'']
        else if jq_allow_system q \<and> \<not> jq_allow_user q then [''-u'', jq_unit q] else [])
     @ (case jq_cursor q of None \<Rightarrow> [] | Some c \<Rightarrow> [''--after-cursor'', c])
     @ (if jq_current_boot q then [''-b'', ''0''] else [])
     @ (case jq_start_ago_ms q of None \<Rightarrow> [] | Some n \<Rightarrow> [''-S'', ''-'' @ show_int n @ ''ms''])"

definition obj_get :: "(string, json) dict \<Rightarrow> string \<Rightarrow> json" where
  "obj_get d k = dict_getd d k JNull"

definition journal_wanted :: "jquery \<Rightarrow> (string, json) dict \<Rightarrow> bool" where
  "journal_wanted q log =
     (if (case jq_uid q of None \<Rightarrow> False | Some u \<Rightarrow> obj_get log ''_UID'' \<noteq> JStr (show_int u)) then False
      else if jq_allow_system q \<and> obj_get log ''_SYSTEMD_UNIT'' = JStr (jq_unit q) then True
      else if jq_allow_user q \<and> obj_get log ''_SYSTEMD_USER_UNIT'' = JStr (jq_unit q) then True
      else False)"

text \<open>
  The reading loop. A line is the value it parses to, or the exception that reading or parsing it
  raised; one that is not an object fails at the subscript.
\<close>

fun journal_lines :: "jquery \<Rightarrow> json result list \<Rightarrow> (string, json) dict list \<Rightarrow> json
    \<Rightarrow> ((string, json) dict list \<times> json) result" where
  "journal_lines q [] logs cursor = Inr (logs, cursor)"
| "journal_lines q (Inl e # ls) logs cursor = Inl e"
| "journal_lines q (Inr (JObj d) # ls) logs cursor = (case dict_get d ''__CURSOR'' of
       None \<Rightarrow> Inl (KeyError ''__CURSOR'')
     | Some c \<Rightarrow> journal_lines q ls (if journal_wanted q d then logs @ [d] else logs) c)"
| "journal_lines q (Inr _ # ls) logs cursor = Inl TypeError"

definition read_journal :: "(string list \<Rightarrow> json result list result) \<Rightarrow> jquery
    \<Rightarrow> ((string, json) dict list option \<times> json) result" where
  "read_journal exec q =
     (case (case exec (journal_cmd q) of Inl e \<Rightarrow> Inl e | Inr ls \<Rightarrow> journal_lines q ls [] JNull) of
        Inr (logs, cursor) \<Rightarrow> Inr (Some logs, cursor)
      | Inl e \<Rightarrow> (if is_OSError e then Inr (None, JNull) else Inl e))"

section \<open>Executables\<close>

text \<open>A section of an ELF file: its name and, if it is a note section, its notes (type, description).\<close>

type_synonym elf_section = "string \<times> (string \<times> string) list option"

fun build_id_note :: "(string \<times> string) list \<Rightarrow> string option" where
  "build_id_note [] = None"
| "build_id_note ((t, d) # ns) = (if t = ''NT_GNU_BUILD_ID'' then Some d else build_id_note ns)"

fun build_id_section :: "elf_section list \<Rightarrow> string option" where
  "build_id_section [] = None"
| "build_id_section ((name, notes) # ss) =
     (if name \<noteq> ''.note.gnu.build-id'' then build_id_section ss
      else (case notes of None \<Rightarrow> build_id_section ss | Some ns \<Rightarrow> build_id_note ns))"

definition get_exe_build_id :: "elf_section list result \<Rightarrow> string option result" where
  "get_exe_build_id elf = (case elf of
       Inr ss \<Rightarrow> Inr (build_id_section ss)
     | Inl e \<Rightarrow> (if is_OSError e \<or> e = ELFError then Inr None else Inl e))"

text \<open>\<^verbatim>\<open>pkgname, pkgver = line.split(' ')[-2:]\<close>: a ValueError when the line has no blank.\<close>

definition last_two :: "string \<Rightarrow> (string \<times> string) result" where
  "last_two line = (case rev (split_on (CHR '' '') line) of
       v # n # _ \<Rightarrow> Inr (n, v) | _ \<Rightarrow> Inl ValueError)"

definition get_path_package :: "(int \<times> string) result \<Rightarrow> (string \<times> string) option result" where
  "get_path_package run = (case run of
       Inl e \<Rightarrow> (if is_OSError e \<or> e = CalledProcessError then Inr None else Inl e)
     | Inr (rc, out) \<Rightarrow> (if rc = 0 then map_sum id Some (last_two (strip out)) else Inr None))"

function batched :: "nat \<Rightarrow> 'a list \<Rightarrow> 'a list list" where
  "batched n xs = (if xs = [] \<or> n = 0 then [] else take n xs # batched n (drop n xs))"
  by pat_completeness auto
termination by (relation "measure (length o snd)") auto

declare batched.simps [simp del]

fun package_lines :: "string list \<Rightarrow> (string, string) dict \<Rightarrow> (string, string) dict result" where
  "package_lines [] d = Inr d"
| "package_lines (l # ls) d =
     (if strip l = [] then package_lines ls d
      else (case last_two (strip l) of
          Inl e \<Rightarrow> Inl e
        | Inr (n, v) \<Rightarrow> package_lines ls (dict_set d n v)))"

fun batch_packages :: "(string list \<Rightarrow> string result) \<Rightarrow> string list list \<Rightarrow> (string, string) dict
    \<Rightarrow> (string, string) dict result" where
  "batch_packages pacman [] d = Inr d"
| "batch_packages pacman (b # bs) d = (case pacman b of
       Inl e \<Rightarrow> Inl e
     | Inr out \<Rightarrow> (case package_lines (split_on (CHR 0x0A) (strip out)) d of
         Inl e \<Rightarrow> Inl e | Inr d' \<Rightarrow> batch_packages pacman bs d'))"

definition get_paths_packages :: "(string list \<Rightarrow> string result) \<Rightarrow> string list \<Rightarrow> (string, string) dict result" where
  "get_paths_packages pacman paths = batch_packages pacman (batched 1024 paths) []"

section \<open>Application names\<close>

text \<open>The table, if it exists. A row is bound from an object with both keys; any other fails.\<close>

type_synonym app_db = "(int, json) dict option"

fun insert_apps :: "json list \<Rightarrow> (int, json) dict \<Rightarrow> (int, json) dict option" where
  "insert_apps [] t = Some t"
| "insert_apps (JObj d # apps) t = (case (dict_get d ''appid'', dict_get d ''name'') of
       (Some (JInt n), Some name) \<Rightarrow> insert_apps apps (dict_set t n name)
     | _ \<Rightarrow> None)"
| "insert_apps (_ # apps) t = None"

text \<open>
  \<^verbatim>\<open>update_app_list\<close>: \<open>get\<close> is the answer of the server, a status and the value its body parses to. A
  failing insertion is raised before the commit, which leaves the created table.
\<close>

definition update_app_list :: "(int \<times> json result) result \<Rightarrow> app_db \<Rightarrow> bool result \<times> app_db" where
  "update_app_list get db = (case get of
       Inl e \<Rightarrow> (if e = NetworkError then (Inr False, db) else (Inl e, db))
     | Inr (status, body) \<Rightarrow>
        (if status \<noteq> 200 then (Inr False, db)
         else (case body of
             Inl e \<Rightarrow> (if e = JSONDecodeError then (Inr False, db) else (Inl e, db))
           | Inr (JObj reply) \<Rightarrow> (case dict_get reply ''applist'' of
               None \<Rightarrow> (Inr False, db)
             | Some (JObj al) \<Rightarrow> (case dict_get al ''apps'' of
                 None \<Rightarrow> (Inr False, db)
               | Some (JList apps) \<Rightarrow>
                  (let t = (case db of None \<Rightarrow> [] | Some t \<Rightarrow> t)
                   in case insert_apps apps t of
                        None \<Rightarrow> (Inl OtherException, Some t)
                      | Some t' \<Rightarrow> (Inr True, Some t'))
               | Some _ \<Rightarrow> (Inl TypeError, db))
             | Some _ \<Rightarrow> (Inl TypeError, db))
           | Inr _ \<Rightarrow> (Inl TypeError, db))))"

definition get_app_name :: "bool \<Rightarrow> app_db \<Rightarrow> int \<Rightarrow> json" where
  "get_app_name opens db appid =
     (if \<not> opens then JNull
      else (case db of None \<Rightarrow> JNull | Some t \<Rightarrow> dict_getd t appid JNull))"

section \<open>DMI\<close>

definition dmi_products :: "(string, (string, string) dict) dict" where
  "dmi_products = [
    (''Anbernic'', [(''Win600'', ''Anbernic Win600'')]),
    (''AOKZOE'', [(''AOKZOE A1 AR07'', ''AOKZOE A1''), (''AOKZOE A1 Pro'', ''AOKZOE A1 Pro''),
      (''AOKZOE A1X'', ''AOKZOE A1X'')]),
    (''ASUSTeK COMPUTER INC.'', [(''RC71L'', ''ROG Ally''), (''RC72LA'', ''ROG Ally X''),
      (''RC73XA'', ''ROG Xbox Ally X''), (''RC73YA'', ''ROG Xbox Ally''),
      (''GZ302EA'', ''ROG Flow Z13 (2025)'')]),
    (''AYADEVICE'', [(''AYA NEO FOUNDER'', ''AYANEO 2021'')]),
    (''AYANEO'', [(''AYA NEO 2021'', ''AYANEO 2021''), (''AYANEO 2021'', ''AYANEO 2021''),
      (''AYANEO 2021 Pro'', ''AYANEO 2021 Pro''),
      (''AYANEO 2021 Pro Retro Power'', ''AYANEO 2021 Pro''), (''AYANEO 2'', ''AYANEO 2''),
      (''AYANEO 3'', ''AYANEO 3''), (''GEEK'', ''AYANEO GEEK''), (''AYANEO 2S'', ''AYANEO 2S''),
      (''GEEK 1S'', ''AYANEO GEEK 1S''), (''AYANEO GEEK 1S'', ''AYANEO GEEK 1S''),
      (''AIR'', ''AYANEO AIR''), (''AIR Pro'', ''AYANEO AIR Pro''), (''AIR 1S'', ''AYANEO AIR 1S''),
      (''AIR 1S Limited'', ''AYANEO AIR 1S Limited''), (''AB05-AMD'', ''AYANEO AIR Plus AMD''),
      (''AB05-Intel'', ''AYANEO AIR Plus Intel''),
      (''AB05-Mendocino'', ''AYANEO AIR Plus Mendocino''), (''FLIP DS'', ''AYANEO FLIP''),
      (''FLIP KB'', ''AYANEO FLIP''), (''FLIP 1S DS'', ''AYANEO FLIP 1S''),
      (''AYANEO KUN'', ''AYANEO KUN''), (''NEXT'', ''AYANEO NEXT''),
      (''AYANEO NEXT'', ''AYANEO NEXT''), (''NEXT Advance'', ''AYANEO NEXT Advance''),
      (''AYANEO NEXT Advance'', ''AYANEO NEXT Advance''), (''NEXT Lite'', ''AYANEO NEXT Lite''),
      (''NEXT Pro'', ''AYANEO NEXT Pro''), (''AYANEO NEXT Pro'', ''AYANEO NEXT Pro''),
      (''SLIDE'', ''AYANEO SLIDE'')]),
    (''AYA NEO'', [(''AYA NEO FOUNDER'', ''AYANEO 2021'')]),
    (''ayn'', [(''Loki Max'', ''Ayn Loki Max''), (''Loki MiniPro'', ''Ayn Loki MiniPro''),
      (''Loki Zero'', ''Ayn Loki Zero'')]),
    (''GPD'', [(''G1618-03'', ''GPD WIN 3''), (''G1618-04'', ''GPD WIN 4''),
      (''G1618-05'', ''GPD WIN 5''), (''G1619-04'', ''GPD WIN Max 2''),
      (''G1617-01'', ''GPD WIN Mini'')]),
    (''LENOVO'', [(''83E1'', ''Legion Go''), (''83L3'', ''Legion Go S''),
      (''83N6'', ''Legion Go S''), (''83Q2'', ''Legion Go S''), (''83Q3'', ''Legion Go S''),
      (''83N0'', ''Legion Go 2''), (''83N1'', ''Legion Go 2'')]),
    (''Micro-Star International Co., Ltd.'', [(''MS-1T41'', ''MSI Claw A1M''),
      (''MS-1T42'', ''MSI Claw 7 AI+ A2VM''), (''MS-1T52'', ''MSI Claw 8 AI+ A2VM''),
      (''MS-1T8K'', ''MSI Claw A8 BZ2EM'')]),
    (''MystenLabs, Inc.'', [(''SuiPlay 0X1'', ''SuiPlay 0X1'')]),
    (''ONE-NETBOOK'', [(''ONE XPLAYER'', ''ONEXPLAYER''), (''ONEXPLAYER'', ''ONEXPLAYER''),
      (''ONEXPLAYER mini A07'', ''ONEXPLAYER mini A07''),
      (''ONEXPLAYER Mini Pro'', ''ONEXPLAYER Mini Pro''), (''ONEXPLAYER 2 ARP23'', ''ONEXPLAYER 2''),
      (''ONEXPLAYER 2 PRO ARP23'', ''ONEXPLAYER 2 Pro''),
      (''ONEXPLAYER 2 PRO ARP23 EVA-01'', ''ONEXPLAYER 2 Pro''),
      (''ONEXPLAYER F1'', ''ONEXPLAYER OneXFly F1''),
      (''ONEXPLAYER F1 EVA-01'', ''ONEXPLAYER OneXFly F1 EVA-01''),
      (''ONEXPLAYER F1 OLED'', ''ONEXPLAYER OneXFly F1 OLED''),
      (''ONEXPLAYER F1Pro'', ''ONEXPLAYER OneXFly F1 Pro''),
      (''ONEXPLAYER X1 A'', ''ONEXPLAYER X1 AMD''), (''ONEXPLAYER X1 i'', ''ONEXPLAYER X1 Intel''),
      (''ONEXPLAYER X1 mini'', ''ONEXPLAYER X1 mini''), (''ONEXPLAYER G1 A'', ''ONEXPLAYER G1 AMD''),
      (''ONEXPLAYER G1 i'', ''ONEXPLAYER G1 Intel'')]),
    (''OrangePi'', [(''NEO-01'', ''OrangePi NEO'')]),
    (''ZOTAC'', [(''G0A1W'', ''ZONE''), (''G1A1W'', ''ZONE'')])]"

definition dmi_all_products :: "(string, (string, string) dict) dict" where
  "dmi_all_products = dict_set dmi_products ''ONE-NETBOOK TECHNOLOGY CO., LTD.'' (dict_getd dmi_products ''ONE-NETBOOK'' [])"

text \<open>Whether a vendor's models are told by the board name; the vendors that have an entry at all.\<close>

definition dmi_lookup_table :: "string option \<Rightarrow> string option \<Rightarrow> (string, string option) dict" where
  "dmi_lookup_table board product =
     [(''Anbernic'', product), (''AOKZOE'', product), (''ASUSTeK COMPUTER INC.'', board), (''AYA NEO'', product),
      (''AYANEO'', product), (''ayn'', product), (''GPD'', product), (''LENOVO'', product),
      (''Micro-Star International Co., Ltd.'', board), (''MystenLabs, Inc.'', product), (''ONE-NETBOOK'', product),
      (''ONE-NETBOOK TECHNOLOGY CO., LTD.'', product), (''OrangePi'', product), (''ZOTAC'', board)]"

text \<open>\<^verbatim>\<open>read_file\<close> of a text file: a missing one is None.\<close>

definition read_file :: "string result \<Rightarrow> string option result" where
  "read_file f = (case f of
       Inr s \<Rightarrow> Inr (Some (strip s)) | Inl e \<Rightarrow> (if e = FileNotFoundError then Inr None else Inl e))"

definition dmi_file :: "string \<Rightarrow> string" where
  "dmi_file name = ''/sys/class/dmi/id/'' @ name"

definition dmi_model :: "(string, string) dict \<Rightarrow> string option \<Rightarrow> string option" where
  "dmi_model models name = (case name of None \<Rightarrow> None | Some n \<Rightarrow> dict_get models n)"

definition nonempty :: "string \<Rightarrow> string option \<Rightarrow> (string, string) dict" where
  "nonempty key v = (case v of None \<Rightarrow> [] | Some s \<Rightarrow> (if s = [] then [] else [(key, s)]))"

definition dmi_info :: "string option \<Rightarrow> string option \<Rightarrow> string option \<Rightarrow> (string, string) dict" where
  "dmi_info vendor board product = (case vendor of
       None \<Rightarrow> []
     | Some v \<Rightarrow> (case dict_get dmi_all_products v of
         None \<Rightarrow> []
       | Some models \<Rightarrow>
          (let primary = (case dict_get (dmi_lookup_table board product) v of
                None \<Rightarrow> None | Some lookup \<Rightarrow> dmi_model models lookup)
           in case primary of
                Some m \<Rightarrow> [(''vendor'', v), (''product'', m)]
              | None \<Rightarrow> (case dmi_model models product of
                  Some m \<Rightarrow> [(''vendor'', v), (''product'', m)]
                | None \<Rightarrow> (case dmi_model models board of
                    Some m \<Rightarrow> [(''vendor'', v), (''product'', m)]
                  | None \<Rightarrow> [])))))"

definition get_dmi_info :: "(string \<Rightarrow> string result) \<Rightarrow> (string, string) dict result" where
  "get_dmi_info fs =
     (case read_file (fs (dmi_file ''sys_vendor'')) of Inl e \<Rightarrow> Inl e | Inr vendor \<Rightarrow>
     (case read_file (fs (dmi_file ''board_name'')) of Inl e \<Rightarrow> Inl e | Inr board \<Rightarrow>
     (case read_file (fs (dmi_file ''product_name'')) of Inl e \<Rightarrow> Inl e | Inr product \<Rightarrow>
        (if vendor = Some ''Valve''
         then (case read_file (fs (dmi_file ''bios_version'')) of
             Inl e \<Rightarrow> Inl e
           | Inr bios \<Rightarrow> Inr ([(''vendor'', ''Valve'')] @ nonempty ''bios'' bios @ nonempty ''product'' product))
         else Inr (dmi_info vendor board product)))))"

section \<open>Lemmas and properties\<close>

text \<open>A key of os-release is its first assignment's value, with white space and, if it begins and
  ends with a quote, the quotes around it removed.\<close>

theorem file_key_first:
  assumes "\<forall>l \<in> set pre. before (CHR ''='') l \<noteq> key \<or> CHR ''='' \<notin> set l" and "CHR ''='' \<notin> set key"
    and "\<forall>c \<in> set v. \<not> is_space c \<and> c \<noteq> CHR 0x22"
  shows "get_file_key key (pre @ (key @ ''='' @ v @ [CHR 0x0A]) # post, err) = Inr (Some v)
    \<and> get_file_key key (pre @ (key @ ''='' @ [CHR 0x22] @ v @ [CHR 0x22, CHR 0x0A]) # post, err) = Inr (Some v)"
proof -
  have skip: "get_file_key key (pre @ ls, err) = get_file_key key (ls, err)" for ls
    using assms(1) by (induction pre) auto
  have nl: "is_space (CHR 0x0A)" "\<not> is_space (CHR 0x22)" by code_simp+
  have d: "dropWhile is_space xs = xs" if "\<forall>c \<in> set xs. \<not> is_space c" for xs
    using that by (metis dropWhile_eq_self_iff hd_in_set)
  have sv: "strip (v @ [CHR 0x0A]) = v"
  proof (cases "v = []")
    case True
    then show ?thesis using nl by (simp add: strip_def lstrip_def rstrip_def)
  next
    case False
    then have "dropWhile is_space (v @ [CHR 0x0A]) = v @ [CHR 0x0A]"
      using assms(3) by (metis append_is_Nil_conv dropWhile_eq_self_iff hd_append hd_in_set)
    with nl d [of "rev v"] assms(3) show ?thesis by (simp add: strip_def lstrip_def rstrip_def)
  qed
  have sq: "strip (CHR 0x22 # v @ [CHR 0x22, CHR 0x0A]) = CHR 0x22 # v @ [CHR 0x22]"
    using nl by (simp add: strip_def lstrip_def rstrip_def)
  have "CHR 0x22 \<notin> set v" using assms(3) by auto
  then have q: "strip_char (CHR 0x22) (CHR 0x22 # v @ [CHR 0x22]) = v" by (rule strip_char_quoted)
  have nq: "\<not> (v \<noteq> [] \<and> hd v = CHR 0x22)" using assms(3) hd_in_set by blast
  then have nq': "\<not> (2 \<le> length v \<and> hd v = last v \<and> last v = CHR 0x22)" by auto
  have "get_file_key key ((key @ ''='' @ v @ [CHR 0x0A]) # post, err) = Inr (Some v)"
    using assms(2) nq' by (simp add: sv) blast
  moreover have "get_file_key key ((key @ ''='' @ [CHR 0x22] @ v @ [CHR 0x22, CHR 0x0A]) # post, err) = Inr (Some v)"
    using assms(2) by (simp add: sq q)
  ultimately show ?thesis by (simp add: skip)
qed

theorem file_key_first_witness:
  "get_file_key ''BUILD_ID'' ([''NAME=SteamOS'' @ [CHR 0x0A]] @ (''BUILD_ID'' @ ''='' @ ''20240101.1'' @ [CHR 0x0A]) # [], None)
     = Inr (Some ''20240101.1'')"
proof -
  have a: "\<forall>l \<in> set [''NAME=SteamOS'' @ [CHR 0x0A]]. before (CHR ''='') l \<noteq> ''BUILD_ID'' \<or> CHR ''='' \<notin> set l"
    by code_simp
  have b: "CHR ''='' \<notin> set ''BUILD_ID''" by simp
  have c: "\<forall>c \<in> set ''20240101.1''. \<not> is_space c \<and> c \<noteq> CHR 0x22" by code_simp
  from file_key_first [OF a b c, of "[]" None] show ?thesis by blast
qed

lemma journal_lines_objects:
  assumes "\<forall>d \<in> set ds. dict_has d ''__CURSOR''"
  shows "journal_lines q (map (Inr o JObj) ds) logs cursor
    = Inr (logs @ filter (journal_wanted q) ds, if ds = [] then cursor else obj_get (last ds) ''__CURSOR'')"
  using assms
  by (induction ds arbitrary: logs cursor) (auto simp: dict_has_def obj_get_def dict_getd_def split: option.splits)

text \<open>The journal reader returns exactly the entries of the unit that pass its filters, in order, and
  the cursor of the last entry read, wanted or not; with no new entry it returns no cursor.\<close>

theorem read_journal_spec:
  assumes "exec (journal_cmd q) = Inr (map (Inr o JObj) ds)" and "\<forall>d \<in> set ds. dict_has d ''__CURSOR''"
  shows "read_journal exec q
    = Inr (Some (filter (journal_wanted q) ds), if ds = [] then JNull else obj_get (last ds) ''__CURSOR'')"
  using assms journal_lines_objects [OF assms(2), of q "[]" JNull] by (simp add: read_journal_def)

definition gpu_query :: jquery where
  "gpu_query = \<lparr>jq_unit = ''a.service'', jq_cursor = None, jq_current_boot = False, jq_start_ago_ms = None,
     jq_uid = None, jq_allow_system = True, jq_allow_user = False\<rparr>"

theorem read_journal_spec_witness:
  "read_journal (\<lambda>cmd. Inr (map (Inr o JObj) [[(''__CURSOR'', JStr ''c1''), (''_SYSTEMD_UNIT'', JStr ''a.service'')],
       [(''__CURSOR'', JStr ''c2'')]])) gpu_query
     = Inr (Some [[(''__CURSOR'', JStr ''c1''), (''_SYSTEMD_UNIT'', JStr ''a.service'')]], JStr ''c2'')"
proof -
  let ?ds = "[[(''__CURSOR'', JStr ''c1''), (''_SYSTEMD_UNIT'', JStr ''a.service'')], [(''__CURSOR'', JStr ''c2'')]]"
  have "\<forall>d \<in> set ?ds. dict_has d ''__CURSOR''" by (simp add: dict_has_def)
  from read_journal_spec [where exec = "\<lambda>cmd. Inr (map (Inr o JObj) ?ds)" and q = gpu_query, OF refl this]
  show ?thesis by (simp add: gpu_query_def journal_wanted_def obj_get_def dict_getd_def)
qed

lemma batched_spec:
  assumes "0 < n"
  shows "concat (batched n xs) = xs \<and> (\<forall>b \<in> set (batched n xs). b \<noteq> [] \<and> length b \<le> n)"
  using assms
proof (induction n xs rule: batched.induct)
  case (1 n xs)
  then show ?case by (subst (1 2) batched.simps) auto
qed

text \<open>The package pairs of an output, and what the lines leave in the table.\<close>

definition line_pairs :: "string list \<Rightarrow> (string \<times> string) list" where
  "line_pairs ls = List.map_filter (\<lambda>l. if strip l = [] then None
     else (case last_two (strip l) of Inl _ \<Rightarrow> None | Inr p \<Rightarrow> Some p)) ls"

definition well_formed_lines :: "string list \<Rightarrow> bool" where
  "well_formed_lines ls = list_all (\<lambda>l. strip l = [] \<or> CHR '' '' \<in> set (strip l)) ls"

lemma split_on_two: "c \<in> set s \<Longrightarrow> \<exists>a b r. split_on c s = a # b # r"
proof (induction s)
  case (Cons x s)
  show ?case
  proof (cases "x = c")
    case True
    then show ?thesis using split_on_not_Nil [of c s] by (cases "split_on c s") auto
  next
    case False
    with Cons obtain a b r where "split_on c s = a # b # r" by auto
    with False show ?thesis by auto
  qed
qed simp

lemma last_two_ok:
  assumes "CHR '' '' \<in> set l"
  shows "\<exists>p. last_two l = Inr p"
proof -
  obtain a b r where "split_on (CHR '' '') l = a # b # r" using split_on_two [OF assms] by blast
  then have "2 \<le> length (rev (split_on (CHR '' '') l))" by simp
  then obtain v n rest where "rev (split_on (CHR '' '') l) = v # n # rest"
    by (metis One_nat_def Suc_1 Suc_le_length_iff)
  then show ?thesis by (simp add: last_two_def)
qed

lemma package_lines_eq:
  "well_formed_lines ls \<Longrightarrow> package_lines ls d = Inr (dict_update d (line_pairs ls))"
proof (induction ls arbitrary: d)
  case Nil
  then show ?case by (simp add: line_pairs_def dict_update_def map_filter_simps)
next
  case (Cons l ls)
  show ?case
  proof (cases "strip l = []")
    case True
    with Cons show ?thesis by (simp add: line_pairs_def map_filter_simps well_formed_lines_def)
  next
    case False
    with Cons.prems obtain n v where "last_two (strip l) = Inr (n, v)"
      using last_two_ok [of "strip l"] by (auto simp: well_formed_lines_def)
    with Cons False show ?thesis
      by (simp add: line_pairs_def map_filter_simps dict_update_def well_formed_lines_def)
  qed
qed

lemma dict_update_append: "dict_update (dict_update d a) b = dict_update d (a @ b)"
  by (simp add: dict_update_def)

lemma batch_packages_eq:
  assumes "\<forall>b \<in> set bs. pacman b = Inr (out b) \<and> well_formed_lines (split_on (CHR 0x0A) (strip (out b)))"
  shows "batch_packages pacman bs d
    = Inr (dict_update d (concat (map (\<lambda>b. line_pairs (split_on (CHR 0x0A) (strip (out b)))) bs)))"
  using assms
  by (induction bs arbitrary: d) (auto simp: package_lines_eq dict_update_append, simp add: dict_update_def)

text \<open>The packages of any number of paths are those of all of them: the paths are passed on in
  consecutive groups of at most 1024, none missing and none twice, and a package is in the result
  exactly when some line of some group's output names it.\<close>

theorem paths_packages_complete:
  assumes "\<forall>b. pacman b = Inr (out b) \<and> well_formed_lines (split_on (CHR 0x0A) (strip (out b)))"
  shows "\<exists>groups d. concat groups = paths \<and> (\<forall>g \<in> set groups. length g \<le> 1024)
    \<and> get_paths_packages pacman paths = Inr d
    \<and> set (dict_keys d) = fst ` set (concat (map (\<lambda>g. line_pairs (split_on (CHR 0x0A) (strip (out g)))) groups))"
proof -
  have b: "concat (batched 1024 paths) = paths" "\<forall>g \<in> set (batched 1024 paths). length g \<le> 1024"
    using batched_spec [of 1024 paths] by auto
  have k: "set (dict_keys (dict_update d e)) = set (dict_keys d) \<union> fst ` set e" for d e :: "(string, string) dict"
    by (induction e arbitrary: d) (auto simp: dict_update_def)
  have e: "set (dict_keys ([] :: (string, string) dict)) = {}" by (simp add: dict_keys_def)
  have "get_paths_packages pacman paths = Inr (dict_update []
      (concat (map (\<lambda>g. line_pairs (split_on (CHR 0x0A) (strip (out g)))) (batched 1024 paths))))"
    unfolding get_paths_packages_def using assms by (intro batch_packages_eq) simp
  with b k e show ?thesis by (metis sup_bot_left)
qed

theorem paths_packages_complete_witness:
  "\<exists>d. get_paths_packages (\<lambda>g. Inr ''/usr/bin/true is owned by coreutils 9.4-1'') [''/usr/bin/true''] = Inr d
     \<and> ''coreutils'' \<in> set (dict_keys d)"
proof -
  let ?l = "''/usr/bin/true is owned by coreutils 9.4-1''"
  have w: "well_formed_lines (split_on (CHR 0x0A) (strip ?l))" by code_simp
  have p: "line_pairs (split_on (CHR 0x0A) (strip ?l)) = [(''coreutils'', ''9.4-1'')]" by code_simp
  have a: "\<forall>b :: string list. Inr ?l = (Inr ((\<lambda>_. ?l) b) :: string result)
      \<and> well_formed_lines (split_on (CHR 0x0A) (strip ((\<lambda>_. ?l) b)))" using w by simp
  from paths_packages_complete [OF a, of "[''/usr/bin/true'']"] obtain groups d where
    "concat groups = [''/usr/bin/true'']" "get_paths_packages (\<lambda>g. Inr ?l) [''/usr/bin/true''] = Inr d"
    "set (dict_keys d) = fst ` set (concat (map (\<lambda>g. line_pairs (split_on (CHR 0x0A) (strip ?l))) groups))"
    by auto
  moreover from this have "groups \<noteq> []" by auto
  ultimately show ?thesis by (cases groups) (auto simp: p)
qed

text \<open>A machine of a known vendor is named from that vendor's table alone, first by the field the
  vendor uses, then by the product name, then by the board name; it goes unnamed exactly when
  neither of its two names is in the table, and an unknown vendor gives nothing.\<close>

theorem dmi_info_spec:
  "case vendor of
     None \<Rightarrow> dmi_info vendor board product = []
   | Some v \<Rightarrow> (case dict_get dmi_all_products v of
       None \<Rightarrow> dmi_info vendor board product = []
     | Some models \<Rightarrow>
        (if dmi_model models product = None \<and> dmi_model models board = None
         then dmi_info vendor board product = []
         else \<exists>name m. (name = product \<or> name = board) \<and> dmi_model models name = Some m
           \<and> dmi_info vendor board product = [(''vendor'', v), (''product'', m)]))"
proof -
  have "lookup = product \<or> lookup = board" if "dict_get (dmi_lookup_table board product) v = Some lookup" for v lookup
    using that by (simp add: dmi_lookup_table_def split: if_splits)
  then have l: "dmi_model models product = Some m \<or> dmi_model models board = Some m"
    if "dict_get (dmi_lookup_table board product) v = Some lookup" "dmi_model models lookup = Some m" for v lookup models m
    using that by blast
  show ?thesis
  proof (cases "\<exists>v models. vendor = Some v \<and> dict_get dmi_all_products v = Some models")
    case True
    then obtain v models where v: "vendor = Some v" "dict_get dmi_all_products v = Some models" by blast
    consider (prim) lookup m where "dict_get (dmi_lookup_table board product) v = Some lookup" "dmi_model models lookup = Some m"
      | (other) "(case dict_get (dmi_lookup_table board product) v of
          None \<Rightarrow> None | Some lookup \<Rightarrow> dmi_model models lookup) = None"
      by (cases "dict_get (dmi_lookup_table board product) v") auto
    then show ?thesis
    proof cases
      case prim
      with l [OF prim] v show ?thesis by (auto simp: dmi_info_def)
    next
      case other
      with v show ?thesis by (auto simp: dmi_info_def split: option.split)
    qed
  qed (auto simp: dmi_info_def split: option.splits)
qed

lemma insert_apps_get:
  "insert_apps apps t = Some t' \<Longrightarrow>
     dict_get t' n = (case map_of (rev (List.map_filter (\<lambda>a. case a of
         JObj d \<Rightarrow> (case (dict_get d ''appid'', dict_get d ''name'') of (Some (JInt n), Some name) \<Rightarrow> Some (n, name) | _ \<Rightarrow> None)
       | _ \<Rightarrow> None) apps)) n of Some name \<Rightarrow> Some name | None \<Rightarrow> dict_get t n)"
proof (induction apps t rule: insert_apps.induct)
  case (2 d apps t)
  then show ?case
    by (auto simp: map_filter_simps map_add_def split: option.splits json.splits if_splits prod.splits)
qed (auto simp: map_filter_simps)

end
