(* ===== verification/Sentry.thy ===== *)
theory Sentry imports Helpers Util_System begin

text \<open>
  \<^verbatim>\<open>steamos_log_submitter/aggregators/sentry.py\<close>: the event a log is turned into, the JSON and the
  envelope made of it, the two requests that send it, and the minidump variant. A URL request's
  outcome is its status code or the exception raised.
\<close>

section \<open>Events\<close>

record attachment =
  at_mime :: "string option"
  at_filename :: "string option"
  at_data :: string

record event =
  ev_id :: string
  ev_dsn :: string
  ev_appid :: json
  ev_attachments :: "attachment list"
  ev_exceptions :: "json list"
  ev_tags :: "(string, json) dict"
  ev_fingerprint :: "string list"
  ev_extra :: "(string, json) dict"
  ev_timestamp :: json
  ev_environment :: "string option"
  ev_message :: json
  ev_os_build :: "string option"
  ev_version :: "string option"
  ev_architecture :: string

text \<open>What the process finds around it: the system's identity, and what \<open>seal\<close> asks for.\<close>

record sentry_env =
  se_uuid :: string
  se_branch :: "string option"
  se_build :: "string option"
  se_version :: "string option"
  se_machine :: string
  se_now :: string                          \<comment> \<open>datetime.now(utc).isoformat()\<close>
  se_app_name :: "json \<Rightarrow> json"              \<comment> \<open>util.get_app_name\<close>
  se_unit_id :: "string option"
  se_dmi :: "(string, string) dict result"
  se_str :: "json \<Rightarrow> string"                 \<comment> \<open>Python's str of a value\<close>

definition sls_version :: string where
  "sls_version = ''0.8.2''"

definition new_event :: "sentry_env \<Rightarrow> string \<Rightarrow> event" where
  "new_event env dsn = \<lparr>ev_id = se_uuid env, ev_dsn = dsn, ev_appid = JNull, ev_attachments = [], ev_exceptions = [],
     ev_tags = [], ev_fingerprint = [], ev_extra = [], ev_timestamp = JNull, ev_environment = se_branch env,
     ev_message = JNull, ev_os_build = (if se_branch env \<noteq> None then se_build env else None),
     ev_version = (if se_branch env \<noteq> None then se_version env else None), ev_architecture = se_machine env\<rparr>"

definition add_attachment :: "attachment \<Rightarrow> event \<Rightarrow> event" where
  "add_attachment a ev = ev\<lparr>ev_attachments := ev_attachments ev @ [a]\<rparr>"

section \<open>seal\<close>

text \<open>An optional string is used when it is neither None nor empty.\<close>

definition set_opt :: "string \<Rightarrow> string option \<Rightarrow> (string, json) dict \<Rightarrow> (string, json) dict" where
  "set_opt k v d = (case v of None \<Rightarrow> d | Some s \<Rightarrow> (if s = [] then d else dict_set d k (JStr s)))"

definition set_truthy :: "string \<Rightarrow> json \<Rightarrow> (string, json) dict \<Rightarrow> (string, json) dict" where
  "set_truthy k v d = (if truthy v then dict_set d k v else d)"

definition init_event :: "sentry_env \<Rightarrow> event \<Rightarrow> (string, json) dict" where
  "init_event env ev = [(''event_id'', JStr (ev_id ev)),
     (''timestamp'', if truthy (ev_timestamp ev) then ev_timestamp ev else JStr (se_now env)),
     (''platform'', JStr ''native'')]"

definition appid_mark :: "sentry_env \<Rightarrow> event \<Rightarrow> string" where
  "appid_mark env ev = ''appid:'' @ se_str env (ev_appid ev)"

definition sealed_fingerprint :: "sentry_env \<Rightarrow> event \<Rightarrow> string list" where
  "sealed_fingerprint env ev =
     (if ev_appid ev \<noteq> JNull \<and> appid_mark env ev \<notin> set (ev_fingerprint ev)
      then ev_fingerprint ev @ [appid_mark env ev] else ev_fingerprint ev)"

definition sealed_extra :: "sentry_env \<Rightarrow> event \<Rightarrow> (string, json) dict" where
  "sealed_extra env ev =
     (let x = dict_set (ev_extra ev) ''sls.version'' (JStr sls_version)
      in if ev_appid ev \<noteq> JNull then dict_set x ''app.name'' (se_app_name env (ev_appid ev)) else x)"

definition sealed_tags :: "sentry_env \<Rightarrow> event \<Rightarrow> (string, json) dict result" where
  "sealed_tags env ev =
     (let t0 = (if ev_appid ev \<noteq> JNull then dict_set (ev_tags ev) ''appid'' (ev_appid ev) else ev_tags ev);
          t1 = dict_set t0 ''architecture'' (JStr (ev_architecture ev));
          t2 = set_opt ''os_build'' (ev_os_build ev) t1;
          t3 = set_opt ''unit_id'' (se_unit_id env) t2
      in case se_dmi env of
           Inl e \<Rightarrow> (if is_OSError e then Inr t3 else Inl e)
         | Inr info \<Rightarrow> Inr (case dict_get info ''product'' of None \<Rightarrow> t3 | Some p \<Rightarrow> dict_set t3 ''product'' (JStr p)))"

definition user_part :: "sentry_env \<Rightarrow> (string, json) dict \<Rightarrow> (string, json) dict" where
  "user_part env d = (case se_unit_id env of
       None \<Rightarrow> d | Some u \<Rightarrow> (if u = [] then d else dict_set d ''user'' (JObj [(''id'', JStr u)])))"

text \<open>The event proper, from what \<open>_initialize\<close> left in it.\<close>

definition sealed_event :: "sentry_env \<Rightarrow> (string, json) dict \<Rightarrow> event \<Rightarrow> (string, json) dict result" where
  "sealed_event env start ev = (case sealed_tags env ev of
       Inl e \<Rightarrow> Inl e
     | Inr tags \<Rightarrow>
        (let d1 = set_opt ''release'' (ev_version ev) start;
             d2 = set_truthy ''message'' (ev_message ev) d1;
             d3 = set_opt ''environment'' (ev_environment ev) d2;
             d4 = user_part env d3;
             d5 = set_truthy ''tags'' (JObj tags) d4;
             d6 = set_truthy ''fingerprint'' (JList (map JStr (sealed_fingerprint env ev))) d5;
             d7 = set_truthy ''extra'' (JObj (sealed_extra env ev)) d6
         in Inr (if ev_exceptions ev \<noteq> []
                 then dict_set d7 ''exception'' (JObj [(''values'', JList (ev_exceptions ev))]) else d7)))"

text \<open>The envelope: its header and the items, or None when nothing was written to it.\<close>

definition attachment_item :: "attachment \<Rightarrow> (string, json) dict \<times> string" where
  "attachment_item a =
     ([(''type'', JStr ''attachment''), (''length'', JInt (int (length (at_data a))))]
      @ (case at_mime a of None \<Rightarrow> [] | Some m \<Rightarrow> [(''content_type'', JStr m)])
      @ (case at_filename a of None \<Rightarrow> [] | Some f \<Rightarrow> [(''filename'', JStr f)]), at_data a)"

type_synonym envelope = "(string, json) dict \<times> ((string, json) dict \<times> string) list"

definition sealed_envelope :: "sentry_env \<Rightarrow> event \<Rightarrow> envelope option" where
  "sealed_envelope env ev =
     (if ev_attachments ev = [] then None
      else Some ([(''dsn'', JStr (ev_dsn ev)), (''event_id'', JStr (ev_id ev)), (''sent_at'', JStr (se_now env))],
                 map attachment_item (ev_attachments ev)))"

definition seal :: "sentry_env \<Rightarrow> event \<Rightarrow> ((string, json) dict \<times> envelope option) result" where
  "seal env ev = (case sealed_event env (init_event env ev) ev of
       Inl e \<Rightarrow> Inl e | Inr d \<Rightarrow> Inr (d, sealed_envelope env ev))"

section \<open>send\<close>

text \<open>
  \<^verbatim>\<open>urlparse(dsn)._replace(path=...).geturl()\<close> for a DSN \<^verbatim>\<open>scheme://host/path\<close>: what stands before the
  path, the path, and what follows it (from a question or number sign, or a semicolon in the last
  segment).
\<close>

definition url_parts :: "string \<Rightarrow> string \<times> string \<times> string" where
  "url_parts dsn =
     (let scheme = py_lower (before (CHR '':'') dsn) @ ''://'';
          rest = drop (length scheme) dsn;
          host = takeWhile (\<lambda>c. c \<notin> set ''/?#'') rest;
          tail = dropWhile (\<lambda>c. c \<notin> set ''/?#'') rest;
          path0 = takeWhile (\<lambda>c. c \<notin> set ''?#'') tail;
          query = dropWhile (\<lambda>c. c \<notin> set ''?#'') tail;
          seg = last_part (CHR ''/'') path0;
          path = take (length path0 - length seg) path0 @ takeWhile (\<lambda>c. c \<noteq> CHR '';'') seg;
          params = dropWhile (\<lambda>c. c \<noteq> CHR '';'') seg
      in (scheme @ host, path, params @ query))"

definition endpoint :: "string \<Rightarrow> string \<Rightarrow> string" where
  "endpoint dsn kind = (case url_parts dsn of (pre, path, post) \<Rightarrow> pre @ ''/api'' @ path @ ''/'' @ kind @ ''/'' @ post)"

text \<open>A request: the event to the store, or the envelope.\<close>

datatype request = StoreEvent string "(string, json) dict" | SendEnvelope string envelope

type_synonym http = "request \<Rightarrow> int result"

definition send :: "sentry_env \<Rightarrow> http \<Rightarrow> event \<Rightarrow> hresult result \<times> request list" where
  "send env http ev = (case seal env ev of
       Inl e \<Rightarrow> (Inl e, [])
     | Inr (d, envelope) \<Rightarrow>
        (let store = StoreEvent (endpoint (ev_dsn ev) ''store'') d in
         case http store of
           Inl e \<Rightarrow> (if e = NetworkError then Inr TRANSIENT_ERROR else Inl e, [store])
         | Inr status \<Rightarrow>
            (if status = 413 then (Inr PERMANENT_ERROR, [store])
             else if status \<noteq> 200 then (Inr TRANSIENT_ERROR, [store])
             else (case envelope of
                 None \<Rightarrow> (Inr OK, [store])
               | Some env' \<Rightarrow>
                  (let post = SendEnvelope (endpoint (ev_dsn ev) ''envelope'') env' in
                   case http post of
                     Inl e \<Rightarrow> (if e = NetworkError then Inr TRANSIENT_ERROR else Inl e, [store, post])
                   | Inr status2 \<Rightarrow>
                      (if status2 \<noteq> 200 then (Inr TRANSIENT_ERROR, [store, post])
                       else (Inr OK, [store, post])))))))"

section \<open>MinidumpEvent\<close>

text \<open>The answer to the upload: status and body, parsed when asked for.\<close>

definition send_minidump :: "sentry_env \<Rightarrow> ((string, json) dict \<Rightarrow> (int \<times> json result) result) \<Rightarrow> event
    \<Rightarrow> bool result" where
  "send_minidump env upload ev = (case sealed_event env [] ev of
       Inl e \<Rightarrow> Inl e
     | Inr d \<Rightarrow> (case upload d of
         Inl e \<Rightarrow> (if e = NetworkError then Inr False else Inl e)
       | Inr (status, body) \<Rightarrow>
          (if status = 200 then Inr True
           else if status = 400
             then (case body of
                 Inl e \<Rightarrow> (if e = JSONDecodeError then Inr False else Inl e)
               | Inr (JObj reply) \<Rightarrow> (if dict_get reply ''detail'' = Some (JStr ''invalid minidump'') then Inl ValueError else Inr False)
               | Inr _ \<Rightarrow> Inl AttributeError)
             else Inr False)))"

section \<open>Properties\<close>

text \<open>A submission counts as OK only when everything arrived: the store answered 200 to the event and,
  if the event has attachments, the envelope holding every one of them, in order and each with its
  true length, was answered 200 too. It is given up for good only when the store answered 413, and
  the envelope is never sent unless the store took the event.\<close>

theorem send_spec:
  "case send env http ev of (r, reqs) \<Rightarrow>
     (r = Inr OK \<longleftrightarrow> (\<exists>d envelope. seal env ev = Inr (d, envelope)
        \<and> http (StoreEvent (endpoint (ev_dsn ev) ''store'') d) = Inr 200
        \<and> (case envelope of
             None \<Rightarrow> ev_attachments ev = [] \<and> reqs = [StoreEvent (endpoint (ev_dsn ev) ''store'') d]
           | Some e \<Rightarrow> http (SendEnvelope (endpoint (ev_dsn ev) ''envelope'') e) = Inr 200
              \<and> map snd (snd e) = map at_data (ev_attachments ev)
              \<and> map (\<lambda>(i, x). dict_get i ''length'') (snd e) = map (\<lambda>a. Some (JInt (int (length (at_data a))))) (ev_attachments ev)
              \<and> reqs = [StoreEvent (endpoint (ev_dsn ev) ''store'') d, SendEnvelope (endpoint (ev_dsn ev) ''envelope'') e])))
     \<and> (r = Inr PERMANENT_ERROR \<longleftrightarrow> (\<exists>d. reqs = [StoreEvent (endpoint (ev_dsn ev) ''store'') d]
          \<and> http (StoreEvent (endpoint (ev_dsn ev) ''store'') d) = Inr 413))"
proof (cases "seal env ev")
  case (Inl e)
  then show ?thesis by (simp add: send_def)
next
  case (Inr p)
  obtain d envelope where p: "p = (d, envelope)" by fastforce
  have s: "seal env ev = Inr (d, envelope)" using Inr p by simp
  then have e: "envelope = sealed_envelope env ev" by (auto simp: seal_def split: sum.splits)
  have a: "map snd (map attachment_item as) = map at_data as"
    "map (\<lambda>(i, x). dict_get i ''length'') (map attachment_item as) = map (\<lambda>a. Some (JInt (int (length (at_data a))))) as" for as
    by (simp_all add: attachment_item_def)
  show ?thesis
  proof (cases envelope)
    case None
    then have "ev_attachments ev = []" using e by (auto simp: sealed_envelope_def split: if_splits)
    with None s show ?thesis by (auto simp: send_def Let_def split: sum.splits)
  next
    case (Some env')
    then have "snd env' = map attachment_item (ev_attachments ev)"
      using e by (auto simp: sealed_envelope_def split: if_splits)
    with Some s a show ?thesis by (auto simp: send_def Let_def split: sum.splits)
  qed
qed

end
