(* ===== verification/Minidump.thy ===== *)
theory Minidump imports Sentry begin

text \<open>
  \<^verbatim>\<open>helpers/minidump.py\<close>: what a crash dump is annotated with before it is uploaded, the removal of
  the user's name and home directory from the environment it carries, and its submission. The dump's
  streams are what the parser found before it stopped.
\<close>

section \<open>sanitize\_environ\<close>

definition replace_values :: "string \<Rightarrow> string \<Rightarrow> (string, string) dict \<Rightarrow> (string, string) dict" where
  "replace_values old new env = map (\<lambda>(k, v). (k, py_replace old new v)) env"

definition sanitize_environ :: "(string, string) dict \<Rightarrow> (string, string) dict" where
  "sanitize_environ env0 =
     (let env1 = dict_del env0 ''SteamAppUser'';
          home = dict_getd env1 ''HOME'' []; user = dict_getd env1 ''USER'' [];
          env2 = (if home \<noteq> [] then replace_values home ''${HOME}'' (dict_del env1 ''HOME'') else env1)
      in if user \<noteq> [] then replace_values user ''${USER}'' (dict_del env2 ''USER'') else env2)"

section \<open>The streams\<close>

definition stream_cmd_line :: int where "stream_cmd_line = 0x47670006"
definition stream_environ :: int where "stream_environ = 0x47670007"
definition stream_maps :: int where "stream_maps = 0x47670009"

text \<open>Variables of the block of NUL-terminated assignments; one without an equals sign is skipped.\<close>

definition environ_of :: "(string \<Rightarrow> string) \<Rightarrow> string \<Rightarrow> (string, string) dict" where
  "environ_of decode raw = fold (\<lambda>kv d. dict_set d (decode (before (CHR ''='') kv)) (decode (after (CHR ''='') kv)))
     (filter (\<lambda>kv. kv \<noteq> [] \<and> CHR ''='' \<in> set kv) (split_on (CHR 0x00) raw)) []"

text \<open>\<^verbatim>\<open>line.split(maxsplit=5)\<close>: the sixth field of a line of maps, with its inner blanks.\<close>

fun skip_fields :: "nat \<Rightarrow> string \<Rightarrow> string option" where
  "skip_fields 0 s = (case dropWhile is_space s of [] \<Rightarrow> None | t \<Rightarrow> Some (rstrip t))"
| "skip_fields (Suc n) s = (case dropWhile is_space s of
       [] \<Rightarrow> None | t \<Rightarrow> skip_fields n (dropWhile (\<lambda>c. \<not> is_space c) t))"

definition mapped_files :: "string \<Rightarrow> string list" where
  "mapped_files maps = List.map_filter (skip_fields 5) (split_on (CHR 0x0A) maps)"

definition add_stream :: "(string \<Rightarrow> string) \<Rightarrow> (string list \<Rightarrow> (string, string) dict result)
    \<Rightarrow> int \<times> string \<Rightarrow> event \<Rightarrow> event result" where
  "add_stream decode packages_of st ev = (case st of (type_value, raw) \<Rightarrow>
     (if type_value = stream_cmd_line
      then Inr (ev\<lparr>ev_extra := dict_set (ev_extra ev) ''cmdline''
             (JList (map (JStr o decode) (split_on (CHR 0x00) raw)))\<rparr>)
      else if type_value = stream_environ
      then (if raw = [] then Inr ev
            else Inr (ev\<lparr>ev_extra := dict_set (ev_extra ev) ''environ''
                   (JObj (map (\<lambda>(k, v). (k, JStr v)) (sanitize_environ (environ_of decode raw))))\<rparr>))
      else if type_value = stream_maps
      then (case packages_of (mapped_files (decode raw)) of
          Inl e \<Rightarrow> Inl e
        | Inr ps \<Rightarrow> Inr (if ps = [] then ev
            else ev\<lparr>ev_extra := dict_set (ev_extra ev) ''packages'' (JObj (map (\<lambda>(k, v). (k, JStr v)) ps))\<rparr>))
      else Inr ev))"

text \<open>
  The streams read, and the exception that ended the reading, if any. The parser's own exceptions are
  logged (argument \<open>parse_error\<close>), with what was read before kept.
\<close>

fun add_streams :: "(string \<Rightarrow> string) \<Rightarrow> (string list \<Rightarrow> (string, string) dict result) \<Rightarrow> (exn \<Rightarrow> bool)
    \<Rightarrow> (int \<times> string) list \<Rightarrow> exn option \<Rightarrow> event \<Rightarrow> event result" where
  "add_streams decode packages_of parse_error [] err ev =
     (case err of None \<Rightarrow> Inr ev | Some e \<Rightarrow> (if parse_error e then Inr ev else Inl e))"
| "add_streams decode packages_of parse_error (st # sts) err ev = (case add_stream decode packages_of st ev of
       Inl e \<Rightarrow> (if parse_error e then Inr ev else Inl e)
     | Inr ev' \<Rightarrow> add_streams decode packages_of parse_error sts err ev')"

section \<open>submit\<close>

definition minidump_attrs :: "string list" where
  "minidump_attrs = [''executable'', ''comm'', ''path'', ''build_id'', ''pkgname'', ''pkgver'']"

text \<open>The extended attributes: a value, or None for an OSError, which is logged.\<close>

definition add_xattrs :: "(string \<Rightarrow> string option) \<Rightarrow> event \<Rightarrow> event" where
  "add_xattrs xattr ev = fold (\<lambda>a ev. case xattr (''user.'' @ a) of
       None \<Rightarrow> ev | Some v \<Rightarrow> ev\<lparr>ev_tags := dict_set (ev_tags ev) a (JStr v)\<rparr>) minidump_attrs ev"

definition minidump_appid :: "string \<Rightarrow> json" where
  "minidump_appid fname = (case py_int (last_part (CHR ''-'') (fst (splitext (basename fname)))) of
       None \<Rightarrow> JNull | Some n \<Rightarrow> JInt n)"

definition minidump_event :: "sentry_env \<Rightarrow> string \<Rightarrow> string \<Rightarrow> (string \<Rightarrow> string option) \<Rightarrow> event" where
  "minidump_event env dsn fname xattr =
     add_xattrs xattr ((new_event env dsn)\<lparr>ev_appid := minidump_appid fname\<rparr>)"

text \<open>
  \<open>dsn\<close> is the configuration's entry, \<open>file\<close> the dump itself when it is opened for the upload.
\<close>

definition minidump_submit :: "sentry_env \<Rightarrow> (string \<Rightarrow> string) \<Rightarrow> (string list \<Rightarrow> (string, string) dict result)
    \<Rightarrow> (exn \<Rightarrow> bool) \<Rightarrow> string result \<Rightarrow> string \<Rightarrow> (string \<Rightarrow> string option) \<Rightarrow> (int \<times> string) list \<Rightarrow> exn option
    \<Rightarrow> string result \<Rightarrow> (string \<Rightarrow> (string, json) dict \<Rightarrow> (int \<times> json result) result) \<Rightarrow> hresult result" where
  "minidump_submit env decode packages_of parse_error dsn fname xattr streams err file upload =
     (case dsn of Inl e \<Rightarrow> Inl e | Inr url \<Rightarrow>
     (case add_streams decode packages_of parse_error streams err (minidump_event env url fname xattr) of
        Inl e \<Rightarrow> Inl e
      | Inr ev \<Rightarrow>
         (case (case file of Inl e \<Rightarrow> Inl e | Inr dump \<Rightarrow> send_minidump env (upload dump) ev) of
            Inl e \<Rightarrow> (if is_ValueError e then Inr PERMANENT_ERROR else Inl e)
          | Inr ok \<Rightarrow> check ok 0 (- 1))))"

section \<open>Nothing of the user's is left\<close>

text \<open>
  A word that does not contain the first and the last character of the text it is replaced by, and is
  no part of what stands between them, is gone after the replacement; and a word of that kind that
  was absent does not come in by another replacement.
\<close>

definition foreign :: "string \<Rightarrow> string \<Rightarrow> bool" where
  "foreign new x = (new \<noteq> [] \<and> hd new \<notin> set x \<and> last new \<notin> set x \<and> x \<noteq> [] \<and> \<not> sublist x new)"

lemma prefix_replace:
  "new \<noteq> [] \<Longrightarrow> hd new \<notin> set x \<Longrightarrow> prefix x (py_replace old new s) \<Longrightarrow> prefix x s"
proof (induction old new s arbitrary: x rule: py_replace.induct)
  case (1 old new)
  then show ?case by simp
next
  case (2 old new c cs)
  show ?case
  proof (cases "old \<noteq> [] \<and> prefix old (c # cs)")
    case True
    with 2(4,5) 2(3) show ?thesis by (cases x; cases new) auto
  next
    case False
    then have e: "py_replace old new (c # cs) = c # py_replace old new cs" by auto
    show ?thesis
    proof (cases x)
      case (Cons d ds)
      with e 2(5) have "d = c" "prefix ds (py_replace old new cs)" by auto
      moreover have "hd new \<notin> set ds" using 2(4) Cons by simp
      ultimately show ?thesis using 2(2) [OF False 2(3)] Cons by simp
    qed simp
  qed
qed

lemma foreign_append:
  assumes "foreign new x"
  shows "sublist x (new @ t) \<longleftrightarrow> sublist x t"
proof
  assume "sublist x (new @ t)"
  then consider "sublist x new" | "sublist x t" | xs1 xs2 where "x = xs1 @ xs2" "suffix xs1 new" "prefix xs2 t"
    by (auto simp: sublist_append)
  then show "sublist x t"
  proof cases
    case 1
    with assms show ?thesis by (simp add: foreign_def)
  next
    case 3
    have "xs1 = []"
    proof (rule ccontr)
      assume ne: "xs1 \<noteq> []"
      with 3(2) have "last new \<in> set xs1" by (metis last_appendR last_in_set suffixE)
      with 3(1) assms show False by (simp add: foreign_def)
    qed
    with 3 show ?thesis by (simp add: prefix_imp_sublist)
  qed simp
next
  show "sublist x t \<Longrightarrow> sublist x (new @ t)" by (simp add: sublist_append)
qed

lemma replace_keeps_absent:
  "foreign new x \<Longrightarrow> \<not> sublist x s \<Longrightarrow> \<not> sublist x (py_replace old new s)"
proof (induction old new s rule: py_replace.induct)
  case (1 old new)
  then show ?case by simp
next
  case (2 old new c cs)
  have f: "new \<noteq> []" "hd new \<notin> set x" using 2(3) by (auto simp: foreign_def)
  show ?case
  proof (cases "old \<noteq> [] \<and> prefix old (c # cs)")
    case True
    have "\<not> sublist x (drop (length old) (c # cs))"
      using 2(4) by (meson sublist_drop sublist_order.order.trans)
    with 2(1) [OF True 2(3)] True foreign_append [OF 2(3)] show ?thesis by simp
  next
    case False
    have p: "\<not> prefix x (c # cs)" using 2(4) prefix_imp_sublist by blast
    have "\<not> sublist x cs" using 2(4) by (simp add: sublist_Cons_right)
    with 2(2) [OF False 2(3)] have t: "\<not> sublist x (py_replace old new cs)" .
    have e: "py_replace old new (c # cs) = c # py_replace old new cs" using False by auto
    have "\<not> prefix x (c # py_replace old new cs)"
      using p prefix_replace [OF f, of old "c # cs"] unfolding e by blast
    with t e show ?thesis by (simp add: sublist_Cons_right)
  qed
qed

lemma replace_removes: "foreign new old \<Longrightarrow> \<not> sublist old (py_replace old new s)"
proof (induction old new s rule: py_replace.induct)
  case (1 old new)
  then show ?case by (simp add: foreign_def)
next
  case (2 old new c cs)
  have f: "new \<noteq> []" "hd new \<notin> set old" "old \<noteq> []" using 2(3) by (auto simp: foreign_def)
  show ?case
  proof (cases "old \<noteq> [] \<and> prefix old (c # cs)")
    case True
    with 2(1) [OF True 2(3)] foreign_append [OF 2(3)] show ?thesis by simp
  next
    case False
    then have p: "\<not> prefix old (c # cs)" using f by simp
    have e: "py_replace old new (c # cs) = c # py_replace old new cs" using False by auto
    have "\<not> prefix old (c # py_replace old new cs)"
      using p prefix_replace [OF f(1,2), of old "c # cs"] unfolding e by blast
    with 2(2) [OF False 2(3)] e show ?thesis by (simp add: sublist_Cons_right)
  qed
qed

text \<open>C9. The environment attached to a crash report names neither the user nor the home directory: after
  sanitizing, the variables SteamAppUser, HOME and USER are gone, and no remaining value contains
  the home directory or the user name anywhere. (The two are as they are on a real system: the home
  directory starts with a slash, and neither holds a dollar sign, a closing brace or is part of the
  placeholders.)\<close>

theorem sanitized_environ_is_anonymous:
  assumes "dict_get env ''HOME'' = Some home" and "dict_get env ''USER'' = Some user"
    and "foreign ''${HOME}'' home" and "foreign ''${USER}'' home" and "foreign ''${USER}'' user"
  shows "dict_get (sanitize_environ env) ''SteamAppUser'' = None \<and> dict_get (sanitize_environ env) ''HOME'' = None
    \<and> dict_get (sanitize_environ env) ''USER'' = None
    \<and> (\<forall>(k, v) \<in> set (sanitize_environ env). \<not> sublist home v \<and> \<not> sublist user v)"
proof -
  let ?e1 = "dict_del env ''SteamAppUser''"
  let ?e2 = "replace_values home ''${HOME}'' (dict_del ?e1 ''HOME'')"
  let ?e3 = "replace_values user ''${USER}'' (dict_del ?e2 ''USER'')"
  have ne: "home \<noteq> []" "user \<noteq> []" using assms by (auto simp: foreign_def)
  have g: "dict_get (replace_values a b e) k = map_option (py_replace a b) (dict_get e k)" for a b e k
    by (induction e) (auto simp: replace_values_def dict_get_def)
  have s: "sanitize_environ env = ?e3"
    using ne assms(1,2) by (simp add: sanitize_environ_def dict_getd_def g)
  have no: "\<not> sublist home (py_replace user ''${USER}'' (py_replace home ''${HOME}'' v))"
    "\<not> sublist user (py_replace user ''${USER}'' v)" for v
    using replace_keeps_absent [OF assms(4) replace_removes [OF assms(3)]] replace_removes [OF assms(5)] by auto
  have sub: "set (dict_del d k) \<subseteq> set d" for d :: "(string, string) dict" and k
    by (auto simp: dict_del_def AList.delete_eq)
  have "\<not> sublist home v \<and> \<not> sublist user v" if kv: "(k, v) \<in> set ?e3" for k v
  proof -
    have r: "(k, v) \<in> set (replace_values a b e) \<longleftrightarrow> (\<exists>w. (k, w) \<in> set e \<and> v = py_replace a b w)" for k v a b e
      by (auto simp: replace_values_def)
    from kv obtain w where w: "(k, w) \<in> set (dict_del ?e2 ''USER'')" "v = py_replace user ''${USER}'' w"
      unfolding r by blast
    then have "(k, w) \<in> set ?e2" using sub by blast
    then obtain u where "w = py_replace home ''${HOME}'' u" unfolding r by blast
    with w no show ?thesis by simp
  qed
  then show ?thesis by (auto simp: s g)
qed

definition sample_environ :: "(string, string) dict" where
  "sample_environ = [(''PATH'', ''/usr/bin:/home/deck/bin''), (''HOME'', ''/home/deck''), (''USER'', ''deck''),
     (''SteamAppUser'', ''gabe''), (''MAIL'', ''/var/mail/deck'')]"

theorem sanitized_environ_is_anonymous_witness:
  "sanitize_environ sample_environ = [(''PATH'', ''/usr/bin:${HOME}/bin''), (''MAIL'', ''/var/mail/${USER}'')]
   \<and> dict_get (sanitize_environ sample_environ) ''USER'' = None"
proof -
  have "dict_get sample_environ ''HOME'' = Some ''/home/deck''" "dict_get sample_environ ''USER'' = Some ''deck''"
    "foreign ''${HOME}'' ''/home/deck''" "foreign ''${USER}'' ''/home/deck''" "foreign ''${USER}'' ''deck''"
    by code_simp+
  from sanitized_environ_is_anonymous [OF this]
  have "dict_get (sanitize_environ sample_environ) ''USER'' = None" by simp
  moreover have "sanitize_environ sample_environ = [(''PATH'', ''/usr/bin:${HOME}/bin''), (''MAIL'', ''/var/mail/${USER}'')]"
    by code_simp
  ultimately show ?thesis by simp
qed

end
