(* ===== verification/Submits.thy ===== *)
theory Submits imports Sentry begin

text \<open>
  The submissions of the GPU, device core dump, early OOM and system report helpers
  (\<^verbatim>\<open>helpers/gpu.py\<close>, \<^verbatim>\<open>devcoredump.py\<close>, \<^verbatim>\<open>earlyoom.py\<close>, \<^verbatim>\<open>sysreport.py\<close>): how a log becomes an event, and which
  failures count as temporary or permanent. A log is its bytes and, for the archives, the members
  \<^verbatim>\<open>zipfile\<close> finds in it; decoding and parsing of bytes are arguments.
\<close>

section \<open>Common parts\<close>

text \<open>What a submission comes to before anything is sent: a result (or exception), or an event.\<close>

datatype prepared = Done "hresult result" | Send event

definition finish :: "sentry_env \<Rightarrow> http \<Rightarrow> prepared \<Rightarrow> hresult result \<times> request list" where
  "finish env http p = (case p of Done r \<Rightarrow> (r, []) | Send ev \<Rightarrow> send env http ev)"

record logs_env =
  le_sentry :: sentry_env
  le_loads :: "string \<Rightarrow> json result"          \<comment> \<open>json.loads(x.decode()): JSONDecodeError, or ValueError for the decoding\<close>
  le_float :: "string \<Rightarrow> int option"           \<comment> \<open>float(s) in units of 1e-9\<close>

type_synonym zip = "(string, string) dict result"   \<comment> \<open>ZipFile(fname): members\<close>

definition zip_read :: "zip \<Rightarrow> string \<Rightarrow> string result" where
  "zip_read z name = (case z of Inl e \<Rightarrow> Inl e | Inr ms \<Rightarrow>
     (case dict_get ms name of None \<Rightarrow> Inl (KeyError name) | Some d \<Rightarrow> Inr d))"

text \<open>\<^verbatim>\<open>float(v)\<close> and \<^verbatim>\<open>int(v)\<close> of a parsed value, None for a ValueError or TypeError.\<close>

definition json_float :: "logs_env \<Rightarrow> json \<Rightarrow> int option" where
  "json_float le v = (case v of
       JInt n \<Rightarrow> Some (n * 1000000000) | JFloat f \<Rightarrow> Some f | JBool b \<Rightarrow> Some (if b then 1000000000 else 0)
     | JStr s \<Rightarrow> le_float le s | _ \<Rightarrow> None)"

definition json_int :: "json \<Rightarrow> int option" where
  "json_int v = (case v of
       JInt n \<Rightarrow> Some n
     | JFloat f \<Rightarrow> Some (if 0 \<le> f then f div 1000000000 else - (- f div 1000000000))
     | JBool b \<Rightarrow> Some (if b then 1 else 0) | JStr s \<Rightarrow> py_int s | _ \<Rightarrow> None)"

text \<open>\<^verbatim>\<open>'key' in log\<close> followed by \<^verbatim>\<open>log.get\<close> on a value that is not an object.\<close>

definition not_a_dict :: "json \<Rightarrow> exn" where
  "not_a_dict v = (case v of JList _ \<Rightarrow> AttributeError | JStr _ \<Rightarrow> AttributeError | _ \<Rightarrow> TypeError)"

definition zip_attachment :: "string \<Rightarrow> string \<Rightarrow> attachment" where
  "zip_attachment name bytes = \<lparr>at_mime = Some ''application/zip'', at_filename = Some name, at_data = bytes\<rparr>"

definition json_attachment :: "string \<Rightarrow> string \<Rightarrow> attachment" where
  "json_attachment name bytes = \<lparr>at_mime = Some ''application/json'', at_filename = Some name, at_data = bytes\<rparr>"

section \<open>GPU resets\<close>

definition gpu_message :: "(json \<Rightarrow> string) \<Rightarrow> json \<Rightarrow> json \<Rightarrow> json \<Rightarrow> string" where
  "gpu_message str appid exe comm =
     (if appid \<noteq> JNull then ''GPU reset ('' @ str appid @ '')''
      else if truthy exe then ''GPU reset ('' @ str exe @ '')''
      else if truthy comm then ''GPU reset ('' @ str comm @ '')''
      else ''GPU reset'')"

definition gpu_prepare :: "logs_env \<Rightarrow> string result \<Rightarrow> string \<Rightarrow> zip \<Rightarrow> string result \<Rightarrow> prepared" where
  "gpu_prepare le dsn fname z file = (case dsn of Inl e \<Rightarrow> Done (Inl e) | Inr url \<Rightarrow>
     (case (case zip_read z ''metadata.json'' of Inl e \<Rightarrow> Inl e | Inr m \<Rightarrow>
              (case file of Inl e \<Rightarrow> Inl e | Inr bytes \<Rightarrow> Inr (m, bytes))) of
        Inl e \<Rightarrow> Done (if e = BadZipFile then Inr PERMANENT_ERROR
                       else if is_OSError e then Inr TRANSIENT_ERROR else Inl e)
      | Inr (metadata, bytes) \<Rightarrow>
         (case le_loads le metadata of
            Inl e \<Rightarrow> Done (if e = JSONDecodeError then Inr PERMANENT_ERROR else Inl e)
          | Inr (JObj log) \<Rightarrow>
             (let str = se_str (le_sentry le);
                  ts = (case dict_get log ''timestamp'' of None \<Rightarrow> JNull
                        | Some v \<Rightarrow> (case json_float le v of None \<Rightarrow> JNull | Some f \<Rightarrow> JFloat f));
                  appid = (case dict_get log ''appid'' of None \<Rightarrow> JNull
                        | Some v \<Rightarrow> (case json_int v of None \<Rightarrow> JNull | Some n \<Rightarrow> JInt n));
                  exe = obj_get log ''executable''; comm = obj_get log ''comm'';
                  kernel = obj_get log ''kernel''; mesa = obj_get log ''mesa'';
                  ev = new_event (le_sentry le) url;
                  pick = [(''executable'', exe, truthy exe), (''comm'', comm, truthy comm),
                          (''kernel'', kernel, kernel \<noteq> JNull), (''mesa'', mesa, truthy mesa)];
                  used = filter (\<lambda>(k, v, b). b) pick
              in Send (ev\<lparr>ev_attachments := [json_attachment ''metadata.json'' metadata,
                            zip_attachment (basename fname) bytes],
                          ev_appid := appid, ev_timestamp := ts,
                          ev_tags := map (\<lambda>(k, v, b). (k, v)) used,
                          ev_fingerprint := map (\<lambda>(k, v, b). k @ '':'' @ str v) used,
                          ev_message := JStr (gpu_message str appid exe comm)\<rparr>))
          | Inr v \<Rightarrow> Done (Inl (not_a_dict v)))))"

definition gpu_submit :: "logs_env \<Rightarrow> http \<Rightarrow> string result \<Rightarrow> string \<Rightarrow> zip \<Rightarrow> string result
    \<Rightarrow> hresult result \<times> request list" where
  "gpu_submit le http dsn fname z file = finish (le_sentry le) http (gpu_prepare le dsn fname z file)"

section \<open>Device core dumps\<close>

definition devcoredump_message :: "(json \<Rightarrow> string) \<Rightarrow> json option \<Rightarrow> json option \<Rightarrow> string" where
  "devcoredump_message str driver device = (case (driver, device) of
       (Some d, Some f) \<Rightarrow> str d @ '': '' @ str f
     | (None, Some f) \<Rightarrow> str f
     | (Some d, None) \<Rightarrow> str d
     | (None, None) \<Rightarrow> ''Unknown device'')"

text \<open>The keys the metadata is asked for; a list or text that has one of them fails at the subscript.\<close>

definition devcoredump_keys :: "string list" where
  "devcoredump_keys = [''timestamp'', ''kernel'', ''branch'', ''failing_device'', ''driver'']"

definition devcoredump_fields :: "json \<Rightarrow> (string, json) dict result" where
  "devcoredump_fields v = (case v of
       JObj d \<Rightarrow> Inr d
     | JList xs \<Rightarrow> (if list_ex (\<lambda>k. JStr k \<in> set xs) devcoredump_keys then Inl TypeError else Inr [])
     | JStr s \<Rightarrow> (if list_ex (\<lambda>k. sublist k s) devcoredump_keys then Inl TypeError else Inr [])
     | _ \<Rightarrow> Inl TypeError)"

definition devcoredump_prepare :: "logs_env \<Rightarrow> string result \<Rightarrow> string \<Rightarrow> zip \<Rightarrow> string result \<Rightarrow> prepared" where
  "devcoredump_prepare le dsn fname z file = (case dsn of Inl e \<Rightarrow> Done (Inl e) | Inr url \<Rightarrow>
     (case (case file of Inl e \<Rightarrow> Inl e | Inr bytes \<Rightarrow>
              (case zip_read z ''metadata.json'' of Inl e \<Rightarrow> Inl e | Inr m \<Rightarrow>
                (case le_loads le m of Inl e \<Rightarrow> Inl e | Inr v \<Rightarrow> Inr (bytes, m, v)))) of
        Inl e \<Rightarrow> Done (case e of
            KeyError _ \<Rightarrow> Inr PERMANENT_ERROR
          | BadZipFile \<Rightarrow> Inr PERMANENT_ERROR
          | JSONDecodeError \<Rightarrow> Inr PERMANENT_ERROR
          | _ \<Rightarrow> (if is_OSError e then Inr TRANSIENT_ERROR else Inl e))
      | Inr (bytes, m, v) \<Rightarrow> (case devcoredump_fields v of
            Inl e \<Rightarrow> Done (Inl e)
          | Inr d \<Rightarrow>
             (let str = se_str (le_sentry le); ev = new_event (le_sentry le) url;
                  tag = (\<lambda>k. case dict_get d k of None \<Rightarrow> [] | Some x \<Rightarrow> [(k, x)])
              in Send (ev\<lparr>ev_attachments := [zip_attachment (basename fname) bytes, json_attachment ''metadata.json'' m],
                          ev_timestamp := obj_get d ''timestamp'',
                          ev_tags := tag ''kernel'' @ tag ''branch'' @ tag ''failing_device'' @ tag ''driver'',
                          ev_fingerprint := (case dict_get d ''driver'' of None \<Rightarrow> [] | Some x \<Rightarrow> [''driver:'' @ str x]),
                          ev_message := JStr (devcoredump_message str (dict_get d ''driver'') (dict_get d ''failing_device''))\<rparr>)))))"

definition devcoredump_submit :: "logs_env \<Rightarrow> http \<Rightarrow> string result \<Rightarrow> string \<Rightarrow> zip \<Rightarrow> string result
    \<Rightarrow> hresult result \<times> request list" where
  "devcoredump_submit le http dsn fname z file = finish (le_sentry le) http (devcoredump_prepare le dsn fname z file)"

section \<open>Early OOM kills\<close>

text \<open>\<^verbatim>\<open>handle_log\<close>: the name of the log of a ProcessKilled signal.\<close>

definition earlyoom_name :: "(json \<Rightarrow> string) \<Rightarrow> (string, json) dict \<Rightarrow> int \<Rightarrow> string" where
  "earlyoom_name str log ts =
     (if truthy (obj_get log ''comm'') then str (obj_get log ''comm'') @ '' '' @ show_int ts @ ''.json''
      else show_int ts @ ''.json'')"

text \<open>The if-chain that sets \<^verbatim>\<open>message\<close> has no last branch: None is the variable unset.\<close>

definition earlyoom_message :: "(json \<Rightarrow> string) \<Rightarrow> json \<Rightarrow> json \<Rightarrow> json option" where
  "earlyoom_message str appid comm =
     (if truthy appid \<and> truthy comm then Some (JStr (str comm @ '' ('' @ str appid @ '')''))
      else if truthy comm then Some comm
      else if truthy appid then Some appid
      else None)"

definition earlyoom_prepare :: "logs_env \<Rightarrow> string result \<Rightarrow> string \<Rightarrow> string result \<Rightarrow> prepared" where
  "earlyoom_prepare le dsn fname file = (case dsn of Inl e \<Rightarrow> Done (Inl e) | Inr url \<Rightarrow>
     (case file of
        Inl e \<Rightarrow> Done (if is_OSError e then Inr TRANSIENT_ERROR else Inl e)
      | Inr bytes \<Rightarrow> (case le_loads le bytes of
          Inl e \<Rightarrow> Done (if e = JSONDecodeError then Inr PERMANENT_ERROR else Inl e)
        | Inr (JObj log) \<Rightarrow>
           (let str = se_str (le_sentry le); appid = obj_get log ''steamappid''; comm = obj_get log ''comm'';
                ev = new_event (le_sentry le) url
            in case earlyoom_message str appid comm of
                 None \<Rightarrow> Done (Inl UnboundLocalError)
               | Some m \<Rightarrow> Send (ev\<lparr>ev_attachments := [json_attachment (basename fname) bytes], ev_appid := appid,
                    ev_tags := (case dict_get log ''uid'' of None \<Rightarrow> [] | Some u \<Rightarrow> [(''uid'', u)])
                       @ (if comm \<noteq> JNull then [(''comm'', comm)] else []),
                    ev_fingerprint := (if comm \<noteq> JNull then [''comm:'' @ str comm] else []),
                    ev_message := m\<rparr>))
        | Inr v \<Rightarrow> Done (Inl AttributeError))))"

definition earlyoom_submit :: "logs_env \<Rightarrow> http \<Rightarrow> string result \<Rightarrow> string \<Rightarrow> string result
    \<Rightarrow> hresult result \<times> request list" where
  "earlyoom_submit le http dsn fname file = finish (le_sentry le) http (earlyoom_prepare le dsn fname file)"

section \<open>System reports\<close>

definition sysreport_prepare :: "logs_env \<Rightarrow> string result \<Rightarrow> string \<Rightarrow> string result \<Rightarrow> prepared" where
  "sysreport_prepare le dsn fname file = (case file of
       Inl e \<Rightarrow> Done (if is_OSError e then Inr TRANSIENT_ERROR else Inl e)
     | Inr bytes \<Rightarrow> (case dsn of Inl e \<Rightarrow> Done (Inl e) | Inr url \<Rightarrow>
         (let i = fst (splitext (basename fname))
          in Send ((new_event (le_sentry le) url)\<lparr>ev_attachments := [zip_attachment ''report.zip'' bytes],
               ev_tags := [(''friendly_id'', JStr i)], ev_message := JStr (''System report '' @ i)\<rparr>))))"

definition sysreport_submit :: "logs_env \<Rightarrow> http \<Rightarrow> string result \<Rightarrow> string \<Rightarrow> string result
    \<Rightarrow> hresult result \<times> request list" where
  "sysreport_submit le http dsn fname file = finish (le_sentry le) http (sysreport_prepare le dsn fname file)"

section \<open>Properties\<close>

lemma send_ok_attached:
  assumes "send env http ev = (Inr OK, reqs)" and "a \<in> set (ev_attachments ev)"
  shows "\<exists>url e i. SendEnvelope url e \<in> set reqs \<and> (i, at_data a) \<in> set (snd e)
    \<and> http (SendEnvelope url e) = Inr 200"
proof -
  have ne: "ev_attachments ev \<noteq> []" using assms(2) by auto
  obtain d where s: "seal env ev = Inr (d, sealed_envelope env ev)"
    using assms(1) by (auto simp: send_def seal_def split: sum.splits)
  obtain hd where e: "sealed_envelope env ev = Some (hd, map attachment_item (ev_attachments ev))"
    using ne by (auto simp: sealed_envelope_def)
  from assms(1) s e have r: "SendEnvelope (endpoint (ev_dsn ev) ''envelope'') (hd, map attachment_item (ev_attachments ev)) \<in> set reqs"
    "http (SendEnvelope (endpoint (ev_dsn ev) ''envelope'') (hd, map attachment_item (ev_attachments ev))) = Inr 200"
    by (auto simp: send_def Let_def split: sum.splits if_splits)
  have "attachment_item a \<in> set (map attachment_item (ev_attachments ev))" using assms(2) by simp
  moreover have "snd (attachment_item a) = at_data a" by (simp add: attachment_item_def)
  ultimately have "(fst (attachment_item a), at_data a) \<in> set (map attachment_item (ev_attachments ev))"
    by (metis prod.collapse)
  with r show ?thesis by (metis snd_conv)
qed

lemma finish_ok_attached:
  assumes "finish env http p = (Inr OK, reqs)" and "p \<noteq> Done (Inr OK)"
    and "\<And>ev. p = Send ev \<Longrightarrow> \<exists>a \<in> set (ev_attachments ev). at_data a = bytes"
  shows "\<exists>url e i. SendEnvelope url e \<in> set reqs \<and> (i, bytes) \<in> set (snd e) \<and> http (SendEnvelope url e) = Inr 200"
proof (cases p)
  case (Done r)
  with assms(1,2) show ?thesis by (simp add: finish_def)
next
  case (Send ev)
  with assms(3) obtain a where "a \<in> set (ev_attachments ev)" "at_data a = bytes" by blast
  with send_ok_attached [of env http ev reqs a] assms(1) Send show ?thesis by (simp add: finish_def)
qed

text \<open>None of the four helpers reports a log as submitted, and so has it moved away, unless an
  envelope with the log's complete bytes was accepted by the server.\<close>

theorem submitted_means_log_accepted:
  assumes "file = Inr bytes"
    and "(Inr OK, reqs) \<in> {gpu_submit le http dsn fname z file, devcoredump_submit le http dsn fname z file,
        earlyoom_submit le http dsn fname file, sysreport_submit le http dsn fname file}"
  shows "\<exists>url e i. SendEnvelope url e \<in> set reqs \<and> (i, bytes) \<in> set (snd e) \<and> http (SendEnvelope url e) = Inr 200"
proof -
  have g: "gpu_prepare le dsn fname z (Inr bytes) \<noteq> Done (Inr OK)"
    "gpu_prepare le dsn fname z (Inr bytes) = Send ev \<Longrightarrow> \<exists>a \<in> set (ev_attachments ev). at_data a = bytes" for ev
    by (auto simp: gpu_prepare_def zip_attachment_def Let_def split: sum.splits json.splits if_splits)
  have d: "devcoredump_prepare le dsn fname z (Inr bytes) \<noteq> Done (Inr OK)"
    "devcoredump_prepare le dsn fname z (Inr bytes) = Send ev \<Longrightarrow> \<exists>a \<in> set (ev_attachments ev). at_data a = bytes" for ev
    by (auto simp: devcoredump_prepare_def zip_attachment_def Let_def split: sum.splits exn.splits if_splits)
  have e: "earlyoom_prepare le dsn fname (Inr bytes) \<noteq> Done (Inr OK)"
    "earlyoom_prepare le dsn fname (Inr bytes) = Send ev \<Longrightarrow> \<exists>a \<in> set (ev_attachments ev). at_data a = bytes" for ev
    by (auto simp: earlyoom_prepare_def json_attachment_def Let_def split: sum.splits json.splits option.splits if_splits)
  have s: "sysreport_prepare le dsn fname (Inr bytes) \<noteq> Done (Inr OK)"
    "sysreport_prepare le dsn fname (Inr bytes) = Send ev \<Longrightarrow> \<exists>a \<in> set (ev_attachments ev). at_data a = bytes" for ev
    by (auto simp: sysreport_prepare_def zip_attachment_def Let_def split: sum.splits)
  from assms consider
      "finish (le_sentry le) http (gpu_prepare le dsn fname z (Inr bytes)) = (Inr OK, reqs)"
    | "finish (le_sentry le) http (devcoredump_prepare le dsn fname z (Inr bytes)) = (Inr OK, reqs)"
    | "finish (le_sentry le) http (earlyoom_prepare le dsn fname (Inr bytes)) = (Inr OK, reqs)"
    | "finish (le_sentry le) http (sysreport_prepare le dsn fname (Inr bytes)) = (Inr OK, reqs)"
    unfolding gpu_submit_def devcoredump_submit_def earlyoom_submit_def sysreport_submit_def by force
  then show ?thesis
  proof cases
    case 1
    from finish_ok_attached [OF 1 g(1) g(2)] show ?thesis by blast
  next
    case 2
    from finish_ok_attached [OF 2 d(1) d(2)] show ?thesis by blast
  next
    case 3
    from finish_ok_attached [OF 3 e(1) e(2)] show ?thesis by blast
  next
    case 4
    from finish_ok_attached [OF 4 s(1) s(2)] show ?thesis by blast
  qed
qed

definition sample_env :: sentry_env where
  "sample_env = \<lparr>se_uuid = ''u'', se_branch = None, se_build = None, se_version = None, se_machine = ''x86_64'',
     se_now = ''now'', se_app_name = (\<lambda>_. JNull), se_unit_id = None, se_dmi = Inr [], se_str = (\<lambda>v. ''s'')\<rparr>"

definition sample_logs :: logs_env where
  "sample_logs = \<lparr>le_sentry = sample_env, le_loads = (\<lambda>s. if s = ''{}'' then Inr (JObj []) else Inl JSONDecodeError),
     le_float = (\<lambda>_. None)\<rparr>"

theorem submitted_means_log_accepted_witness:
  "\<exists>url e i. SendEnvelope url e \<in> set (snd (sysreport_submit sample_logs (\<lambda>_. Inr 200) (Inr ''https://k@h/5'') ''p/AB.zip'' (Inr ''PK'')))
     \<and> (i, ''PK'') \<in> set (snd e)"
proof -
  obtain r reqs where s: "sysreport_submit sample_logs (\<lambda>_. Inr 200) (Inr ''https://k@h/5'') ''p/AB.zip'' (Inr ''PK'') = (r, reqs)"
    by fastforce
  have "fst (sysreport_submit sample_logs (\<lambda>_. Inr 200) (Inr ''https://k@h/5'') ''p/AB.zip'' (Inr ''PK'')) = Inr OK"
    by (simp add: sysreport_submit_def sysreport_prepare_def finish_def send_def seal_def sealed_event_def sealed_tags_def
        sealed_envelope_def new_event_def sample_logs_def sample_env_def Let_def)
  with s have "(Inr OK, reqs) \<in> {gpu_submit sample_logs (\<lambda>_. Inr 200) (Inr ''https://k@h/5'') ''p/AB.zip'' (Inl OSError) (Inr ''PK''),
      devcoredump_submit sample_logs (\<lambda>_. Inr 200) (Inr ''https://k@h/5'') ''p/AB.zip'' (Inl OSError) (Inr ''PK''),
      earlyoom_submit sample_logs (\<lambda>_. Inr 200) (Inr ''https://k@h/5'') ''p/AB.zip'' (Inr ''PK''),
      sysreport_submit sample_logs (\<lambda>_. Inr 200) (Inr ''https://k@h/5'') ''p/AB.zip'' (Inr ''PK'')}" by auto
  from submitted_means_log_accepted [OF refl this] s show ?thesis by auto
qed

text \<open>An early OOM log that names neither the killed process nor a Steam application cannot be submitted:
  the message variable is never set, so the helper raises, and the log stays pending to fail again.\<close>

theorem earlyoom_unnamed_fails:
  assumes "le_loads le bytes = Inr (JObj log)" and "\<not> truthy (obj_get log ''comm'')" and "\<not> truthy (obj_get log ''steamappid'')"
  shows "earlyoom_submit le http (Inr url) fname (Inr bytes) = (Inl UnboundLocalError, [])"
  using assms by (simp add: earlyoom_submit_def earlyoom_prepare_def earlyoom_message_def finish_def Let_def)

theorem earlyoom_unnamed_fails_witness:
  "earlyoom_submit sample_logs (\<lambda>_. Inr 200) (Inr ''https://k@h/5'') ''1.json'' (Inr ''{}'') = (Inl UnboundLocalError, [])"
  by (rule earlyoom_unnamed_fails [of _ _ "[]"]) (simp_all add: sample_logs_def obj_get_def dict_getd_def)

text \<open>The archive helpers tell damage from bad luck: an archive that cannot be opened is retried, one
  that is no archive or whose metadata is no JSON is given up, and nothing is sent in either case.\<close>

theorem archive_failures:
  "gpu_submit le http (Inr url) fname (Inl BadZipFile) file = (Inr PERMANENT_ERROR, [])
   \<and> gpu_submit le http (Inr url) fname (Inl PermissionError) file = (Inr TRANSIENT_ERROR, [])
   \<and> devcoredump_submit le http (Inr url) fname (Inl BadZipFile) (Inr bytes) = (Inr PERMANENT_ERROR, [])
   \<and> devcoredump_submit le http (Inr url) fname (Inr []) (Inr bytes) = (Inr PERMANENT_ERROR, [])
   \<and> devcoredump_submit le http (Inr url) fname z (Inl PermissionError) = (Inr TRANSIENT_ERROR, [])
   \<and> gpu_submit le http (Inr url) fname (Inr []) (Inr bytes) = (Inl (KeyError ''metadata.json''), [])"
  by (simp add: gpu_submit_def gpu_prepare_def devcoredump_submit_def devcoredump_prepare_def zip_read_def finish_def)

end
