(* ===== verification/Daemon.thy ===== *)
theory Daemon imports SLS_Prelude begin

text \<open>
  The scheduling of \<^verbatim>\<open>steamos_log_submitter/daemon.py\<close>: the periodic task, triggers started over D-Bus,
  enabling, inhibiting, suspending and shutting down, as cooperating asyncio tasks. What runs between
  two awaits is one step, and a \<open>dpc\<close> is the await a task is in. Times are milliseconds. A cancellation
  is delivered as asyncio does it, to the task at the end of the chain of awaits. The flags of the
  configuration are booleans whose writing does not fail; what is exported and announced on the bus
  is left out.
\<close>

section \<open>Tasks\<close>

datatype task_end = Returned | Raised exn | Cancelled

text \<open>What a task does when the task it awaits has ended.\<close>

datatype kont =
    KTrigger          \<comment> \<open>trigger: await stored\_coro, then assert not \_trigger\_active\<close>
  | KJoin             \<comment> \<open>trigger: await self.\_async\_trigger\<close>
  | KOld              \<comment> \<open>\_trigger: await the old periodic task\<close>
  | KEnable bool      \<comment> \<open>enable: await self.\_async\_trigger\<close>
  | KInhibit bool     \<comment> \<open>inhibit: await self.\_async\_trigger\<close>
  | KShutdown         \<comment> \<open>shutdown: await self.\_async\_trigger\<close>
  | KCancel           \<comment> \<open>\_cancel\_periodic, with nothing of the schedule after it\<close>
  | KResched          \<comment> \<open>\_leave\_suspend: \_cancel\_periodic, then \_update\_schedule\<close>

datatype dpc =
    NoTask
  | PStart            \<comment> \<open>\_trigger\_periodic, created but not begun\<close>
  | PSleep int        \<comment> \<open>asleep until this time\<close>
  | PApps             \<comment> \<open>await sls.util.update\_app\_list()\<close>
  | TStart            \<comment> \<open>\_trigger, created but not begun\<close>
  | Running           \<comment> \<open>await sls.runner.trigger()\<close>
  | Await nat kont
  | SuspendSleep int
  | Done task_end

record daemon =
  dpcs :: "nat \<Rightarrow> dpc"
  next_task :: nat
  doomed :: "nat list"                \<comment> \<open>tasks with a cancellation to deliver\<close>
  periodic_task :: "nat option"
  async_trigger :: "nat option"
  serving :: bool
  suspend_state :: string
  trigger_active :: bool
  next_trigger :: int
  last_trigger :: "int option"        \<comment> \<open>config['last\_trigger']\<close>
  last_applist :: int                 \<comment> \<open>config['last\_applist\_update'], 0 if unset or no number\<close>
  enable_flag :: bool
  inhibit_flag :: bool
  clock :: int                        \<comment> \<open>time.time()\<close>

definition STARTUP :: int where "STARTUP = 20000"
definition INTERVAL :: int where "INTERVAL = 3600000"
definition WAKEUP_DELAY :: int where "WAKEUP_DELAY = 10000"
definition APPLIST_UPDATE_INTERVAL :: int where "APPLIST_UPDATE_INTERVAL = 3600000 * 24"

definition goto :: "nat \<Rightarrow> dpc \<Rightarrow> daemon \<Rightarrow> daemon" where
  "goto t c s = s\<lparr>dpcs := (dpcs s)(t := c)\<rparr>"

definition ends :: "nat \<Rightarrow> daemon \<Rightarrow> daemon" where
  "ends t s = goto t (Done Returned) s"

definition raises :: "exn \<Rightarrow> nat \<Rightarrow> daemon \<Rightarrow> daemon" where
  "raises e t s = goto t (Done (Raised e)) s"

definition spawn :: "dpc \<Rightarrow> daemon \<Rightarrow> daemon" where
  "spawn c s = s\<lparr>dpcs := (dpcs s)(next_task s := c), next_task := Suc (next_task s)\<rparr>"

definition spawn_periodic :: "daemon \<Rightarrow> daemon" where
  "spawn_periodic s = (spawn PStart s)\<lparr>periodic_task := Some (next_task s)\<rparr>"

fun over :: "dpc \<Rightarrow> bool" where
  "over (Done out) = True"
| "over _ = False"

text \<open>
  \<^verbatim>\<open>Task.cancel\<close>: a task that awaits an unfinished task passes the cancellation on to it. In a circle of
  tasks that await each other the calls recurse until a RecursionError, a RuntimeError: None.
\<close>

fun chain_end :: "nat \<Rightarrow> (nat \<Rightarrow> dpc) \<Rightarrow> nat \<Rightarrow> nat option" where
  "chain_end 0 p t = None"
| "chain_end (Suc n) p t = (case p t of
       Await u k \<Rightarrow> (if over (p u) then Some t else chain_end n p u) | _ \<Rightarrow> Some t)"

definition victim :: "daemon \<Rightarrow> nat \<Rightarrow> nat option" where
  "victim s t = chain_end (Suc (next_task s)) (dpcs s) t"

definition cancel_task :: "nat \<Rightarrow> daemon \<Rightarrow> daemon option" where
  "cancel_task t s = (if over (dpcs s t) then Some s
     else (case victim s t of None \<Rightarrow> None | Some v \<Rightarrow> Some (s\<lparr>doomed := v # doomed s\<rparr>)))"

section \<open>The coroutines, from one await to the next, in task t\<close>

text \<open>\<^verbatim>\<open>_cancel_periodic\<close>; awaiting a task that is over does not give way to other tasks.\<close>

definition cancel_periodic :: "kont \<Rightarrow> (daemon \<Rightarrow> daemon) \<Rightarrow> nat \<Rightarrow> daemon \<Rightarrow> daemon" where
  "cancel_periodic k after t s = (case periodic_task s of
       None \<Rightarrow> after s
     | Some p \<Rightarrow> (case cancel_task p s of
         None \<Rightarrow> raises RuntimeError t s
       | Some s1 \<Rightarrow> (case dpcs s p of
           Done (Raised e) \<Rightarrow> raises e t s1
         | Done _ \<Rightarrow> after (s1\<lparr>periodic_task := None\<rparr>)
         | _ \<Rightarrow> goto t (Await p k) s1)))"

definition update_schedule :: "nat \<Rightarrow> daemon \<Rightarrow> daemon" where
  "update_schedule t s =
     (if inhibit_flag s \<or> \<not> enable_flag s then cancel_periodic KCancel (ends t) t s
      else if periodic_task s = None then ends t (spawn_periodic s)
      else ends t s)"

text \<open>\<^verbatim>\<open>_trigger\<close> up to the call of the runner, and its last two lines.\<close>

definition trigger_body :: "nat \<Rightarrow> daemon \<Rightarrow> daemon" where
  "trigger_body t s =
     (if inhibit_flag s \<or> \<not> enable_flag s then ends t (s\<lparr>async_trigger := None\<rparr>)
      else if trigger_active s then ends t (s\<lparr>async_trigger := None\<rparr>)
      else goto t Running (s\<lparr>trigger_active := True\<rparr>))"

definition end_trigger :: "nat \<Rightarrow> daemon \<Rightarrow> daemon" where
  "end_trigger t s = ends t (s\<lparr>trigger_active := False, async_trigger := None\<rparr>)"

definition enable_now :: "bool \<Rightarrow> nat \<Rightarrow> daemon \<Rightarrow> daemon" where
  "enable_now b t s = update_schedule t (s\<lparr>enable_flag := b\<rparr>)"

definition inhibit_now :: "bool \<Rightarrow> nat \<Rightarrow> daemon \<Rightarrow> daemon" where
  "inhibit_now b t s = update_schedule t (s\<lparr>inhibit_flag := b\<rparr>)"

text \<open>
  An await is over, with the outcome of the awaited task or by a cancellation of the task's own:
  only \<^verbatim>\<open>_trigger\<close> and \<^verbatim>\<open>_cancel_periodic\<close> catch a CancelledError.
\<close>

definition catches :: "kont \<Rightarrow> bool" where
  "catches k = (k \<in> {KOld, KCancel, KResched})"

definition resume :: "nat \<Rightarrow> kont \<Rightarrow> task_end \<Rightarrow> daemon \<Rightarrow> daemon" where
  "resume t k out s = (case out of
       Raised e \<Rightarrow> raises e t s
     | _ \<Rightarrow>
       (if out = Cancelled \<and> \<not> catches k then goto t (Done Cancelled) s
        else (case k of
            KTrigger \<Rightarrow> (if trigger_active s then raises AssertionError t s else ends t s)
          | KJoin \<Rightarrow> ends t s
          | KOld \<Rightarrow> end_trigger t s
          | KEnable b \<Rightarrow> enable_now b t s
          | KInhibit b \<Rightarrow> inhibit_now b t s
          | KShutdown \<Rightarrow> cancel_periodic KCancel (ends t) t (s\<lparr>async_trigger := None\<rparr>)
          | KCancel \<Rightarrow> ends t (s\<lparr>periodic_task := None\<rparr>)
          | KResched \<Rightarrow> update_schedule t (s\<lparr>periodic_task := None\<rparr>))))"

text \<open>\<^verbatim>\<open>await\<close> of a task: a task cannot await itself.\<close>

definition await_task :: "nat \<Rightarrow> kont \<Rightarrow> nat \<Rightarrow> daemon \<Rightarrow> daemon" where
  "await_task u k t s =
     (if u = t then raises RuntimeError t s
      else (case dpcs s u of Done out \<Rightarrow> resume t k out s | _ \<Rightarrow> goto t (Await u k) s))"

definition daemon_trigger :: "bool \<Rightarrow> nat \<Rightarrow> daemon \<Rightarrow> daemon" where
  "daemon_trigger wait t s =
     (if inhibit_flag s \<or> \<not> enable_flag s then ends t s
      else if trigger_active s then
        (if \<not> wait then ends t s
         else (case (if async_trigger s \<noteq> None then async_trigger s else periodic_task s) of
             None \<Rightarrow> ends t s
           | Some u \<Rightarrow> await_task u KTrigger t s))
      else (case async_trigger s of
          Some a \<Rightarrow> (if wait then await_task a KJoin t s else ends t s)
        | None \<Rightarrow> (if wait then trigger_body t s
            else ends t ((spawn TStart s)\<lparr>async_trigger := Some (next_task s)\<rparr>))))"

text \<open>
  \<^verbatim>\<open>_trigger\<close> after the runner returned. In the periodic task itself, cancelling and awaiting the
  \<^verbatim>\<open>task\<close> comes back as a CancelledError, which is caught. A \<^verbatim>\<open>task\<close> that awaits this very task passes its
  cancellation back to this one, which then awaits it: asyncio recurses between the two until a
  RecursionError that reaches neither, and both keep waiting for each other.
\<close>

definition book_trigger :: "daemon \<Rightarrow> daemon" where
  "book_trigger s =
     (let s1 = s\<lparr>last_trigger := Some (clock s), next_trigger := clock s + INTERVAL\<rparr>
      in if serving s then spawn_periodic s1 else s1)"

definition finish_trigger :: "nat \<Rightarrow> daemon \<Rightarrow> daemon" where
  "finish_trigger t s =
     (let s2 = book_trigger s
      in case periodic_task s of
           None \<Rightarrow> end_trigger t s2
         | Some p \<Rightarrow>
           (if p = t then end_trigger t s2
            else if victim s p = Some t \<and> \<not> over (dpcs s p) then goto t (Await p KOld) s2
            else (case cancel_task p s2 of
                None \<Rightarrow> raises RuntimeError t s2
              | Some s3 \<Rightarrow> await_task p KOld t s3)))"

definition daemon_enable :: "bool \<Rightarrow> nat \<Rightarrow> daemon \<Rightarrow> daemon" where
  "daemon_enable b t s =
     (if enable_flag s = b then ends t s
      else (case (if b then None else async_trigger s) of
          Some a \<Rightarrow> await_task a (KEnable b) t s
        | None \<Rightarrow> enable_now b t s))"

definition daemon_inhibit :: "bool \<Rightarrow> nat \<Rightarrow> daemon \<Rightarrow> daemon" where
  "daemon_inhibit b t s =
     (if inhibit_flag s = b then ends t s
      else (case (if b then async_trigger s else None) of
          Some a \<Rightarrow> await_task a (KInhibit b) t s
        | None \<Rightarrow> inhibit_now b t s))"

definition leave_suspend :: "string \<Rightarrow> nat \<Rightarrow> daemon \<Rightarrow> daemon" where
  "leave_suspend v t s =
     (if v = suspend_state s then ends t s
      else (let s1 = s\<lparr>suspend_state := v\<rparr> in
        if v = ''inactive'' then
          (if trigger_active s then ends t s1 else goto t (SuspendSleep (clock s + WAKEUP_DELAY)) s1)
        else ends t s1))"

definition after_suspend :: "nat \<Rightarrow> daemon \<Rightarrow> daemon" where
  "after_suspend t s = cancel_periodic KResched (update_schedule t) t s"

definition daemon_shutdown :: "nat \<Rightarrow> daemon \<Rightarrow> daemon" where
  "daemon_shutdown t s =
     (let s1 = s\<lparr>serving := False\<rparr> in
      case async_trigger s of
        Some a \<Rightarrow> await_task a KShutdown t s1
      | None \<Rightarrow> cancel_periodic KCancel (ends t) t s1)"

text \<open>\<^verbatim>\<open>start\<close>, as far as the schedule goes.\<close>

definition daemon_start :: "nat \<Rightarrow> daemon \<Rightarrow> daemon" where
  "daemon_start t s =
     (if serving s then ends t s
      else (let soon = clock s + STARTUP;
                later = (case last_trigger s of
                    None \<Rightarrow> soon | Some l \<Rightarrow> if l + INTERVAL > soon then l + INTERVAL else soon);
                s1 = s\<lparr>serving := True, next_trigger := later\<rparr>
            in ends t (if \<not> inhibit_flag s \<and> enable_flag s then spawn_periodic s1 else s1)))"

text \<open>\<^verbatim>\<open>_trigger_periodic\<close>: before the sleep, after it, and after the application list.\<close>

definition periodic_go :: "nat \<Rightarrow> daemon \<Rightarrow> daemon" where
  "periodic_go t s = (if \<not> serving s then ends t s else daemon_trigger True t s)"

definition periodic_awake :: "nat \<Rightarrow> daemon \<Rightarrow> daemon" where
  "periodic_awake t s =
     (if last_applist s + APPLIST_UPDATE_INTERVAL \<le> clock s then goto t PApps s else periodic_go t s)"

definition periodic_begin :: "nat \<Rightarrow> daemon \<Rightarrow> daemon" where
  "periodic_begin t s =
     (if next_trigger s - clock s > 0 then goto t (PSleep (next_trigger s)) s else periodic_awake t s)"

definition periodic_apps :: "nat \<Rightarrow> daemon \<Rightarrow> daemon" where
  "periodic_apps t s = periodic_go t (s\<lparr>last_applist := clock s\<rparr>)"

section \<open>Steps\<close>

text \<open>A call from outside runs in a task of its own up to its first await.\<close>

datatype call = CTrigger bool | CEnable bool | CInhibit bool | CSuspend string | CShutdown | CStart

fun run_call :: "call \<Rightarrow> nat \<Rightarrow> daemon \<Rightarrow> daemon" where
  "run_call (CTrigger wait) t s = daemon_trigger wait t s"
| "run_call (CEnable b) t s = daemon_enable b t s"
| "run_call (CInhibit b) t s = daemon_inhibit b t s"
| "run_call (CSuspend v) t s = leave_suspend v t s"
| "run_call CShutdown t s = daemon_shutdown t s"
| "run_call CStart t s = daemon_start t s"

definition open_call :: "call \<Rightarrow> daemon \<Rightarrow> daemon" where
  "open_call c s = run_call c (next_task s) (s\<lparr>next_task := Suc (next_task s)\<rparr>)"

definition undoom :: "nat \<Rightarrow> daemon \<Rightarrow> daemon" where
  "undoom t s = s\<lparr>doomed := removeAll t (doomed s)\<rparr>"

inductive daemon_step :: "daemon \<Rightarrow> daemon \<Rightarrow> bool" where
  time_passes: "0 \<le> d \<Longrightarrow> daemon_step s (s\<lparr>clock := clock s + d\<rparr>)"
| called: "daemon_step s (open_call c s)"
| periodic_begins: "dpcs s t = PStart \<Longrightarrow> t \<notin> set (doomed s) \<Longrightarrow> daemon_step s (periodic_begin t s)"
| periodic_wakes: "dpcs s t = PSleep d \<Longrightarrow> t \<notin> set (doomed s) \<Longrightarrow> d \<le> clock s \<Longrightarrow> daemon_step s (periodic_awake t s)"
| apps_updated: "dpcs s t = PApps \<Longrightarrow> t \<notin> set (doomed s) \<Longrightarrow> daemon_step s (periodic_apps t s)"
| apps_fail: "dpcs s t = PApps \<Longrightarrow> t \<notin> set (doomed s) \<Longrightarrow> daemon_step s (raises e t s)"
| async_begins: "dpcs s t = TStart \<Longrightarrow> t \<notin> set (doomed s) \<Longrightarrow> daemon_step s (trigger_body t s)"
| runner_returns: "dpcs s t = Running \<Longrightarrow> t \<notin> set (doomed s) \<Longrightarrow> daemon_step s (finish_trigger t s)"
| runner_fails: "dpcs s t = Running \<Longrightarrow> t \<notin> set (doomed s) \<Longrightarrow> daemon_step s (raises e t s)"
| suspend_wakes: "dpcs s t = SuspendSleep d \<Longrightarrow> d \<le> clock s \<Longrightarrow> daemon_step s (after_suspend t s)"
| awaited: "dpcs s t = Await u k \<Longrightarrow> dpcs s u = Done out \<Longrightarrow> t \<notin> set (doomed s) \<Longrightarrow> daemon_step s (resume t k out s)"
| cancelled_await: "dpcs s t = Await u k \<Longrightarrow> t \<in> set (doomed s) \<Longrightarrow> daemon_step s (resume t k Cancelled (undoom t s))"
| cancelled: "dpcs s t \<in> {PStart, PSleep d, PApps, TStart, Running} \<Longrightarrow> t \<in> set (doomed s) \<Longrightarrow>
    daemon_step s (goto t (Done Cancelled) (undoom t s))"

inductive_cases daemon_stepE: "daemon_step s s'"

inductive daemon_run :: "daemon \<Rightarrow> daemon \<Rightarrow> bool" for s0 where
  no_step: "daemon_run s0 s0"
| one_more: "daemon_run s0 s \<Longrightarrow> daemon_step s s' \<Longrightarrow> daemon_run s0 s'"

definition fresh_daemon :: "bool \<Rightarrow> bool \<Rightarrow> int option \<Rightarrow> int \<Rightarrow> daemon" where
  "fresh_daemon en inh lt t0 = \<lparr>dpcs = (\<lambda>_. NoTask), next_task = 0, doomed = [], periodic_task = None,
     async_trigger = None, serving = False, suspend_state = ''inactive'', trigger_active = False,
     next_trigger = 0, last_trigger = lt, last_applist = 0, enable_flag = en, inhibit_flag = inh, clock = t0\<rparr>"

section \<open>Who is inside a trigger\<close>

definition in_trigger :: "daemon \<Rightarrow> nat \<Rightarrow> bool" where
  "in_trigger s t = (case dpcs s t of Running \<Rightarrow> True | Await u k \<Rightarrow> k = KOld | _ \<Rightarrow> False)"

text \<open>At most one task is inside a trigger, the flag is set while it is, and new tasks are new.\<close>

definition exclusive :: "daemon \<Rightarrow> bool" where
  "exclusive s = ((\<forall>t. in_trigger s t \<longrightarrow> trigger_active s) \<and> (\<forall>t u. in_trigger s t \<longrightarrow> in_trigger s u \<longrightarrow> t = u)
     \<and> (\<forall>t. next_task s \<le> t \<longrightarrow> dpcs s t = NoTask))"

text \<open>A task that does not wait for an unfinished one: the only kind a cancellation is delivered to.\<close>

definition not_waiting :: "daemon \<Rightarrow> nat \<Rightarrow> bool" where
  "not_waiting s v = (\<forall>w k. dpcs s v = Await w k \<longrightarrow> over (dpcs s w))"

text \<open>
  What the code of one task \<open>t\<close> may do: other tasks stay where they are and new ones are not inside a
  trigger, cancellations go to tasks that do not wait, \<open>t\<close> comes into a trigger only while nobody is
  active and the flags allow it, and only a task that is in resets the flag.
\<close>

definition polite :: "nat \<Rightarrow> daemon \<Rightarrow> daemon \<Rightarrow> bool" where
  "polite t s s' = ((\<forall>u. u \<noteq> t \<longrightarrow> in_trigger s' u = in_trigger s u)
     \<and> (\<forall>u. u \<noteq> t \<longrightarrow> u < next_task s \<longrightarrow> dpcs s' u = dpcs s u)
     \<and> (\<forall>v \<in> set (doomed s'). v \<in> set (doomed s) \<or> not_waiting s v)
     \<and> (in_trigger s' t \<longrightarrow> in_trigger s t \<or> enable_flag s' \<and> \<not> inhibit_flag s')
     \<and> (in_trigger s' t \<longrightarrow> trigger_active s' \<and> (\<not> trigger_active s \<or> in_trigger s t))
     \<and> (trigger_active s \<longrightarrow> \<not> trigger_active s' \<longrightarrow> in_trigger s t \<and> \<not> in_trigger s' t)
     \<and> (trigger_active s' \<longrightarrow> trigger_active s \<or> in_trigger s' t)
     \<and> next_task s \<le> next_task s' \<and> (\<forall>u. next_task s' \<le> u \<longrightarrow> dpcs s' u = NoTask))"

definition ready :: "nat \<Rightarrow> daemon \<Rightarrow> bool" where
  "ready t s = (t < next_task s \<and> (\<forall>u. next_task s \<le> u \<longrightarrow> dpcs s u = NoTask))"


lemmas daemon_leaf = goto_def ends_def raises_def spawn_def spawn_periodic_def undoom_def

lemma chain_end_free:
  "chain_end n p t = Some v \<Longrightarrow> p v = Await w k \<Longrightarrow> over (p w)"
  by (induction n p t rule: chain_end.induct) (auto split: dpc.splits if_splits)

lemma cancel_task_keeps:
  assumes "cancel_task u s = Some s'"
  shows "\<exists>ds. s' = s\<lparr>doomed := ds\<rparr> \<and> (\<forall>v \<in> set ds. v \<in> set (doomed s) \<or> not_waiting s v)"
proof (cases "over (dpcs s u)")
  case True
  then have "s' = s\<lparr>doomed := doomed s\<rparr>" using assms by (simp add: cancel_task_def)
  then show ?thesis by blast
next
  case False
  then obtain v where v: "victim s u = Some v" "s' = s\<lparr>doomed := v # doomed s\<rparr>"
    using assms by (auto simp: cancel_task_def split: option.splits)
  have "not_waiting s v" unfolding not_waiting_def using chain_end_free v(1) unfolding victim_def by blast
  then show ?thesis using v(2) by auto
qed

text \<open>Leaf steps and the changes the operations make around them.\<close>

lemma polite_leaf:
  assumes "ready t s" and "\<not> in_trigger s t"
  shows "polite t s (ends t s)" and "polite t s (raises e t s)" and "polite t s (goto t (Done c) s)"
    and "polite t s (goto t (PSleep d) s)" and "polite t s (goto t PApps s)" and "polite t s (goto t (SuspendSleep d) s)"
    and "k \<noteq> KOld \<Longrightarrow> polite t s (goto t (Await u k) s)"
    and "polite t s (ends t (spawn_periodic s))" and "polite t s (ends t ((spawn TStart s)\<lparr>async_trigger := a\<rparr>))"
    and "polite t s (trigger_body t s)"
  using assms by (auto simp: daemon_leaf polite_def ready_def in_trigger_def trigger_body_def not_waiting_def)

text \<open>The fields that do not matter to politeness.\<close>

lemma polite_upd:
  "polite t (s\<lparr>async_trigger := a\<rparr>) s' = polite t s s'" "polite t (s\<lparr>periodic_task := p\<rparr>) s' = polite t s s'"
  "polite t (s\<lparr>enable_flag := b\<rparr>) s' = polite t s s'"
  "polite t (s\<lparr>inhibit_flag := b\<rparr>) s' = polite t s s'" "polite t (s\<lparr>serving := b\<rparr>) s' = polite t s s'"
  "polite t (s\<lparr>suspend_state := v\<rparr>) s' = polite t s s'" "polite t (s\<lparr>next_trigger := n\<rparr>) s' = polite t s s'"
  "polite t (s\<lparr>last_applist := n\<rparr>) s' = polite t s s'" "polite t (s\<lparr>last_trigger := l\<rparr>) s' = polite t s s'"
  by (simp_all add: polite_def in_trigger_def not_waiting_def)

lemma polite_doomed:
  assumes p: "polite t (s\<lparr>doomed := ds\<rparr>) s'" and d: "\<forall>v \<in> set ds. v \<in> set (doomed s) \<or> not_waiting s v"
  shows "polite t s s'"
proof -
  have same: "in_trigger (s\<lparr>doomed := ds\<rparr>) u = in_trigger s u" "not_waiting (s\<lparr>doomed := ds\<rparr>) u = not_waiting s u" for u
    by (simp_all add: in_trigger_def not_waiting_def)
  have "\<forall>v \<in> set (doomed s'). v \<in> set (doomed s) \<or> not_waiting s v"
    using p d unfolding polite_def same by simp blast
  then show ?thesis using p unfolding polite_def same by simp
qed

lemma polite_cancel_task:
  "cancel_task u s = Some s1 \<Longrightarrow> polite t s1 s' \<Longrightarrow> polite t s s'"
  using cancel_task_keeps [of u s s1] polite_doomed by blast

lemma ready_upd [simp]:
  "ready t (s\<lparr>async_trigger := a\<rparr>) = ready t s" "ready t (s\<lparr>periodic_task := p\<rparr>) = ready t s"
  "ready t (s\<lparr>doomed := ds\<rparr>) = ready t s" "ready t (s\<lparr>enable_flag := b\<rparr>) = ready t s"
  "ready t (s\<lparr>inhibit_flag := b\<rparr>) = ready t s" "ready t (s\<lparr>serving := b\<rparr>) = ready t s"
  "ready t (s\<lparr>suspend_state := v\<rparr>) = ready t s" "ready t (s\<lparr>next_trigger := n\<rparr>) = ready t s"
  "ready t (s\<lparr>last_applist := n\<rparr>) = ready t s" "ready t (s\<lparr>last_trigger := l\<rparr>) = ready t s"
  by (simp_all add: ready_def)

lemma not_waiting_upd [simp]:
  "not_waiting (s\<lparr>async_trigger := a\<rparr>) t = not_waiting s t" "not_waiting (s\<lparr>periodic_task := p\<rparr>) t = not_waiting s t"
  "not_waiting (s\<lparr>next_task := n\<rparr>) t = not_waiting s t" "not_waiting (s\<lparr>trigger_active := b\<rparr>) t = not_waiting s t"
  "not_waiting (s\<lparr>clock := d\<rparr>) t = not_waiting s t"
  by (simp_all add: not_waiting_def)

lemma in_trigger_upd [simp]:
  "in_trigger (s\<lparr>async_trigger := a\<rparr>) t = in_trigger s t" "in_trigger (s\<lparr>periodic_task := p\<rparr>) t = in_trigger s t"
  "in_trigger (s\<lparr>doomed := ds\<rparr>) t = in_trigger s t" "in_trigger (s\<lparr>enable_flag := b\<rparr>) t = in_trigger s t"
  "in_trigger (s\<lparr>inhibit_flag := b\<rparr>) t = in_trigger s t" "in_trigger (s\<lparr>serving := b\<rparr>) t = in_trigger s t"
  "in_trigger (s\<lparr>suspend_state := v\<rparr>) t = in_trigger s t" "in_trigger (s\<lparr>next_trigger := n\<rparr>) t = in_trigger s t"
  "in_trigger (s\<lparr>last_applist := n\<rparr>) t = in_trigger s t" "in_trigger (s\<lparr>last_trigger := l\<rparr>) t = in_trigger s t"
  by (simp_all add: in_trigger_def)

text \<open>Politeness of an operation in a state with other such fields, moved to the state itself.\<close>

lemma polite_cancel_periodic:
  assumes r: "ready t s" and n: "\<not> in_trigger s t" and k: "k \<noteq> KOld"
    and a: "\<And>s'. ready t s' \<Longrightarrow> \<not> in_trigger s' t \<Longrightarrow> polite t s' (after s')"
  shows "polite t s (cancel_periodic k after t s)"
proof (cases "periodic_task s")
  case None
  then show ?thesis by (simp add: cancel_periodic_def a r n)
next
  case (Some p)
  show ?thesis
  proof (cases "cancel_task p s")
    case None
    then show ?thesis by (simp add: cancel_periodic_def \<open>periodic_task s = Some p\<close> polite_leaf r n)
  next
    case (Some s1)
    note via = polite_cancel_task [OF Some]
    have s1: "ready t s1" "\<not> in_trigger s1 t" using cancel_task_keeps [OF Some] r n by auto
    have g: "polite t s (goto t (Await p k) s1)" and e: "\<And>e. polite t s (raises e t s1)"
      using polite_leaf [OF s1] k by (simp_all add: via)
    have f: "polite t s (after (s1\<lparr>periodic_task := None\<rparr>))"
      using a [of "s1\<lparr>periodic_task := None\<rparr>"] s1 by (simp add: via polite_upd)
    show ?thesis
      by (simp add: cancel_periodic_def \<open>periodic_task s = Some p\<close> Some g e f split: dpc.splits task_end.splits)
  qed
qed

lemma polite_update_schedule: "ready t s \<Longrightarrow> \<not> in_trigger s t \<Longrightarrow> polite t s (update_schedule t s)"
  by (simp add: update_schedule_def polite_cancel_periodic polite_leaf)

lemma polite_flags:
  assumes "ready t s" and "\<not> in_trigger s t"
  shows "polite t s (enable_now b t s)" and "polite t s (inhibit_now b t s)"
    and "polite t s (update_schedule t (s\<lparr>periodic_task := None\<rparr>))"
    and "polite t s (ends t (s\<lparr>periodic_task := None\<rparr>))"
    and "polite t s (cancel_periodic KCancel (ends t) t (s\<lparr>async_trigger := None\<rparr>))"
  using polite_update_schedule [of t "s\<lparr>enable_flag := b\<rparr>"] polite_update_schedule [of t "s\<lparr>inhibit_flag := b\<rparr>"]
    polite_update_schedule [of t "s\<lparr>periodic_task := None\<rparr>"] polite_leaf(1) [of t "s\<lparr>periodic_task := None\<rparr>"]
    polite_cancel_periodic [of t "s\<lparr>async_trigger := None\<rparr>" KCancel "ends t"] assms
  by (simp_all add: enable_now_def inhibit_now_def polite_upd polite_leaf)

lemma polite_resume:
  assumes "ready t s" and "\<not> in_trigger s t" and "k \<noteq> KOld"
  shows "polite t s (resume t k out s)"
  using assms
  by (auto simp: resume_def polite_leaf polite_flags split: task_end.splits kont.splits)

text \<open>A task that is in the trigger comes out, for good or with the flag still set.\<close>

lemma polite_out:
  assumes "ready t s" and "in_trigger s t" and "trigger_active s"
  shows "polite t s (end_trigger t s)" and "polite t s (raises e t s)" and "polite t s (goto t (Done c) s)"
    and "polite t s (goto t (Await u KOld) s)"
  using assms by (auto simp: daemon_leaf end_trigger_def polite_def ready_def in_trigger_def)

lemma polite_resume_old:
  assumes "ready t s" and "in_trigger s t" and "trigger_active s"
  shows "polite t s (resume t KOld out s)"
  using assms by (auto simp: resume_def catches_def polite_out split: task_end.splits)

lemma polite_await_task:
  "ready t s \<Longrightarrow> \<not> in_trigger s t \<Longrightarrow> k \<noteq> KOld \<Longrightarrow> polite t s (await_task u k t s)"
  by (auto simp: await_task_def polite_leaf polite_resume split: dpc.splits)

lemma polite_daemon_trigger: "ready t s \<Longrightarrow> \<not> in_trigger s t \<Longrightarrow> polite t s (daemon_trigger w t s)"
  by (auto simp: daemon_trigger_def polite_leaf polite_await_task split: option.splits)

lemma polite_periodic:
  assumes "ready t s" and "\<not> in_trigger s t"
  shows "polite t s (periodic_go t s)" and "polite t s (periodic_awake t s)" and "polite t s (periodic_begin t s)"
    and "polite t s (periodic_apps t s)"
  using assms polite_daemon_trigger [of t "s\<lparr>last_applist := clock s\<rparr>" True] polite_leaf(1) [of t "s\<lparr>last_applist := clock s\<rparr>"]
  by (auto simp: periodic_go_def periodic_awake_def periodic_begin_def periodic_apps_def polite_leaf
      polite_daemon_trigger polite_upd)

lemma polite_call:
  assumes r: "ready t s" and n: "\<not> in_trigger s t"
  shows "polite t s (run_call c t s)"
proof (cases c)
  case CShutdown
  then show ?thesis
    using polite_await_task [of t "s\<lparr>serving := False\<rparr>" KShutdown] r n
      polite_cancel_periodic [of t "s\<lparr>serving := False\<rparr>" KCancel "ends t"]
    by (auto simp: daemon_shutdown_def Let_def polite_upd polite_leaf split: option.splits)
next
  case (CSuspend v)
  then show ?thesis
    using polite_leaf(1,6) [of t "s\<lparr>suspend_state := v\<rparr>"] r n
    by (auto simp: leave_suspend_def Let_def polite_upd polite_leaf)
next
  case CStart
  then show ?thesis
    using polite_leaf(1,8) [of t "s\<lparr>serving := True, next_trigger := n\<rparr>" for n] r n
    by (simp add: daemon_start_def Let_def polite_upd polite_leaf)
qed (auto simp: daemon_enable_def daemon_inhibit_def polite_daemon_trigger polite_leaf polite_flags polite_await_task
      r n split: option.splits)

lemma polite_finish:
  assumes r: "ready t s" and i: "in_trigger s t" and a: "trigger_active s"
  shows "polite t s (finish_trigger t s)"
proof -
  define s2 where "s2 = book_trigger s"
  have tn: "t < next_task s" using r by (simp add: ready_def)
  have r2: "ready t s2" "in_trigger s2 t" "trigger_active s2"
    using r i a by (auto simp: s2_def book_trigger_def Let_def daemon_leaf ready_def in_trigger_def)
  have lift: "polite t s s'" if p: "polite t s2 s'" for s'
  proof -
    have "\<And>u. u \<noteq> t \<Longrightarrow> in_trigger s2 u = in_trigger s u" "next_task s \<le> next_task s2"
      and d: "\<And>u. u < next_task s \<Longrightarrow> dpcs s2 u = dpcs s u" and "doomed s2 = doomed s"
      using r by (auto simp: s2_def book_trigger_def Let_def daemon_leaf ready_def in_trigger_def)
    moreover have "not_waiting s v" if "not_waiting s2 v" for v
      using that r by (auto simp: s2_def book_trigger_def Let_def daemon_leaf ready_def not_waiting_def split: if_splits)
    ultimately show ?thesis using p a i r2 by (auto simp: polite_def)
  qed
  have c: "polite t s (await_task p KOld t s3)" if p: "cancel_task p s2 = Some s3" for p s3
  proof -
    have "ready t s3" "in_trigger s3 t" "trigger_active s3" using cancel_task_keeps [OF p] r2 by auto
    then have "polite t s2 (await_task p KOld t s3)"
      using polite_out [of t s3] polite_resume_old [of t s3]
      by (auto simp: await_task_def intro: polite_cancel_task [OF p] split: dpc.splits)
    then show ?thesis by (rule lift)
  qed
  have "finish_trigger t s = (case periodic_task s of
           None \<Rightarrow> end_trigger t s2
         | Some p \<Rightarrow> (if p = t then end_trigger t s2
            else if victim s p = Some t \<and> \<not> over (dpcs s p) then goto t (Await p KOld) s2
            else (case cancel_task p s2 of None \<Rightarrow> raises RuntimeError t s2 | Some s3 \<Rightarrow> await_task p KOld t s3)))"
    unfolding finish_trigger_def Let_def s2_def by (rule refl)
  then show ?thesis
    using polite_out [OF r2, THEN lift] c by (auto split: option.splits)
qed

lemma polite_exclusive:
  assumes e: "exclusive s" and p: "polite t s s'"
  shows "exclusive s'"
proof -
  have one: "u = v" if "in_trigger s' u" "in_trigger s' v" for u v
    using that e p unfolding exclusive_def polite_def by metis
  have act: "trigger_active s'" if "in_trigger s' u" for u
    using that e p unfolding exclusive_def polite_def by metis
  show ?thesis using one act p by (auto simp: exclusive_def polite_def)
qed

lemma exclusive_ready:
  "exclusive s \<Longrightarrow> dpcs s t \<noteq> NoTask \<Longrightarrow> ready t s"
  by (auto simp: exclusive_def ready_def not_le [symmetric])

lemma exclusive_in:
  assumes "exclusive s" and "in_trigger s t"
  shows "ready t s" and "trigger_active s"
proof -
  have "dpcs s t \<noteq> NoTask" using assms(2) by (auto simp: in_trigger_def)
  then show "ready t s" using assms(1) by (rule exclusive_ready [rotated])
  show "trigger_active s" using assms unfolding exclusive_def by blast
qed

lemma in_trigger_at:
  "dpcs s t = Running \<Longrightarrow> in_trigger s t" "dpcs s t = Await u KOld \<Longrightarrow> in_trigger s t"
  by (simp_all add: in_trigger_def)

lemma undoom_same [simp]:
  "in_trigger (undoom u s) t = in_trigger s t" "ready t (undoom u s) = ready t s"
  "trigger_active (undoom u s) = trigger_active s" "dpcs (undoom u s) = dpcs s"
  by (simp_all add: undoom_def)

lemma polite_undoom: "polite t (undoom u s) s' \<Longrightarrow> polite t s s'"
  by (auto simp: polite_def undoom_def in_trigger_def not_waiting_def)

text \<open>A task that has something to do: it does not wait, or a cancellation is to be delivered to it.\<close>

definition acts :: "daemon \<Rightarrow> nat \<Rightarrow> bool" where
  "acts s t = (not_waiting s t \<or> t \<in> set (doomed s))"

lemma acts_at:
  "dpcs s t = Running \<Longrightarrow> acts s t" "dpcs s t = PStart \<Longrightarrow> acts s t" "dpcs s t = PSleep d \<Longrightarrow> acts s t"
  "dpcs s t = PApps \<Longrightarrow> acts s t" "dpcs s t = TStart \<Longrightarrow> acts s t" "dpcs s t = SuspendSleep d \<Longrightarrow> acts s t"
  by (simp_all add: acts_def not_waiting_def)

lemma acts_new: "exclusive s \<Longrightarrow> acts s (next_task s)"
  by (simp add: acts_def not_waiting_def exclusive_def)

lemma step_polite:
  assumes e: "exclusive s" and st: "daemon_step s s'"
  shows "\<exists>t. polite t s s' \<and> acts s t"
  using st
proof (cases rule: daemon_step.cases)
  case (time_passes d)
  then have "polite (next_task s) s s'" using e by (auto simp: polite_def in_trigger_def exclusive_def)
  then show ?thesis using acts_new [OF e] by blast
next
  case (called c)
  let ?s = "s\<lparr>next_task := Suc (next_task s)\<rparr>"
  have "ready (next_task s) ?s" "\<not> in_trigger ?s (next_task s)"
    using e by (auto simp: ready_def in_trigger_def exclusive_def)
  then have "polite (next_task s) ?s s'" by (simp add: called open_call_def polite_call)
  then have "polite (next_task s) s s'" by (auto simp: polite_def in_trigger_def)
  then show ?thesis using acts_new [OF e] by blast
next
  case (runner_returns t)
  then show ?thesis using polite_finish exclusive_in [OF e] in_trigger_at(1) acts_at(1) by blast
next
  case (runner_fails t x)
  then show ?thesis using polite_out(2) exclusive_in [OF e] in_trigger_at(1) acts_at(1) by blast
next
  case (awaited t u k out)
  then have r: "ready t s" by (simp add: exclusive_ready [OF e])
  have "polite t s s'"
  proof (cases "k = KOld")
    case True
    then have "in_trigger s t" using awaited by (simp add: in_trigger_at)
    then show ?thesis using awaited True polite_resume_old [OF r] exclusive_in [OF e] by simp
  next
    case False
    then show ?thesis using awaited polite_resume [OF r] by (simp add: in_trigger_def)
  qed
  moreover have "acts s t" using awaited by (simp add: acts_def not_waiting_def)
  ultimately show ?thesis by blast
next
  case (cancelled_await t u k)
  then have r: "ready t (undoom t s)" by (simp add: exclusive_ready [OF e])
  have "polite t (undoom t s) s'"
  proof (cases "k = KOld")
    case True
    then have "in_trigger s t" using cancelled_await by (simp add: in_trigger_at)
    then show ?thesis using cancelled_await True polite_resume_old [OF r] exclusive_in [OF e] by simp
  next
    case False
    then show ?thesis using cancelled_await polite_resume [OF r] by (simp add: in_trigger_def)
  qed
  then show ?thesis using cancelled_await(3) by (auto simp: acts_def intro: polite_undoom)
next
  case (cancelled t d)
  then have r: "ready t (undoom t s)" using exclusive_ready [OF e, of t] by auto
  have "polite t (undoom t s) s'"
  proof (cases "in_trigger s t")
    case True
    then show ?thesis using cancelled polite_out(3) [OF r] exclusive_in [OF e] by simp
  next
    case False
    then show ?thesis using cancelled polite_leaf(3) [OF r] by simp
  qed
  then show ?thesis using cancelled(3) by (auto simp: acts_def intro: polite_undoom)
next
  case (periodic_begins t)
  then have "ready t s" "\<not> in_trigger s t" "acts s t" by (auto simp: exclusive_ready [OF e] in_trigger_def acts_at)
  then show ?thesis using polite_periodic(3) periodic_begins(1) by blast
next
  case (periodic_wakes t d)
  then have "ready t s" "\<not> in_trigger s t" "acts s t" by (auto simp: exclusive_ready [OF e] in_trigger_def acts_at)
  then show ?thesis using polite_periodic(2) periodic_wakes(1) by blast
next
  case (apps_updated t)
  then have "ready t s" "\<not> in_trigger s t" "acts s t" by (auto simp: exclusive_ready [OF e] in_trigger_def acts_at)
  then show ?thesis using polite_periodic(4) apps_updated(1) by blast
next
  case (apps_fail t x)
  then have "ready t s" "\<not> in_trigger s t" "acts s t" by (auto simp: exclusive_ready [OF e] in_trigger_def acts_at)
  then show ?thesis using polite_leaf(2) apps_fail(1) by blast
next
  case (async_begins t)
  then have "ready t s" "\<not> in_trigger s t" "acts s t" by (auto simp: exclusive_ready [OF e] in_trigger_def acts_at)
  then show ?thesis using polite_leaf(10) async_begins(1) by blast
next
  case (suspend_wakes t d)
  then have "ready t s" "\<not> in_trigger s t" by (auto simp: exclusive_ready [OF e] in_trigger_def)
  then have "polite t s (after_suspend t s)"
    by (simp add: after_suspend_def polite_cancel_periodic polite_update_schedule)
  then show ?thesis using suspend_wakes(1) acts_at(6) [OF suspend_wakes(2)] by blast
qed

lemma step_exclusive: "exclusive s \<Longrightarrow> daemon_step s s' \<Longrightarrow> exclusive s'"
  using step_polite polite_exclusive by blast

lemma fresh_exclusive: "exclusive (fresh_daemon en inh lt t0)"
  by (simp add: exclusive_def fresh_daemon_def in_trigger_def)

lemma run_exclusive: "daemon_run s0 s \<Longrightarrow> exclusive s0 \<Longrightarrow> exclusive s"
  by (induction rule: daemon_run.induct) (auto intro: step_exclusive)

section \<open>One trigger at a time\<close>

text \<open>C4. Whatever the daemon is asked over D-Bus, and however its tasks interleave, are cancelled and fail, two tasks are never inside a trigger at the same time, and the flag that guards a trigger is set while one is.\<close>

theorem one_trigger_at_a_time:
  assumes "daemon_run (fresh_daemon en inh lt t0) s" and "in_trigger s t"
  shows "trigger_active s \<and> (\<forall>u. in_trigger s u = (u = t))"
proof -
  have "exclusive s" using run_exclusive [OF assms(1) fresh_exclusive] .
  then show ?thesis using assms(2) unfolding exclusive_def by blast
qed

lemma one_call_run: "daemon_run s (open_call c s)"
  using daemon_run.one_more [OF daemon_run.no_step daemon_step.called] .

lemma triggering_call:
  "in_trigger (open_call (CTrigger True) (fresh_daemon True False None 0)) 0"
  by (simp add: open_call_def fresh_daemon_def daemon_trigger_def trigger_body_def in_trigger_def goto_def)

theorem one_trigger_at_a_time_witness:
  "\<exists>s. in_trigger s 0 \<and> trigger_active s \<and> (\<forall>u. in_trigger s u = (u = 0))"
  using one_trigger_at_a_time [OF one_call_run triggering_call] triggering_call by blast

text \<open>C16. A step only brings a task into a trigger, that is, starts to collect and submit logs, when no trigger is active, the daemon is enabled, and it is not inhibited.\<close>

theorem trigger_needs_permission:
  assumes "daemon_run (fresh_daemon en inh lt t0) s" and "daemon_step s s'"
    and "\<not> in_trigger s t" and "in_trigger s' t"
  shows "\<not> trigger_active s \<and> enable_flag s' \<and> \<not> inhibit_flag s'"
proof -
  obtain u where p: "polite u s s'"
    using step_polite [OF run_exclusive [OF assms(1) fresh_exclusive] assms(2)] by blast
  then have "t = u" using assms(3,4) unfolding polite_def by blast
  then show ?thesis using p assms(3,4) unfolding polite_def by blast
qed

theorem trigger_needs_permission_witness:
  "\<not> trigger_active (fresh_daemon True False None 0)
     \<and> enable_flag (open_call (CTrigger True) (fresh_daemon True False None 0))
     \<and> \<not> inhibit_flag (open_call (CTrigger True) (fresh_daemon True False None 0))"
  by (rule trigger_needs_permission [OF daemon_run.no_step daemon_step.called _ triggering_call])
    (simp add: in_trigger_def fresh_daemon_def)

section \<open>A daemon that never triggers again\<close>

text \<open>
  \<^verbatim>\<open>_trigger\<close> resets its flag only where it ends normally. An orphaned flag is set with no task left
  to reset it; in an embrace the trigger and the old periodic task wait for each other.
\<close>

definition orphaned :: "daemon \<Rightarrow> bool" where
  "orphaned s = (trigger_active s \<and> (\<forall>t. \<not> in_trigger s t))"

definition embrace :: "nat \<Rightarrow> nat \<Rightarrow> daemon \<Rightarrow> bool" where
  "embrace t p s = (dpcs s t = Await p KOld \<and> dpcs s p = Await t KTrigger \<and> t \<noteq> p
     \<and> t \<notin> set (doomed s) \<and> p \<notin> set (doomed s))"

lemma step_orphaned:
  assumes "exclusive s" and "orphaned s" and "daemon_step s s'"
  shows "orphaned s'"
proof -
  obtain t where p: "polite t s s'" using step_polite [OF assms(1,3)] by blast
  have "\<not> in_trigger s' u" for u using p assms(2) unfolding polite_def orphaned_def by metis
  then show ?thesis using p assms(2) unfolding polite_def orphaned_def by blast
qed

lemma run_orphaned: "daemon_run s0 s \<Longrightarrow> exclusive s0 \<Longrightarrow> orphaned s0 \<Longrightarrow> exclusive s \<and> orphaned s"
  by (induction rule: daemon_run.induct) (auto intro: step_exclusive step_orphaned)

lemma step_embrace:
  assumes e: "exclusive s" and m: "embrace t p s" and st: "daemon_step s s'"
  shows "embrace t p s'"
proof -
  obtain u where u: "polite u s s'" "acts s u" using step_polite [OF e st] by blast
  have w: "\<not> not_waiting s t" "\<not> not_waiting s p" using m by (auto simp: embrace_def not_waiting_def)
  then have "u \<noteq> t" "u \<noteq> p" using m u(2) by (auto simp: acts_def embrace_def)
  moreover have "t < next_task s" "p < next_task s"
    using e m by (auto simp: exclusive_def embrace_def not_le [symmetric])
  ultimately have "dpcs s' t = dpcs s t" "dpcs s' p = dpcs s p" using u(1) by (auto simp: polite_def)
  moreover have "t \<notin> set (doomed s')" "p \<notin> set (doomed s')"
    using u(1) m w by (auto simp: polite_def embrace_def)
  ultimately show ?thesis using m by (simp add: embrace_def)
qed

lemma run_embrace: "daemon_run s0 s \<Longrightarrow> exclusive s0 \<Longrightarrow> embrace t p s0 \<Longrightarrow> exclusive s \<and> embrace t p s"
  by (induction rule: daemon_run.induct) (auto intro: step_exclusive step_embrace)

lemma run_trans: "daemon_run s1 s2 \<Longrightarrow> daemon_run s0 s1 \<Longrightarrow> daemon_run s0 s2"
  by (induction rule: daemon_run.induct) (auto intro: daemon_run.one_more)

text \<open>The trigger returns from the runner while the periodic task waits for it.\<close>

lemma finish_embrace:
  assumes e: "exclusive s" and a: "dpcs s a = Running" and p: "periodic_task s = Some p"
    and k: "dpcs s p = Await a KTrigger" and d: "a \<notin> set (doomed s)" "p \<notin> set (doomed s)"
  shows "embrace a p (finish_trigger a s)"
proof -
  have b: "a < next_task s" "p < next_task s" using e a k by (auto simp: exclusive_def not_le [symmetric])
  have n: "a \<noteq> p" using a k by auto
  obtain n where "next_task s = Suc n" using b by (cases "next_task s") auto
  then have "victim s p = Some a" using a k by (simp add: victim_def)
  then have "finish_trigger a s = goto a (Await p KOld) (book_trigger s)"
    using p k n by (simp add: finish_trigger_def)
  then show ?thesis using k d b n
    by (simp add: embrace_def daemon_leaf book_trigger_def Let_def)
qed

lemma disabling_orphans:
  assumes "daemon_run (fresh_daemon en inh lt t0) s" and "dpcs s p = Running" and "periodic_task s = Some p"
    and "async_trigger s = None" and "enable_flag s"
  shows "\<exists>s'. daemon_run (open_call (CEnable False) s) s' \<and> dpcs s' p = Done Cancelled \<and> orphaned s'"
proof -
  let ?c = "open_call (CEnable False) s"
  have e: "exclusive s" using run_exclusive [OF assms(1) fresh_exclusive] .
  have "ready p s" "trigger_active s" using exclusive_in [OF e in_trigger_at(1) [OF assms(2)]] by auto
  then have n: "p \<noteq> next_task s" by (simp add: ready_def)
  have c: "?c = s\<lparr>next_task := Suc (next_task s), enable_flag := False, doomed := p # doomed s,
      dpcs := (dpcs s)(next_task s := Await p KCancel)\<rparr>"
    using assms by (simp add: open_call_def daemon_enable_def enable_now_def update_schedule_def cancel_periodic_def
        cancel_task_def victim_def goto_def)
  let ?s = "goto p (Done Cancelled) (undoom p ?c)"
  have st: "daemon_step ?c ?s" using assms(2) n by (intro daemon_step.cancelled [of _ _ 0]) (simp_all add: c)
  have "t = p" if "in_trigger s t" for t
    using that in_trigger_at(1) [OF assms(2)] e unfolding exclusive_def by blast
  moreover have "dpcs s (next_task s) = NoTask" using e by (simp add: exclusive_def)
  ultimately have "orphaned ?s"
    using \<open>trigger_active s\<close> by (auto simp: orphaned_def c goto_def undoom_def in_trigger_def split: if_splits)
  then show ?thesis
    using daemon_run.one_more [OF daemon_run.no_step st] by (intro exI [of _ ?s]) (simp add: goto_def)
qed

text \<open>A run to a state with a trigger in the periodic task, and one where a second trigger overlaps it.\<close>

definition demo_start :: daemon where
  "demo_start = periodic_begin 1 (open_call CStart (fresh_daemon True False None 0))"

definition demo_periodic :: daemon where
  "demo_periodic = periodic_awake 1 (demo_start\<lparr>clock := clock demo_start + 20000\<rparr>)"

definition demo_async :: daemon where
  "demo_async = (let s = trigger_body 3 (open_call (CTrigger False) demo_start)
     in periodic_awake 1 (s\<lparr>clock := clock s + 20000\<rparr>))"

lemmas demo_defs = demo_start_def demo_periodic_def demo_async_def open_call_def daemon_start_def fresh_daemon_def
  daemon_leaf Let_def STARTUP_def periodic_begin_def periodic_awake_def periodic_go_def APPLIST_UPDATE_INTERVAL_def
  daemon_trigger_def trigger_body_def await_task_def

lemma demo_start_run: "daemon_run (fresh_daemon True False None 0) demo_start"
  unfolding demo_start_def
  by (rule daemon_run.one_more [OF one_call_run daemon_step.periodic_begins]) (simp_all add: demo_defs)

lemma demo_periodic_run: "daemon_run (fresh_daemon True False None 0) demo_periodic"
  unfolding demo_periodic_def
  by (rule daemon_run.one_more [OF daemon_run.one_more [OF demo_start_run daemon_step.time_passes]
        daemon_step.periodic_wakes [of _ _ 20000]])
    (simp_all add: demo_defs)

lemma demo_async_run: "daemon_run (fresh_daemon True False None 0) demo_async"
  unfolding demo_async_def Let_def
  by (rule daemon_run.one_more [OF daemon_run.one_more [OF daemon_run.one_more [OF run_trans [OF one_call_run demo_start_run]
          daemon_step.async_begins] daemon_step.time_passes] daemon_step.periodic_wakes [of _ _ 20000]])
    (simp_all add: demo_defs)

lemma demo_periodic_at:
  "dpcs demo_periodic 1 = Running" "periodic_task demo_periodic = Some 1" "async_trigger demo_periodic = None"
  "enable_flag demo_periodic"
  by (simp_all add: demo_defs)

lemma demo_async_at:
  "dpcs demo_async 3 = Running" "periodic_task demo_async = Some 1" "dpcs demo_async 1 = Await 3 KTrigger"
  "doomed demo_async = []"
  by (simp_all add: demo_defs)

lemma orphan_reachable: "\<exists>s. daemon_run (fresh_daemon True False None 0) s \<and> orphaned s"
  using disabling_orphans [OF demo_periodic_run demo_periodic_at] run_trans [OF _ run_trans [OF one_call_run demo_periodic_run]]
  by blast

text \<open>Once a trigger has ended without resetting the flag (it was cancelled, or the runner or the old periodic task raised), no task ever comes into a trigger again: the daemon keeps running and never collects or submits another log.\<close>

theorem orphaned_flag_is_forever:
  assumes "daemon_run (fresh_daemon en inh lt t0) s0" and "orphaned s0" and "daemon_run s0 s"
  shows "trigger_active s \<and> (\<forall>t. \<not> in_trigger s t)"
  using run_orphaned [OF assms(3) run_exclusive [OF assms(1) fresh_exclusive] assms(2)]
  by (simp add: orphaned_def)

theorem orphaned_flag_is_forever_witness:
  "\<exists>s. daemon_run (fresh_daemon True False None 0) s \<and> trigger_active (open_call (CTrigger True) s)
     \<and> (\<forall>t. \<not> in_trigger (open_call (CTrigger True) s) t)"
  using orphan_reachable orphaned_flag_is_forever [OF _ _ one_call_run] by blast

text \<open>C15. A trigger started with TriggerAsync that is still running when the periodic task wakes up, which then waits for it, never ends: once the runner has returned, the two tasks wait for each other for good, the flag stays set, and no other task ever comes into a trigger.\<close>

theorem overlapping_triggers_wedge:
  assumes "daemon_run (fresh_daemon en inh lt t0) s"
    and "dpcs s a = Running" and "periodic_task s = Some p" and "dpcs s p = Await a KTrigger"
    and "a \<notin> set (doomed s)" and "p \<notin> set (doomed s)"
    and "daemon_run (finish_trigger a s) s'"
  shows "dpcs s' a = Await p KOld \<and> dpcs s' p = Await a KTrigger \<and> trigger_active s' \<and> (\<forall>t. in_trigger s' t = (t = a))"
proof -
  have e: "exclusive s" using run_exclusive [OF assms(1) fresh_exclusive] .
  have "daemon_step s (finish_trigger a s)" using assms by (intro daemon_step.runner_returns)
  then have "exclusive (finish_trigger a s)" by (rule step_exclusive [OF e])
  then have "exclusive s' \<and> embrace a p s'" using run_embrace [OF assms(7)] finish_embrace [OF e] assms by blast
  moreover then have "in_trigger s' a" by (simp add: embrace_def in_trigger_at)
  ultimately show ?thesis unfolding exclusive_def embrace_def by blast
qed

theorem overlapping_triggers_wedge_witness:
  "dpcs (finish_trigger 3 demo_async) 3 = Await 1 KOld \<and> dpcs (finish_trigger 3 demo_async) 1 = Await 3 KTrigger
     \<and> trigger_active (finish_trigger 3 demo_async) \<and> (\<forall>t. in_trigger (finish_trigger 3 demo_async) t = (t = 3))"
  by (rule overlapping_triggers_wedge [OF demo_async_run demo_async_at(1-3) _ _ daemon_run.no_step])
    (simp_all add: demo_async_at)

text \<open>Disabling the daemon while its periodic task is collecting and submitting cancels that task in the middle of the trigger, which leaves the flag set with no task to reset it.\<close>

theorem disabling_orphans_the_flag:
  assumes "daemon_run (fresh_daemon en inh lt t0) s" and "dpcs s p = Running" and "periodic_task s = Some p"
    and "async_trigger s = None" and "enable_flag s"
  shows "\<exists>s'. daemon_run (open_call (CEnable False) s) s' \<and> dpcs s' p = Done Cancelled \<and> orphaned s'"
  using disabling_orphans [OF assms] .

theorem disabling_orphans_the_flag_witness:
  "\<exists>s'. daemon_run (open_call (CEnable False) demo_periodic) s' \<and> dpcs s' 1 = Done Cancelled \<and> orphaned s'"
  using disabling_orphans_the_flag [OF demo_periodic_run demo_periodic_at] .


section \<open>The schedule\<close>

text \<open>C17. When the runner returns to a trigger that runs in the periodic task itself, the trigger ends: the flag is reset, the time is recorded, and a new periodic task takes over that will sleep until an interval later.\<close>

theorem periodic_trigger_reschedules:
  assumes "daemon_run (fresh_daemon en inh lt t0) s" and "dpcs s t = Running" and "periodic_task s = Some t"
    and "serving s"
  shows "\<not> trigger_active (finish_trigger t s) \<and> async_trigger (finish_trigger t s) = None
    \<and> last_trigger (finish_trigger t s) = Some (clock s) \<and> dpcs (finish_trigger t s) t = Done Returned
    \<and> periodic_task (finish_trigger t s) = Some (next_task s)
    \<and> dpcs (periodic_begin (next_task s) (finish_trigger t s)) (next_task s) = PSleep (clock s + INTERVAL)"
proof -
  have e: "exclusive s" using run_exclusive [OF assms(1) fresh_exclusive] .
  have "t < next_task s" using exclusive_in(1) [OF e in_trigger_at(1) [OF assms(2)]] by (simp add: ready_def)
  then show ?thesis using assms
    by (simp add: finish_trigger_def end_trigger_def book_trigger_def Let_def daemon_leaf periodic_begin_def INTERVAL_def)
qed

theorem periodic_trigger_reschedules_witness:
  "\<not> trigger_active (finish_trigger 1 demo_periodic) \<and> async_trigger (finish_trigger 1 demo_periodic) = None
    \<and> last_trigger (finish_trigger 1 demo_periodic) = Some (clock demo_periodic)
    \<and> dpcs (finish_trigger 1 demo_periodic) 1 = Done Returned
    \<and> periodic_task (finish_trigger 1 demo_periodic) = Some (next_task demo_periodic)
    \<and> dpcs (periodic_begin (next_task demo_periodic) (finish_trigger 1 demo_periodic)) (next_task demo_periodic)
        = PSleep (clock demo_periodic + INTERVAL)"
  by (rule periodic_trigger_reschedules [OF demo_periodic_run demo_periodic_at(1,2)]) (simp add: demo_defs)

end
