(* ===== verification/Unit_Names.thy ===== *)
theory Unit_Names imports Py_Strings begin

text \<open>
  Hexadecimal numbers as the program reads and writes them, and the escaping of systemd unit names
  into file names (\<^verbatim>\<open>escape\<close> and \<^verbatim>\<open>unescape\<close> of \<^verbatim>\<open>helpers/journal.py\<close>). A string is its code points; the
  bytes of its UTF-8 encoding are written out for the code points below 256.
\<close>

section \<open>Hexadecimal digits\<close>

definition hex_digit :: "nat \<Rightarrow> char" where
  "hex_digit n = (if n < 10 then char_of (48 + n) else char_of (87 + n))"

definition hex_value :: "char \<Rightarrow> nat option" where
  "hex_value c = (if is_digit c then Some (code c - 48)
     else if 97 \<le> code c \<and> code c \<le> 102 then Some (code c - 87)
     else if 65 \<le> code c \<and> code c \<le> 70 then Some (code c - 55) else None)"

lemma hex_value_digit [simp]: "n < 16 \<Longrightarrow> hex_value (hex_digit n) = Some n"
  by (auto simp: hex_value_def hex_digit_def is_digit_def)

text \<open>\<^verbatim>\<open>f'{n:2x}'\<close>: at least two places, filled with a space on the left.\<close>

definition hex2 :: "nat \<Rightarrow> string" where
  "hex2 n = (if n < 16 then [CHR '' '', hex_digit n] else [hex_digit (n div 16), hex_digit (n mod 16)])"

text \<open>\<^verbatim>\<open>int(x, 16)\<close> of two characters: white space around, a sign, digits.\<close>

definition int_hex2 :: "char \<Rightarrow> char \<Rightarrow> int option" where
  "int_hex2 a b =
     (if is_space a then map_option int (hex_value b)
      else if is_space b then map_option int (hex_value a)
      else if a = CHR ''+'' then map_option int (hex_value b)
      else if a = CHR ''-'' then map_option (\<lambda>n. - int n) (hex_value b)
      else (case (hex_value a, hex_value b) of (Some m, Some n) \<Rightarrow> Some (int (16 * m + n)) | _ \<Rightarrow> None))"

lemma literal_codes:
  "code (CHR ''+'') = 43" "code (CHR ''-'') = 45" "code (CHR ''_'') = 95" "code (CHR '' '') = 32"
  by (simp_all add: code_def)

lemma space_class: "is_space (CHR '' '')"
  by (simp add: is_space_def literal_codes)

lemma hex_digit_class:
  "n < 16 \<Longrightarrow> \<not> is_space (hex_digit n)" "n < 16 \<Longrightarrow> hex_digit n \<noteq> CHR ''+''" "n < 16 \<Longrightarrow> hex_digit n \<noteq> CHR ''-''"
  by (auto simp: hex_digit_def is_space_def code_eq_iff [symmetric] literal_codes)

lemma int_hex2_hex2:
  assumes "n < 256"
  shows "\<exists>a b. hex2 n = [a, b] \<and> int_hex2 a b = Some (int n)"
proof (cases "n < 16")
  case True
  then show ?thesis by (simp add: hex2_def int_hex2_def space_class)
next
  case False
  have d: "n div 16 < 16" using assms by simp
  have "16 * (n div 16) + n mod 16 = n" by simp
  then show ?thesis using False d hex_digit_class [OF d] hex_digit_class [of "n mod 16"]
    by (simp add: hex2_def int_hex2_def)
qed

section \<open>escape and unescape\<close>

definition alphanumeric :: "nat \<Rightarrow> bool" where
  "alphanumeric n = (48 \<le> n \<and> n \<le> 57 \<or> 65 \<le> n \<and> n \<le> 90 \<or> 97 \<le> n \<and> n \<le> 122)"

definition utf8_char :: "char \<Rightarrow> nat list" where
  "utf8_char c = (if code c < 128 then [code c] else [192 + code c div 64, 128 + code c mod 64])"

definition escape_byte :: "nat \<Rightarrow> string" where
  "escape_byte n = (if alphanumeric n then [char_of n] else CHR ''_'' # hex2 n)"

definition escape :: "string \<Rightarrow> string" where
  "escape name = concat (map escape_byte (concat (map utf8_char name)))"

text \<open>
  The loop: the text so far, and the escape in progress if there is one. A value that is no code
  point is logged and left out; an escape cut short by the end is dropped. A code point from 256 on
  cannot come of two digits.
\<close>

fun unescape_loop :: "string option \<Rightarrow> string \<Rightarrow> string" where
  "unescape_loop p [] = []"
| "unescape_loop None (c # cs) = (if c \<noteq> CHR ''_'' then c # unescape_loop None cs else unescape_loop (Some []) cs)"
| "unescape_loop (Some []) (c # cs) = unescape_loop (Some [c]) cs"
| "unescape_loop (Some (a # _)) (c # cs) =
     (case int_hex2 a c of
        Some v \<Rightarrow> (if 0 \<le> v then char_of (nat v) # unescape_loop None cs else unescape_loop None cs)
      | None \<Rightarrow> unescape_loop None cs)"

definition unescape :: "string \<Rightarrow> string" where
  "unescape escaped = unescape_loop None escaped"

lemma unescape_loop_byte:
  assumes "n < 256"
  shows "unescape_loop None (escape_byte n @ cs) = char_of n # unescape_loop None cs"
proof (cases "alphanumeric n")
  case True
  then have "(char_of n :: char) \<noteq> CHR ''_''" by (auto simp: alphanumeric_def code_eq_iff [symmetric] literal_codes)
  with True show ?thesis by (simp add: escape_byte_def)
next
  case False
  obtain a b where "hex2 n = [a, b]" "int_hex2 a b = Some (int n)" using int_hex2_hex2 [OF assms] by blast
  with False show ?thesis by (simp add: escape_byte_def)
qed

lemma unescape_loop_bytes:
  "\<forall>n \<in> set ns. n < 256 \<Longrightarrow>
    unescape_loop None (concat (map escape_byte ns) @ cs) = map char_of ns @ unescape_loop None cs"
  by (induction ns) (simp_all add: unescape_loop_byte)

lemma utf8_less: "n \<in> set (utf8_char c) \<Longrightarrow> n < 256"
  using code_less [of c] less_mult_imp_div_less [of "code c" 4 64] by (auto simp: utf8_char_def split: if_splits)

text \<open>What comes back is the string of the encoded bytes.\<close>

lemma unescape_escape: "unescape (escape s) = map char_of (concat (map utf8_char s))"
  using unescape_loop_bytes [of "concat (map utf8_char s)" "[]"] by (auto simp: unescape_def escape_def dest: utf8_less)

definition is_ascii :: "string \<Rightarrow> bool" where
  "is_ascii s = list_all (\<lambda>c. code c < 128) s"

lemma utf8_ascii: "is_ascii s \<Longrightarrow> map char_of (concat (map utf8_char s)) = s"
  by (induction s) (simp_all add: is_ascii_def utf8_char_def)

text \<open>Names that go through \<open>unescape\<close> as they are, in front of an escaped one.\<close>

lemma unescape_append_plain:
  "CHR ''_'' \<notin> set p \<Longrightarrow> unescape (p @ s) = p @ unescape s"
  by (induction p) (auto simp: unescape_def)

lemma escape_chars: "c \<in> set (escape s) \<Longrightarrow> alphanumeric (code c) \<or> c = CHR ''_'' \<or> c = CHR '' ''"
proof -
  have h: "alphanumeric (code (hex_digit n))" if "n < 16" for n
    using that by (auto simp: hex_digit_def alphanumeric_def)
  have "alphanumeric (code c) \<or> c = CHR ''_'' \<or> c = CHR '' ''" if "c \<in> set (escape_byte n)" "n < 256" for n
    using that h by (auto simp: escape_byte_def hex2_def split: if_splits)
  then show "c \<in> set (escape s) \<Longrightarrow> ?thesis" by (auto simp: escape_def dest: utf8_less)
qed

end
