(* ===== verification/Journal.thy ===== *)
theory Journal imports Submits Data Helper_Files Unit_Names "HOL-Library.Countable" begin

text \<open>
  The journal helper (\<^verbatim>\<open>helpers/journal.py\<close>): which units failed, the journal of each failed invocation
  gathered into one pending log per unit and invocation, the cursors that remember how far the journal
  was read, and the submission. \<^verbatim>\<open>journalctl\<close>, \<^verbatim>\<open>json.loads\<close> and \<^verbatim>\<open>json.dump\<close> are arguments; a Python set
  of units or invocations is a list, in one of the orders it may be iterated.
\<close>

section \<open>The journal of a unit\<close>

definition system_units :: "string list" where
  "system_units = [''gpu-trace.service'', ''holo-boot.service'', ''holo-cfs-debugfs-tunings.service'',
     ''holo-create-homedir.service'', ''holo-dump-info.service'', ''holo-install-grub.service'',
     ''holo-install-steamcl.service'', ''holo-offload.target'', ''jupiter-biosupdate.service'',
     ''jupiter-controller-update.service'', ''jupiter-fan-control.service'', ''rauc.service'',
     ''steam-web-debug-portforward.service'', ''steamos-boot.service'', ''steamos-cfs-debugfs-tunings.service'',
     ''steamos-create-homedir.service'', ''steamos-devkit-service.service'', ''steamos-dump-info.service'',
     ''steamos-finish-oobe-migration.service'', ''steamos-install-grub.service'', ''steamos-install-steamcl.service'',
     ''steamos-kdumpst-layer.service'', ''steamos-log-submitter.service'', ''steamos-manager.service'',
     ''steamos-mkvarboot.service'', ''steamos-offload.target'', ''steamos-post-update.service'',
     ''steamos-settings-importer.service'', ''vpower.service'']"

definition user_units :: "string list" where
  "user_units = [''gamescope-mangoapp.service'', ''gamescope-session.service'', ''gamescope-xbindkeys.service'',
     ''steam-launcher.service'', ''steam-notif-daemon.service'', ''steamos-manager.service'',
     ''steamos-powerbuttond.service'']"

type_synonym entry = "(string, json) dict"
type_synonym journalctl = "string list \<Rightarrow> json result list result"

definition unit_query :: "string \<Rightarrow> bool \<Rightarrow> string option \<Rightarrow> jquery" where
  "unit_query unit user cursor = \<lparr>jq_unit = unit, jq_cursor = cursor, jq_current_boot = False,
     jq_start_ago_ms = None, jq_uid = None, jq_allow_system = \<not> user, jq_allow_user = user\<rparr>"

definition invocation_key :: "bool \<Rightarrow> string" where
  "invocation_key user = (if user then ''USER_INVOCATION_ID'' else ''INVOCATION_ID'')"

definition invocation_of :: "bool \<Rightarrow> json \<Rightarrow> entry \<Rightarrow> json" where
  "invocation_of user dflt log = (let v = obj_get log (invocation_key user)
     in if truthy v then v else dict_getd log ''_SYSTEMD_INVOCATION_ID'' dflt)"

definition anonymised :: "entry \<Rightarrow> entry" where
  "anonymised log = dict_del (dict_del log ''_HOSTNAME'') ''_MACHINE_ID''"

fun split_logs :: "bool \<Rightarrow> string list \<Rightarrow> entry list \<Rightarrow> (string, entry list) dict \<Rightarrow> (string, entry list) dict result" where
  "split_logs user invs [] acc = Inr acc"
| "split_logs user invs (log # logs) acc = (case invocation_of user (JStr []) log of
       JStr i \<Rightarrow> split_logs user invs logs
         (if i \<in> set invs then dict_set acc i (dict_getd acc i [] @ [anonymised log]) else acc)
     | _ \<Rightarrow> Inl AssertionError)"

definition unit_journal :: "journalctl \<Rightarrow> string \<Rightarrow> string list \<Rightarrow> bool \<Rightarrow> string option
    \<Rightarrow> ((string, entry list) dict \<times> json) result" where
  "unit_journal exec unit invs user cursor = (case read_journal exec (unit_query unit user cursor) of
       Inl e \<Rightarrow> Inl e
     | Inr (logs, c) \<Rightarrow> (case logs of
         None \<Rightarrow> Inr ([], c)
       | Some ls \<Rightarrow> (case split_logs user invs ls [] of Inl e \<Rightarrow> Inl e | Inr res \<Rightarrow> Inr (res, c))))"

section \<open>Failed units\<close>

definition failed_query :: "bool \<Rightarrow> string option \<Rightarrow> jquery" where
  "failed_query user cursor = \<lparr>jq_unit = (if user then ''user@1000.service'' else ''init.scope''),
     jq_cursor = cursor, jq_current_boot = False,
     jq_start_ago_ms = (case cursor of None \<Rightarrow> Some 2592000000 | Some _ \<Rightarrow> None),
     jq_uid = None, jq_allow_system = True, jq_allow_user = False\<rparr>"

definition failing :: "entry \<Rightarrow> bool" where
  "failing log = (obj_get log ''UNIT_RESULT'' \<in> set (map JStr [''resources'', ''protocol'', ''timeout'', ''exit-code'',
       ''signal'', ''core-dump'', ''watchdog'']) \<or> obj_get log ''JOB_RESULT'' = JStr ''failed'')"

fun gather_failed :: "bool \<Rightarrow> entry list \<Rightarrow> (string, string list) dict \<Rightarrow> (string, string list) dict result" where
  "gather_failed user [] acc = Inr acc"
| "gather_failed user (log # logs) acc =
     (if \<not> failing log then gather_failed user logs acc
      else (let ivc = invocation_of user JNull log; unit = obj_get log (if user then ''USER_UNIT'' else ''UNIT'')
        in if ivc = JNull \<or> unit = JNull then gather_failed user logs acc
           else (case (unit, ivc) of
               (JStr u, JStr i) \<Rightarrow> gather_failed user logs (dict_set acc u (List.insert i (dict_getd acc u [])))
             | _ \<Rightarrow> Inl AssertionError)))"

definition failed_units :: "journalctl \<Rightarrow> bool \<Rightarrow> string option \<Rightarrow> ((string, string list) dict \<times> json) result" where
  "failed_units exec user cursor = (case read_journal exec (failed_query user cursor) of
       Inl e \<Rightarrow> Inl e
     | Inr (logs, c) \<Rightarrow> (case gather_failed user (case logs of None \<Rightarrow> [] | Some ls \<Rightarrow> ls) [] of
         Inl e \<Rightarrow> Inl e | Inr failed \<Rightarrow> Inr (failed, c)))"

section \<open>Collecting\<close>

record journal_env =
  je_exec :: journalctl
  je_loads :: "string \<Rightarrow> json result"
  je_dumps :: "json \<Rightarrow> string"
  je_wfail :: "string \<Rightarrow> bool"            \<comment> \<open>opening this log for writing raises an OSError\<close>
  je_clock :: int

definition unit_name :: "bool \<Rightarrow> string \<Rightarrow> string" where
  "unit_name user unit = (if user then ''user.'' @ escape unit else escape unit)"

definition journal_file :: "bool \<Rightarrow> string \<Rightarrow> string \<Rightarrow> string" where
  "journal_file user unit ivc = unit_name user unit @ '' '' @ ivc @ ''.json''"

text \<open>The log as it was: None when it is there but cannot be read.\<close>

definition old_journal :: "journal_env \<Rightarrow> string \<Rightarrow> 'x world_scheme \<Rightarrow> json list option result" where
  "old_journal je file w = (case pend_dir w ''journal'' of
       None \<Rightarrow> Inr (Some [])
     | Some d \<Rightarrow> (case dict_get d file of
         None \<Rightarrow> Inr (Some [])
       | Some f \<Rightarrow>
          (if \<not> lf_readable f then Inr None
           else (case je_loads je (lf_text f) of
               Inr (JList xs) \<Rightarrow> Inr (Some xs)
             | Inr _ \<Rightarrow> Inl AttributeError
             | Inl e \<Rightarrow> (if e = JSONDecodeError then Inr (Some []) else Inl e)))))"

definition add_journal :: "journal_env \<Rightarrow> string \<Rightarrow> entry list \<Rightarrow> 'x world_scheme \<Rightarrow> unit result \<times> 'x world_scheme" where
  "add_journal je file new w = (case old_journal je file w of
       Inl e \<Rightarrow> (Inl e, w)
     | Inr None \<Rightarrow> (Inr (), w)
     | Inr (Some old) \<Rightarrow>
        (let all = old @ map JObj new in
         if all = [] then (Inr (), w)
         else (case pend_dir w ''journal'' of
             None \<Rightarrow> (Inr (), w)
           | Some d \<Rightarrow>
              (if je_wfail je file then (Inr (), w)
               else (Inr (), set_pend ''journal'' (dict_set d file
                  \<lparr>lf_text = je_dumps je (JList all), lf_mtime = je_clock je, lf_readable = True, lf_stat = True\<rparr>) w)))))"

fun add_journals :: "journal_env \<Rightarrow> bool \<Rightarrow> string \<Rightarrow> (string, entry list) dict \<Rightarrow> 'x world_scheme
    \<Rightarrow> unit result \<times> 'x world_scheme" where
  "add_journals je user unit [] w = (Inr (), w)"
| "add_journals je user unit ((ivc, new) # rest) w = (case add_journal je (journal_file user unit ivc) new w of
       (Inl e, w') \<Rightarrow> (Inl e, w')
     | (Inr _, w') \<Rightarrow> add_journals je user unit rest w')"

text \<open>\<^verbatim>\<open>assert cursor is None or isinstance(cursor, str)\<close>.\<close>

definition stored_cursor :: "store \<Rightarrow> string \<Rightarrow> string option result" where
  "stored_cursor s name = (case ds_get s name JNull of
       JNull \<Rightarrow> Inr None | JStr c \<Rightarrow> Inr (Some c) | _ \<Rightarrow> Inl AssertionError)"

definition collect_unit :: "journal_env \<Rightarrow> bool \<Rightarrow> (string, string list) dict \<Rightarrow> string \<Rightarrow> store \<times> 'x world_scheme
    \<Rightarrow> unit result \<times> store \<times> 'x world_scheme" where
  "collect_unit je user failed unit sw =
     (let name = unit_name user unit @ ''.cursor'' in
      case sw of (s, w) \<Rightarrow>
      (case dict_get failed unit of
        None \<Rightarrow> (Inr (), s, w)
      | Some invs \<Rightarrow> (case stored_cursor s name of
          Inl e \<Rightarrow> (Inl e, s, w)
        | Inr cursor \<Rightarrow> (case unit_journal (je_exec je) unit invs user cursor of
            Inl e \<Rightarrow> (Inl e, s, w)
          | Inr (journal, c) \<Rightarrow>
             (if journal = [] then (Inr (), s, w)
              else (case add_journals je user unit journal w of
                  (Inl e, w') \<Rightarrow> (Inl e, s, w')
                | (Inr _, w') \<Rightarrow> (Inr (), ds_setitem s name c, w')))))))"

fun collect_units :: "journal_env \<Rightarrow> bool \<Rightarrow> (string, string list) dict \<Rightarrow> string list \<Rightarrow> store \<times> 'x world_scheme
    \<Rightarrow> unit result \<times> store \<times> 'x world_scheme" where
  "collect_units je user failed [] sw = (Inr (), sw)"
| "collect_units je user failed (u # us) sw = (case collect_unit je user failed u sw of
       (Inl e, sw') \<Rightarrow> (Inl e, sw')
     | (Inr _, sw') \<Rightarrow> collect_units je user failed us sw')"

definition collect_inner :: "journal_env \<Rightarrow> bool \<Rightarrow> store \<times> 'x world_scheme \<Rightarrow> unit result \<times> store \<times> 'x world_scheme" where
  "collect_inner je user sw =
     (let name = (if user then ''user_cursor'' else ''system_cursor'') in
      case sw of (s, w) \<Rightarrow> (case stored_cursor s name of
        Inl e \<Rightarrow> (Inl e, s, w)
      | Inr cursor \<Rightarrow> (case failed_units (je_exec je) user cursor of
          Inl e \<Rightarrow> (Inl e, s, w)
        | Inr (failed, c) \<Rightarrow>
            collect_units je user failed (if user then user_units else system_units) (ds_setitem s name c, w))))"

definition journal_helper :: helper where
  "journal_helper = \<lparr>h_name = ''journal'', h_exts = [''.json'']\<rparr>"

definition journal_collect :: "journal_env \<Rightarrow> data_state \<Rightarrow> store \<times> 'x world_scheme
    \<Rightarrow> string list result \<times> data_state \<times> store \<times> 'x world_scheme" where
  "journal_collect je st sw = (case collect_inner je False sw of
       (Inl e, sw1) \<Rightarrow> (Inl e, st, sw1)
     | (Inr _, sw1) \<Rightarrow> (case collect_inner je True sw1 of
         (Inl e, sw2) \<Rightarrow> (Inl e, st, sw2)
       | (Inr _, s2, w2) \<Rightarrow> (case ds_write st s2 of
           (r, s3, st3) \<Rightarrow> (case r of
               Inl e \<Rightarrow> (if is_OSError e then (case base_collect journal_helper w2 of (res, w3) \<Rightarrow> (res, st3, s3, w3))
                         else (Inl e, st3, s3, w2))
             | Inr _ \<Rightarrow> (case base_collect journal_helper w2 of (res, w3) \<Rightarrow> (res, st3, s3, w3))))))"

section \<open>Submitting\<close>

fun bytes_of :: "json list \<Rightarrow> int list result" where
  "bytes_of [] = Inr []"
| "bytes_of (v # vs) = (case (case v of JInt n \<Rightarrow> (if 0 \<le> n \<and> n < 256 then Inr n else Inl ValueError)
       | JBool b \<Rightarrow> Inr (if b then 1 else 0) | _ \<Rightarrow> Inl TypeError) of
     Inl e \<Rightarrow> Inl e | Inr n \<Rightarrow> (case bytes_of vs of Inl e \<Rightarrow> Inl e | Inr ns \<Rightarrow> Inr (n # ns)))"

definition iterated :: "json \<Rightarrow> json list result" where
  "iterated v = (case v of JList xs \<Rightarrow> Inr xs | JObj d \<Rightarrow> Inr (map (JStr \<circ> fst) d)
     | JStr s \<Rightarrow> Inr (map (\<lambda>c. JStr [c]) s) | _ \<Rightarrow> Inl TypeError)"

fun journal_messages :: "(int list \<Rightarrow> string) \<Rightarrow> json list \<Rightarrow> json list result" where
  "journal_messages decode [] = Inr []"
| "journal_messages decode (JObj d # es) =
     (case (case obj_get d ''MESSAGE'' of
          JNull \<Rightarrow> Inr []
        | JList xs \<Rightarrow> (case bytes_of xs of Inl e \<Rightarrow> Inl e | Inr bs \<Rightarrow> Inr [JStr (decode bs)])
        | v \<Rightarrow> Inr [v]) of
        Inl e \<Rightarrow> Inl e
      | Inr ls \<Rightarrow> (case journal_messages decode es of Inl e \<Rightarrow> Inl e | Inr rest \<Rightarrow> Inr (ls @ rest)))"
| "journal_messages decode (_ # es) = Inl AttributeError"

fun str_items :: "json list \<Rightarrow> string list result" where
  "str_items [] = Inr []"
| "str_items (JStr s # vs) = (case str_items vs of Inl e \<Rightarrow> Inl e | Inr ss \<Rightarrow> Inr (s # ss))"
| "str_items (_ # vs) = Inl TypeError"

definition log_unit :: "string \<Rightarrow> string" where
  "log_unit fname = unescape (rsplit_head (CHR '' '') (fst (splitext (basename fname))))"

definition journal_prepare :: "logs_env \<Rightarrow> (int list \<Rightarrow> string) \<Rightarrow> string result \<Rightarrow> string \<Rightarrow> string result \<Rightarrow> prepared" where
  "journal_prepare le decode dsn fname file = (case file of
       Inl e \<Rightarrow> Done (if is_OSError e then Inr TRANSIENT_ERROR else Inl e)
     | Inr bytes \<Rightarrow>
        (let unit = log_unit fname in
         case (case le_loads le bytes of
             Inl e \<Rightarrow> (if is_OSError e \<or> e = JSONDecodeError then Inr (JList []) else Inl e) | Inr v \<Rightarrow> Inr v) of
           Inl e \<Rightarrow> Done (Inl e)
         | Inr log \<Rightarrow> (case (case iterated log of Inl e \<Rightarrow> Inl e | Inr es \<Rightarrow> journal_messages decode es) of
             Inl e \<Rightarrow> Done (Inl e)
           | Inr lines \<Rightarrow> (case dsn of
               Inl e \<Rightarrow> Done (Inl e)
             | Inr url \<Rightarrow> (case str_items lines of
                 Inl e \<Rightarrow> Done (Inl e)
               | Inr texts \<Rightarrow> Send ((new_event (le_sentry le) url)\<lparr>
                   ev_attachments := [json_attachment (basename fname) bytes],
                   ev_tags := [(''unit'', JStr unit)], ev_fingerprint := [''unit:'' @ unit],
                   ev_message := JStr (join [CHR 0x0A] (unit # texts))\<rparr>))))))"

definition journal_submit :: "logs_env \<Rightarrow> http \<Rightarrow> (int list \<Rightarrow> string) \<Rightarrow> string result \<Rightarrow> string \<Rightarrow> string result
    \<Rightarrow> hresult result \<times> request list" where
  "journal_submit le http decode dsn fname file = finish (le_sentry le) http (journal_prepare le decode dsn fname file)"

section \<open>The name of a log\<close>

lemma unit_name_chars: "c \<in> set (unit_name user unit) \<Longrightarrow> c \<noteq> CHR ''/''"
proof -
  have "\<not> alphanumeric (code (CHR ''/''))" by (simp add: alphanumeric_def code_def)
  then show "c \<in> set (unit_name user unit) \<Longrightarrow> c \<noteq> CHR ''/''"
    by (auto simp: unit_name_def dest: escape_chars split: if_splits)
qed

lemma unescape_unit_name:
  "is_ascii unit \<Longrightarrow> unescape (unit_name user unit) = (if user then ''user.'' else []) @ unit"
  by (simp add: unit_name_def unescape_append_plain [of "''user.''", simplified] unescape_escape utf8_ascii)

text \<open>C26. The file name under which the journal of a unit's invocation is collected gives the unit back when the log is submitted: escaping is undone exactly for every ASCII unit name, control characters included, and a user unit keeps its user prefix.\<close>

theorem journal_unit_recovered:
  assumes "is_ascii unit" and "CHR '' '' \<notin> set ivc" and "CHR ''.'' \<notin> set ivc" and "CHR ''/'' \<notin> set ivc"
  shows "log_unit (dir @ CHR ''/'' # journal_file user unit ivc) = (if user then ''user.'' else []) @ unit"
proof -
  have f: "journal_file user unit ivc = (unit_name user unit @ CHR '' '' # ivc) @ CHR ''.'' # ''json''"
    by (simp add: journal_file_def)
  have "CHR ''/'' \<notin> set (journal_file user unit ivc)" using assms(4) by (auto simp: f dest: unit_name_chars)
  then have "basename (dir @ CHR ''/'' # journal_file user unit ivc) = journal_file user unit ivc" by (rule basename_append)
  moreover have "fst (splitext (journal_file user unit ivc)) = unit_name user unit @ CHR '' '' # ivc"
    unfolding f by (rule splitext_dot) auto
  ultimately show ?thesis using assms(1,2) by (simp add: log_unit_def unescape_unit_name)
qed

theorem journal_unit_recovered_witness:
  "log_unit (''/p/journal'' @ CHR ''/'' # journal_file True ''steam-launcher.service'' ''0a1b'') = ''user.steam-launcher.service''"
  using journal_unit_recovered [of "''steam-launcher.service''" "''0a1b''" "''/p/journal''" True]
  by (simp add: is_ascii_def code_def)

section \<open>What is collected\<close>

text \<open>The entries of one invocation among those read.\<close>

definition entries_of :: "bool \<Rightarrow> string \<Rightarrow> entry list \<Rightarrow> entry list" where
  "entries_of user i logs = map anonymised (filter (\<lambda>log. invocation_of user (JStr []) log = JStr i) logs)"

lemma split_logs_entries:
  "split_logs user invs logs acc = Inr res \<Longrightarrow>
    dict_getd res i [] = dict_getd acc i [] @ (if i \<in> set invs then entries_of user i logs else [])"
proof (induction user invs logs acc rule: split_logs.induct)
  case (2 user invs log logs acc)
  obtain k where k: "invocation_of user (JStr []) log = JStr k"
    using "2.prems" by (auto split: json.splits)
  have e: "entries_of user i (log # logs) = (if i = k then anonymised log # entries_of user i logs else entries_of user i logs)"
    by (auto simp: entries_of_def k)
  show ?case
    using "2.IH" [OF k] "2.prems" by (auto simp: k e dict_getd_def split: if_splits)
qed (simp add: entries_of_def)

text \<open>C25. What is collected for an invocation of a failed unit is exactly the unit's journal entries that carry the invocation's id, in the order of the journal, each without its host name and machine id; nothing is collected for other invocations.\<close>

theorem unit_journal_spec:
  assumes "read_journal exec (unit_query unit user cursor) = Inr (Some logs, c)"
    and "unit_journal exec unit invs user cursor = Inr (res, c')"
  shows "c' = c \<and> dict_getd res i [] = (if i \<in> set invs then entries_of user i logs else [])
    \<and> (\<forall>log \<in> set (dict_getd res i []). \<not> dict_has log ''_HOSTNAME'' \<and> \<not> dict_has log ''_MACHINE_ID'')"
proof -
  have s: "split_logs user invs logs [] = Inr res" and c: "c' = c"
    using assms by (auto simp: unit_journal_def split: sum.splits)
  have r: "dict_getd res i [] = (if i \<in> set invs then entries_of user i logs else [])"
    using split_logs_entries [OF s, of i] by (simp add: dict_getd_def)
  have "\<forall>log \<in> set (entries_of user i logs). \<not> dict_has log ''_HOSTNAME'' \<and> \<not> dict_has log ''_MACHINE_ID''"
    by (auto simp: entries_of_def anonymised_def dict_has_def)
  then show ?thesis using r c by simp
qed

definition sample_entry :: "string \<Rightarrow> entry" where
  "sample_entry i = [(''__CURSOR'', JStr ''c1''), (''_SYSTEMD_UNIT'', JStr ''rauc.service''), (''_HOSTNAME'', JStr ''deck''),
     (''INVOCATION_ID'', JStr i)]"

definition sample_exec :: journalctl where
  "sample_exec cmd = Inr [Inr (JObj (sample_entry ''a'')), Inr (JObj (sample_entry ''b''))]"

theorem unit_journal_spec_witness:
  "dict_getd (fst (projr (unit_journal sample_exec ''rauc.service'' [''b''] False None))) ''b'' []
    = [[(''__CURSOR'', JStr ''c1''), (''_SYSTEMD_UNIT'', JStr ''rauc.service''), (''INVOCATION_ID'', JStr ''b'')]]"
proof -
  have r: "read_journal sample_exec (unit_query ''rauc.service'' False None)
      = Inr (Some [sample_entry ''a'', sample_entry ''b''], JStr ''c1'')"
    by (simp add: read_journal_def sample_exec_def sample_entry_def unit_query_def journal_wanted_def obj_get_def dict_getd_def)
  have "\<exists>res. unit_journal sample_exec ''rauc.service'' [''b''] False None = Inr (res, JStr ''c1'')"
    by (simp add: unit_journal_def r sample_entry_def invocation_of_def invocation_key_def obj_get_def dict_getd_def Let_def)
  then obtain res where u: "unit_journal sample_exec ''rauc.service'' [''b''] False None = Inr (res, JStr ''c1'')" by blast
  show ?thesis using unit_journal_spec [OF r u, of "''b''"]
    by (simp add: u entries_of_def anonymised_def dict_del_def sample_entry_def invocation_of_def invocation_key_def
        obj_get_def dict_getd_def Let_def)
qed

section \<open>The pending logs\<close>

lemma pend_dir_set [simp]: "pend_dir (set_pend cat d w) c = (if c = cat then Some d else pend_dir w c)"
  by (simp add: pend_dir_def set_pend_def)

lemma add_journal_cases:
  assumes "add_journal je file new w = (Inr (), w')"
  shows "w' = w \<or> (\<exists>d old. pend_dir w ''journal'' = Some d \<and> old_journal je file w = Inr (Some old)
    \<and> w' = set_pend ''journal'' (dict_set d file \<lparr>lf_text = je_dumps je (JList (old @ map JObj new)),
        lf_mtime = je_clock je, lf_readable = True, lf_stat = True\<rparr>) w)"
  using assms by (auto simp: add_journal_def Let_def split: sum.splits option.splits if_splits)

lemma add_journal_other:
  assumes "add_journal je file new w = (Inr (), w')" and "f \<noteq> file"
  shows "old_journal je f w' = old_journal je f w"
  using add_journal_cases [OF assms(1)] assms(2) by (auto simp: old_journal_def)

lemma add_journal_dir:
  assumes "add_journal je file new w = (Inr (), w')" and "pend_dir w ''journal'' \<noteq> None"
  shows "pend_dir w' ''journal'' \<noteq> None"
  using add_journal_cases [OF assms(1)] assms(2) by auto

lemma add_journal_same:
  assumes "\<And>v. je_loads je (je_dumps je v) = Inr v" and "\<not> je_wfail je file"
    and "add_journal je file new w = (Inr (), w')" and "pend_dir w ''journal'' \<noteq> None"
    and "old_journal je file w = Inr (Some old)"
  shows "old_journal je file w' = Inr (Some (old @ map JObj new))"
proof (cases "old @ map JObj new = []")
  case True
  then show ?thesis using assms(3,5) by (auto simp: add_journal_def)
next
  case False
  obtain d where d: "pend_dir w ''journal'' = Some d" using assms(4) by auto
  have "w' = set_pend ''journal'' (dict_set d file \<lparr>lf_text = je_dumps je (JList (old @ map JObj new)),
        lf_mtime = je_clock je, lf_readable = True, lf_stat = True\<rparr>) w"
    using assms(2,3,5) d False by (auto simp: add_journal_def Let_def split: if_splits)
  then show ?thesis by (simp add: old_journal_def assms(1))
qed

lemma journal_file_inj: "journal_file user unit i = journal_file user unit j \<longleftrightarrow> i = j"
  by (simp add: journal_file_def)

lemma add_journals_old:
  assumes "\<And>v. je_loads je (je_dumps je v) = Inr v" and "\<And>f. \<not> je_wfail je f"
  shows "add_journals je user unit js w = (Inr (), w') \<Longrightarrow> distinct (dict_keys js) \<Longrightarrow> pend_dir w ''journal'' \<noteq> None
    \<Longrightarrow> old_journal je (journal_file user unit i) w = Inr (Some old)
    \<Longrightarrow> old_journal je (journal_file user unit i) w' = Inr (Some (old @ map JObj (dict_getd js i [])))"
proof (induction js arbitrary: w old)
  case Nil
  then show ?case by (simp add: dict_getd_def)
next
  case (Cons p rest)
  obtain k new where p: "p = (k, new)" by (cases p)
  obtain w1 where a: "add_journal je (journal_file user unit k) new w = (Inr (), w1)"
    and r: "add_journals je user unit rest w1 = (Inr (), w')"
    using Cons.prems(1) by (auto simp: p split: prod.splits sum.splits)
  have d: "distinct (dict_keys rest)" "k \<notin> set (dict_keys rest)"
    using Cons.prems(2) by (simp_all add: p dict_keys_def)
  note ih = Cons.IH [OF r d(1) add_journal_dir [OF a Cons.prems(3)]]
  show ?case
  proof (cases "k = i")
    case True
    have "dict_getd rest i [] = []" using d(2) True by (auto simp: dict_getd_def dict_has_iff_keys [symmetric] dict_has_def)
    then show ?thesis
      using ih add_journal_same [OF assms a Cons.prems(3)] Cons.prems(4) True by (simp add: p dict_getd_def)
  next
    case False
    then have "old_journal je (journal_file user unit i) w1 = Inr (Some old)"
      using add_journal_other [OF a] Cons.prems(4) by (simp add: journal_file_inj)
    then show ?thesis using ih False by (simp add: p dict_getd_def)
  qed
qed

lemma split_logs_distinct:
  "split_logs user invs logs acc = Inr res \<Longrightarrow> distinct (dict_keys acc) \<Longrightarrow> distinct (dict_keys res)"
  by (induction user invs logs acc rule: split_logs.induct) (auto simp: distinct_dict_set split: json.splits if_splits)

lemma unit_journal_distinct: "unit_journal exec unit invs user cursor = Inr (res, c) \<Longrightarrow> distinct (dict_keys res)"
  using split_logs_distinct [of user invs _ "[]" res]
  by (auto simp: unit_journal_def dict_keys_def split: sum.splits option.splits)

text \<open>When logs can be written and JSON that was dumped loads again, collecting a failed unit appends the new entries of each of its invocations to the log that was pending for it, and remembers the cursor the journal was read to.\<close>

theorem collect_unit_appends:
  assumes "\<And>v. je_loads je (je_dumps je v) = Inr v" and "\<And>f. \<not> je_wfail je f"
    and "pend_dir w ''journal'' \<noteq> None"
    and "dict_get failed unit = Some invs" and "stored_cursor s (unit_name user unit @ ''.cursor'') = Inr cursor"
    and "unit_journal (je_exec je) unit invs user cursor = Inr (journal, c)" and "journal \<noteq> []"
    and "collect_unit je user failed unit (s, w) = (Inr (), s', w')"
    and "old_journal je (journal_file user unit i) w = Inr (Some old)"
  shows "old_journal je (journal_file user unit i) w' = Inr (Some (old @ map JObj (dict_getd journal i [])))
    \<and> ds_get s' (unit_name user unit @ ''.cursor'') JNull = c"
proof -
  have a: "add_journals je user unit journal w = (Inr (), w')" and s: "s' = ds_setitem s (unit_name user unit @ ''.cursor'') c"
    using assms(4-8) by (auto simp: collect_unit_def Let_def split: prod.splits sum.splits)
  show ?thesis
    using add_journals_old [OF assms(1,2) a unit_journal_distinct [OF assms(6)] assms(3,9)] s by simp
qed

text \<open>A JSON text format to evaluate with: a value is written as its number in an enumeration of the values.\<close>

instance json :: countable
  by countable_datatype

definition tally_dumps :: "json \<Rightarrow> string" where
  "tally_dumps v = replicate (to_nat v) (CHR ''1'')"

definition tally_loads :: "string \<Rightarrow> json result" where
  "tally_loads s = Inr (from_nat (length s))"

lemma tally_loads_dumps [simp]: "tally_loads (tally_dumps v) = Inr v"
  by (simp add: tally_loads_def tally_dumps_def)

definition sample_je :: "bool \<Rightarrow> journal_env" where
  "sample_je ro = \<lparr>je_exec = sample_exec, je_loads = tally_loads, je_dumps = tally_dumps, je_wfail = (\<lambda>_. ro), je_clock = 7\<rparr>"

definition sample_store :: store where
  "sample_store = \<lparr>ds_name = ''helpers.journal'', ds_defaults = [], ds_data = [(''user_cursor'', JStr ''c0'')], ds_dirty = False\<rparr>"

definition sample_world :: world where
  "sample_world = gpu_world\<lparr>pend := [(''journal'', [])]\<rparr>"

lemma sample_read:
  "unit_journal sample_exec ''rauc.service'' [''b''] False None
    = Inr ([(''b'', [[(''__CURSOR'', JStr ''c1''), (''_SYSTEMD_UNIT'', JStr ''rauc.service''), (''INVOCATION_ID'', JStr ''b'')]])], JStr ''c1'')"
  by (simp add: unit_journal_def read_journal_def sample_exec_def sample_entry_def unit_query_def journal_wanted_def
      obj_get_def dict_getd_def invocation_of_def invocation_key_def Let_def anonymised_def dict_del_def)

lemma sample_collect:
  "fst (collect_unit (sample_je ro) False [(''rauc.service'', [''b''])] ''rauc.service'' (sample_store, sample_world)) = Inr ()"
  using sample_read
  by (simp add: collect_unit_def Let_def sample_je_def stored_cursor_def ds_get_def ds_getitem_def sample_store_def
      add_journal_def old_journal_def pend_dir_def sample_world_def unit_name_def escape_def escape_byte_def utf8_char_def
      alphanumeric_def code_def hex2_def hex_digit_def)

theorem collect_unit_appends_witness:
  "case collect_unit (sample_je False) False [(''rauc.service'', [''b''])] ''rauc.service'' (sample_store, sample_world) of
     (r, s', w') \<Rightarrow> old_journal (sample_je False) (journal_file False ''rauc.service'' ''b'') w' = Inr (Some [JObj
       [(''__CURSOR'', JStr ''c1''), (''_SYSTEMD_UNIT'', JStr ''rauc.service''), (''INVOCATION_ID'', JStr ''b'')]])"
proof -
  obtain s' w' where c: "collect_unit (sample_je False) False [(''rauc.service'', [''b''])] ''rauc.service'' (sample_store, sample_world)
      = (Inr (), s', w')"
    using sample_collect [of False] by (metis prod.collapse)
  have n: "stored_cursor sample_store (unit_name False ''rauc.service'' @ ''.cursor'') = Inr None"
    by (simp add: stored_cursor_def ds_get_def ds_getitem_def sample_store_def unit_name_def escape_def escape_byte_def
        utf8_char_def alphanumeric_def code_def hex2_def hex_digit_def)
  show ?thesis unfolding c
    using collect_unit_appends [OF _ _ _ _ n _ _ c, where i = "''b''" and old = "[]" and invs = "[''b'']"] sample_read
    by (simp add: sample_je_def sample_world_def pend_dir_def old_journal_def dict_getd_def)
qed

section \<open>Entries and cursors that are lost\<close>

lemma add_journal_unwritable:
  assumes "je_wfail je file" and "\<exists>r. old_journal je file w = Inr r"
  shows "add_journal je file new w = (Inr (), w)"
  using assms by (auto simp: add_journal_def Let_def split: option.splits)

lemma add_journals_unwritable:
  assumes "\<And>f. je_wfail je f" and "\<And>f. \<exists>r. old_journal je f w = Inr r"
  shows "add_journals je user unit js w = (Inr (), w)"
  by (induction js) (auto simp: add_journal_unwritable assms)

text \<open>When the pending logs cannot be written, the new entries of a failed unit are dropped: no log changes, yet the cursor moves past them, so that no later run reads them again.\<close>

theorem unwritable_journal_is_dropped:
  assumes "\<And>f. je_wfail je f" and "\<And>f. \<exists>r. old_journal je f w = Inr r"
    and "dict_get failed unit = Some invs" and "stored_cursor s (unit_name user unit @ ''.cursor'') = Inr cursor"
    and "unit_journal (je_exec je) unit invs user cursor = Inr (journal, JStr c)" and "journal \<noteq> []"
  shows "\<exists>s'. collect_unit je user failed unit (s, w) = (Inr (), s', w)
    \<and> stored_cursor s' (unit_name user unit @ ''.cursor'') = Inr (Some c)"
  using assms(3-6) add_journals_unwritable [OF assms(1,2)]
  by (simp add: collect_unit_def Let_def stored_cursor_def)

theorem unwritable_journal_is_dropped_witness:
  "\<exists>s'. collect_unit (sample_je True) False [(''rauc.service'', [''b''])] ''rauc.service'' (sample_store, sample_world)
      = (Inr (), s', sample_world)
    \<and> stored_cursor s' (unit_name False ''rauc.service'' @ ''.cursor'') = Inr (Some ''c1'')"
proof -
  have n: "stored_cursor sample_store (unit_name False ''rauc.service'' @ ''.cursor'') = Inr None"
    by (simp add: stored_cursor_def ds_get_def ds_getitem_def sample_store_def unit_name_def escape_def escape_byte_def
        utf8_char_def alphanumeric_def code_def hex2_def hex_digit_def)
  have r: "unit_journal (je_exec (sample_je True)) ''rauc.service'' [''b''] False None
      = Inr ([(''b'', [[(''__CURSOR'', JStr ''c1''), (''_SYSTEMD_UNIT'', JStr ''rauc.service''), (''INVOCATION_ID'', JStr ''b'')]])], JStr ''c1'')"
    by (simp add: sample_je_def sample_read)
  show ?thesis
    by (rule unwritable_journal_is_dropped [OF _ _ _ n r])
      (simp_all add: sample_je_def old_journal_def pend_dir_def sample_world_def)
qed

text \<open>A run in which no unit manager entry is new forgets how far the journal had been read: the stored cursor becomes null, and the next run asks for the last thirty days again.\<close>

theorem quiet_run_forgets_cursor:
  assumes "stored_cursor s (if user then ''user_cursor'' else ''system_cursor'') = Inr (Some c)"
    and "je_exec je (journal_cmd (failed_query user (Some c))) = Inr []"
  shows "\<exists>s'. collect_inner je user (s, w) = (Inr (), s', w)
    \<and> stored_cursor s' (if user then ''user_cursor'' else ''system_cursor'') = Inr None
    \<and> jq_start_ago_ms (failed_query user None) = Some 2592000000"
proof -
  have f: "failed_units (je_exec je) user (Some c) = Inr ([], JNull)"
    by (simp add: failed_units_def read_journal_def assms(2))
  have u: "collect_units je user [] us (s1, w) = (Inr (), s1, w)" for us s1
    by (induction us) (simp_all add: collect_unit_def)
  show ?thesis using assms(1) by (simp add: collect_inner_def Let_def f u stored_cursor_def failed_query_def)
qed

theorem quiet_run_forgets_cursor_witness:
  "\<exists>s'. collect_inner ((sample_je False)\<lparr>je_exec := \<lambda>_. Inr []\<rparr>) True (sample_store, sample_world) = (Inr (), s', sample_world)
    \<and> stored_cursor s' ''user_cursor'' = Inr None"
proof -
  have "stored_cursor sample_store (if True then ''user_cursor'' else ''system_cursor'') = Inr (Some ''c0'')"
    by (simp add: stored_cursor_def ds_get_def ds_getitem_def sample_store_def)
  from quiet_run_forgets_cursor [OF this, of "(sample_je False)\<lparr>je_exec := \<lambda>_. Inr []\<rparr>" sample_world]
  show ?thesis unfolding if_True by auto
qed

end
