(* ===== verification/Kdump_Lines.thy ===== *)
theory Kdump_Lines imports Py_Strings SLS_Prelude begin

text \<open>
  The regular expressions of \<^verbatim>\<open>helpers/kdump.py\<close>, as functions on strings. In each of them the character
  after a repetition cannot be one of the repeated ones, so that a match is found without going back.
\<close>

definition is_hex :: "char \<Rightarrow> bool" where
  "is_hex c = (is_digit c \<or> 97 \<le> code c \<and> code c \<le> 102)"

definition symbol_start :: "char \<Rightarrow> bool" where
  "symbol_start c = (is_alpha c \<or> c = CHR ''_'')"

definition symbol_char :: "char \<Rightarrow> bool" where
  "symbol_char c = (symbol_start c \<or> is_digit c \<or> c = CHR ''.'')"

definition module_char :: "char \<Rightarrow> bool" where
  "module_char c = (symbol_start c \<or> is_digit c)"

definition register_char :: "char \<Rightarrow> bool" where
  "register_char c = (is_upper c \<or> is_digit c)"

definition word_char :: "char \<Rightarrow> bool" where
  "word_char c = (symbol_start c \<or> is_digit c)"

text \<open>\<open>[class]+\<close>: the run and the rest, None if there is no such character.\<close>

definition run_of :: "(char \<Rightarrow> bool) \<Rightarrow> string \<Rightarrow> (string \<times> string) option" where
  "run_of P s = (case takeWhile P s of [] \<Rightarrow> None | r \<Rightarrow> Some (r, dropWhile P s))"

definition literal :: "string \<Rightarrow> string \<Rightarrow> string option" where
  "literal p s = (if prefix p s then Some (drop (length p) s) else None)"

section \<open>strip\_re: an optional level and the time stamp\<close>

definition strip_stamp :: "string \<Rightarrow> string" where
  "strip_stamp s =
     (let s1 = (case s of a # d # b # r \<Rightarrow> (if a = CHR ''<'' \<and> is_digit d \<and> b = CHR ''>'' then r else s) | _ \<Rightarrow> s) in
      case literal ''['' s1 of None \<Rightarrow> s | Some s2 \<Rightarrow>
      (case run_of is_digit (dropWhile is_space s2) of None \<Rightarrow> s | Some (_, s3) \<Rightarrow>
      (case literal ''.'' s3 of None \<Rightarrow> s | Some s4 \<Rightarrow>
      (case run_of is_digit s4 of None \<Rightarrow> s | Some (_, s5) \<Rightarrow>
      (case literal ''] '' s5 of None \<Rightarrow> s | Some s6 \<Rightarrow> s6)))))"

section \<open>frame\_re\<close>

record frame_match =
  fm_q :: bool
  fm_symbol :: string
  fm_offset :: string
  fm_size :: string
  fm_module :: "string option"

definition hex_prefixed :: "nat \<Rightarrow> char \<Rightarrow> string \<Rightarrow> string" where
  "hex_prefixed n c s = (if n < length s \<and> list_all is_hex (take n s) \<and> s ! n = c then drop (Suc n) s else s)"

definition hex_number :: "string \<Rightarrow> (string \<times> string) option" where
  "hex_number s = (case literal ''0x'' s of None \<Rightarrow> None | Some r \<Rightarrow>
     (case run_of is_hex r of None \<Rightarrow> None | Some (h, t) \<Rightarrow> Some (''0x'' @ h, t)))"

text \<open>The last group of \<open>frame_re\<close>: a module name and, perhaps, its build id.\<close>

definition module_suffix :: "string \<Rightarrow> string option" where
  "module_suffix s = (case literal '' ['' s of None \<Rightarrow> None | Some r \<Rightarrow>
     (case run_of module_char r of None \<Rightarrow> None | Some (m, t) \<Rightarrow>
       (let t1 = (case literal '' '' t of None \<Rightarrow> t | Some u \<Rightarrow> (case run_of is_hex u of None \<Rightarrow> t | Some (_, v) \<Rightarrow> v))
        in if prefix '']'' t1 then Some m else None)))"

definition frame_at :: "string \<Rightarrow> frame_match option" where
  "frame_at s =
     (let q = prefix ''? '' s;
          s1 = hex_prefixed 4 (CHR '':'') (if q then drop 2 s else s) in
      case s1 of [] \<Rightarrow> None | c # _ \<Rightarrow>
      (if \<not> symbol_start c then None else
       case run_of symbol_char s1 of None \<Rightarrow> None | Some (symb, s2) \<Rightarrow>
       (case literal ''+'' s2 of None \<Rightarrow> None | Some s3 \<Rightarrow>
       (case hex_number s3 of None \<Rightarrow> None | Some (ofs, s4) \<Rightarrow>
       (case literal ''/'' s4 of None \<Rightarrow> None | Some s5 \<Rightarrow>
       (case hex_number s5 of None \<Rightarrow> None | Some (sz, s6) \<Rightarrow>
         Some \<lparr>fm_q = q, fm_symbol = symb, fm_offset = ofs, fm_size = sz, fm_module = module_suffix s6\<rparr>))))))"

text \<open>\<open>search\<close>: the first place where the pattern matches.\<close>

fun frame_search :: "string \<Rightarrow> frame_match option" where
  "frame_search [] = frame_at []"
| "frame_search (c # s) = (case frame_at (c # s) of Some m \<Rightarrow> Some m | None \<Rightarrow> frame_search s)"

section \<open>rsp\_re and registers\_re\<close>

definition rsp_at :: "string \<Rightarrow> string option" where
  "rsp_at s = (case literal ''RSP: '' s of None \<Rightarrow> None | Some r \<Rightarrow>
     (if 21 \<le> length r \<and> list_all is_hex (take 4 r) \<and> r ! 4 = CHR '':'' \<and> list_all is_hex (take 16 (drop 5 r))
      then Some (take 16 (drop 5 r)) else None))"

fun rsp_search :: "string \<Rightarrow> string option" where
  "rsp_search [] = rsp_at []"
| "rsp_search (c # s) = (case rsp_at (c # s) of Some m \<Rightarrow> Some m | None \<Rightarrow> rsp_search s)"

definition register_at :: "string \<Rightarrow> (string \<times> string \<times> string) option" where
  "register_at s = (case run_of register_char s of None \<Rightarrow> None | Some (reg, r) \<Rightarrow>
     (if length reg \<noteq> 2 \<and> length reg \<noteq> 3 then None
      else (case literal '':'' r of None \<Rightarrow> None | Some t \<Rightarrow>
        (let u = dropWhile (\<lambda>c. c = CHR '' '') t; h = take 16 (takeWhile is_hex u)
         in if length h < 4 then None else Some (reg, h, drop (length h) u)))))"

text \<open>
  \<open>findall\<close>: \<open>fresh\<close> says that the character before is no word character. A match takes at least seven
  characters, so that the rest is shorter.
\<close>

function registers_in :: "bool \<Rightarrow> string \<Rightarrow> (string \<times> string) list" where
  "registers_in fresh [] = []"
| "registers_in fresh (c # s) =
     (case (if fresh then register_at (c # s) else None) of
        Some (reg, h, rest) \<Rightarrow> (if length rest \<le> length s then (reg, h) # registers_in False rest else [])
      | None \<Rightarrow> registers_in (\<not> word_char c) s)"
  by pat_completeness auto
termination
  by (relation "measure (length \<circ> snd)") auto

lemma register_at_shorter: "register_at (c # s) = Some (reg, h, rest) \<Longrightarrow> length rest \<le> length s"
proof -
  assume m: "register_at (c # s) = Some (reg, h, rest)"
  obtain r where r: "run_of register_char (c # s) = Some (reg, r)" using m
    by (auto simp: register_at_def Let_def split: option.splits if_splits)
  have "length r \<le> length s" using r length_dropWhile_le [of register_char s]
    by (auto simp: run_of_def split: list.splits if_splits)
  moreover have "length rest \<le> length r"
  proof -
    obtain t where t: "literal '':'' r = Some t" and l: "rest = drop (length h) (dropWhile (\<lambda>c. c = CHR '' '') t)"
      using m r by (auto simp: register_at_def Let_def split: option.splits if_splits)
    have "length t \<le> length r" using t by (auto simp: literal_def split: if_splits)
    moreover have "length rest \<le> length t" unfolding l using length_dropWhile_le [of "\<lambda>c. c = CHR '' ''" t] by simp
    ultimately show ?thesis by simp
  qed
  ultimately show ?thesis by simp
qed

section \<open>module\_strip\_re and last\_unloaded\_module\_re\<close>

function strip_brackets :: "string \<Rightarrow> string" where
  "strip_brackets [] = []"
| "strip_brackets (c # s) =
     (if c = CHR ''['' \<and> CHR '']'' \<in> set s then strip_brackets (after (CHR '']'') s)
      else c # strip_brackets s)"
  by pat_completeness auto
termination
proof (relation "measure length")
  fix c :: char and s :: string
  show "(after (CHR '']'') s, c # s) \<in> measure length"
    using length_dropWhile_le [of "\<lambda>x. x \<noteq> CHR '']''" s] by (simp add: after_def)
qed auto

definition last_unloaded_at :: "string \<Rightarrow> (string \<times> string) option" where
  "last_unloaded_at s = (case literal ''[last unloaded: '' s of None \<Rightarrow> None | Some r \<Rightarrow>
     (case run_of (\<lambda>c. c \<noteq> CHR '']'') r of None \<Rightarrow> None | Some (m, t) \<Rightarrow>
       (if t = [] then None else Some (m, dropWhile (\<lambda>c. c = CHR '']'') t))))"

function last_unloaded :: "string \<Rightarrow> string list" where
  "last_unloaded [] = []"
| "last_unloaded (c # s) = (case last_unloaded_at (c # s) of
       Some (m, rest) \<Rightarrow> (if length rest \<le> length s then m # last_unloaded rest else [])
     | None \<Rightarrow> last_unloaded s)"
  by pat_completeness auto
termination
  by (relation "measure length") auto

lemma last_unloaded_at_shorter: "last_unloaded_at (c # s) = Some (m, rest) \<Longrightarrow> length rest \<le> length s"
proof -
  assume a: "last_unloaded_at (c # s) = Some (m, rest)"
  obtain r t where r: "literal ''[last unloaded: '' (c # s) = Some r"
    and t: "t = dropWhile (\<lambda>c. c \<noteq> CHR '']'') r" and l: "rest = dropWhile (\<lambda>c. c = CHR '']'') t"
    using a by (auto simp: last_unloaded_at_def run_of_def split: option.splits list.splits if_splits)
  have "length r \<le> length s" using r by (auto simp: literal_def split: if_splits)
  moreover have "length t \<le> length r" unfolding t by (rule length_dropWhile_le)
  moreover have "length rest \<le> length t" unfolding l by (rule length_dropWhile_le)
  ultimately show ?thesis by simp
qed

text \<open>A bracket-free line stays, and no complete bracket is left in any.\<close>

lemma strip_brackets_plain: "CHR ''['' \<notin> set s \<Longrightarrow> strip_brackets s = s"
  by (induction s rule: strip_brackets.induct) auto

end
