(* ===== verification/Kdump.thy ===== *)
theory Kdump imports Submits Kdump_Lines begin

text \<open>
  The kernel crash helper (\<^verbatim>\<open>helpers/kdump.py\<close>): the crash summary, the call traces and the modules read
  from a kernel log, the pruning of repeated traces, and the submission of the archive.
\<close>

section \<open>parse\_traces\<close>

record trace =
  tr_frames :: "(string, string) dict list"
  tr_registers :: "(string, string) dict option"     \<comment> \<open>present only if not empty\<close>

definition ignore_frames :: "string list" where
  "ignore_frames = [''asm_exc_page_fault'', ''dump_stack_lvl'', ''panic'']"

definition frame_info :: "frame_match \<Rightarrow> (string, string) dict" where
  "frame_info m = [(''function'', fm_symbol m), (''instruction_addr'', fm_offset m), (''addr_mode'', ''rel'')]
     @ (case fm_module m of None \<Rightarrow> [] | Some p \<Rightarrow> [(''package'', p)])"

text \<open>
  The loop's variables: the traces so far, the frames (None and the empty list are both false) and the
  registers of the current one.
\<close>

record trace_state =
  ts_traces :: "trace list"
  ts_frames :: "(string, string) dict list option"
  ts_registers :: "(string, string) dict option"

definition finish_trace :: "trace_state \<Rightarrow> trace list" where
  "finish_trace st = (case ts_frames st of
       None \<Rightarrow> ts_traces st
     | Some [] \<Rightarrow> ts_traces st
     | Some fs \<Rightarrow> ts_traces st @ [\<lparr>tr_frames = rev fs, tr_registers = (if ts_registers st = Some [] then None else ts_registers st)\<rparr>])"

definition some_frames :: "trace_state \<Rightarrow> (string, string) dict list" where
  "some_frames st = (case ts_frames st of None \<Rightarrow> [] | Some fs \<Rightarrow> fs)"

definition some_registers :: "trace_state \<Rightarrow> (string, string) dict" where
  "some_registers st = (case ts_registers st of None \<Rightarrow> [] | Some rs \<Rightarrow> rs)"

definition new_rip :: "string \<Rightarrow> trace_state \<Rightarrow> trace_state" where
  "new_rip line st = (if prefix ''RIP: '' line
     then \<lparr>ts_traces = finish_trace st, ts_frames = None, ts_registers = None\<rparr> else st)"

definition add_frame :: "frame_match \<Rightarrow> trace_state \<Rightarrow> trace_state" where
  "add_frame m st =
     (if fm_q m then st
      else if some_frames st = [] \<and> prefix ''__'' (fm_symbol m) then st
      else if fm_symbol m \<in> set ignore_frames then st\<lparr>ts_frames := Some []\<rparr>
      else st\<lparr>ts_frames := Some (some_frames st @ [frame_info m])\<rparr>)"

definition add_registers :: "(string \<times> string) list \<Rightarrow> trace_state \<Rightarrow> trace_state" where
  "add_registers rs st = st\<lparr>ts_registers := Some (fold (\<lambda>(r, a) d. dict_set d (py_lower r) (''0x'' @ a)) rs (some_registers st))\<rparr>"

definition trace_line :: "string \<Rightarrow> trace_state \<Rightarrow> trace_state" where
  "trace_line raw st0 =
     (let line = strip_stamp (strip raw); st = new_rip line st0 in
      case frame_search line of
        Some m \<Rightarrow> add_frame m st
      | None \<Rightarrow> (case rsp_search line of
          Some a \<Rightarrow> st\<lparr>ts_registers := Some (dict_set (some_registers st) ''rsp'' (''0x'' @ a))\<rparr>
        | None \<Rightarrow> (case registers_in True line of [] \<Rightarrow> st | rs \<Rightarrow> add_registers rs st)))"

definition parse_traces :: "string list \<Rightarrow> trace list" where
  "parse_traces log = finish_trace (fold trace_line log \<lparr>ts_traces = [], ts_frames = None, ts_registers = None\<rparr>)"

section \<open>get\_summaries\<close>

definition first_lines :: "string list" where
  "first_lines = [''Kernel panic -'', ''BUG: unable to handle page fault for address'', ''PREEMPT SMP NOPTI'',
     ''general protection fault'', ''BUG: kernel NULL pointer dereference, address'']"

record summary =
  su_crash :: "string list"
  su_trace :: "string list"
  su_grab :: "string option"                \<comment> \<open>call\_trace\_grab\<close>
  su_getting :: bool                        \<comment> \<open>getting\_modules\<close>
  su_modules :: "string list option"        \<comment> \<open>metadata['kernel.modules']\<close>
  su_unloaded :: "string list option"       \<comment> \<open>metadata['kernel.last\_unloaded\_modules']\<close>

definition starts_crash :: "string \<Rightarrow> bool" where
  "starts_crash line = list_ex (\<lambda>c. sublist c line) first_lines"

definition ends_crash :: "string \<Rightarrow> bool" where
  "ends_crash line = (sublist ''Kernel Offset:'' line \<or> sublist ''Sending NMI'' line)"

definition opened_trace :: "string \<Rightarrow> string option" where
  "opened_trace line = (if sublist '' <IRQ>'' line then Some ''IRQ''
     else if sublist '' <TASK>'' line then Some ''TASK'' else None)"

text \<open>A line of the crash: added to the summary, and to the trace between its two marks.\<close>

definition crash_line :: "string \<Rightarrow> summary \<Rightarrow> summary" where
  "crash_line line su =
     (let s1 = su\<lparr>su_crash := su_crash su @ [line]\<rparr> in
      case su_grab su of
        Some g \<Rightarrow> (if sublist ('' </'' @ g @ ''>'') line then s1\<lparr>su_grab := None\<rparr>
                   else s1\<lparr>su_trace := su_trace su @ [line]\<rparr>)
      | None \<Rightarrow> (case opened_trace line of None \<Rightarrow> s1 | Some g \<Rightarrow> s1\<lparr>su_grab := Some g\<rparr>))"

definition module_end :: "string \<Rightarrow> bool" where
  "module_end line = (prefix ''---'' line \<or> prefix ''Unloaded tainted modules:'' line \<or> prefix ''CR2:'' line)"

text \<open>The text after the first occurrence of a piece.\<close>

fun after_piece :: "string \<Rightarrow> string \<Rightarrow> string" where
  "after_piece p [] = []"
| "after_piece p (c # s) = (if prefix p (c # s) then drop (length p) (c # s) else after_piece p s)"

definition module_words :: "string \<Rightarrow> summary \<Rightarrow> summary" where
  "module_words line0 su =
     (let line = strip_stamp (strip line0) in
      if module_end line then su\<lparr>su_getting := False\<rparr>
      else (let lu = last_unloaded line;
                s1 = (if lu \<noteq> [] then su\<lparr>su_unloaded := Some lu\<rparr> else su);
                mods = (case su_modules s1 of None \<Rightarrow> [] | Some ms \<Rightarrow> ms)
            in s1\<lparr>su_modules := Some (mods @ split_on (CHR '' '') (strip (strip_brackets line)))\<rparr>))"

definition module_line :: "string \<Rightarrow> summary \<Rightarrow> summary" where
  "module_line line su =
     (if sublist ''Modules linked in: '' line
      then module_words (after_piece ''Modules linked in:'' line) (su\<lparr>su_getting := True, su_modules := Some []\<rparr>)
      else if su_getting su then module_words line su else su)"

fun read_dmesg :: "string list \<Rightarrow> summary \<Rightarrow> summary" where
  "read_dmesg [] su = su"
| "read_dmesg (line # rest) su =
     (if su_crash su = [] \<and> \<not> starts_crash line then read_dmesg rest (module_line line su)
      else if ends_crash line then (crash_line line su)\<lparr>su_crash := su_crash su\<rparr>
      else read_dmesg rest (module_line line (crash_line line su)))"

definition empty_summary :: summary where
  "empty_summary = \<lparr>su_crash = [], su_trace = [], su_grab = None, su_getting = False, su_modules = None, su_unloaded = None\<rparr>"

definition summary_metadata :: "summary \<Rightarrow> (string \<times> string list) list" where
  "summary_metadata su = (case su_modules su of None \<Rightarrow> [] | Some ms \<Rightarrow> [(''kernel.modules'', sort ms)])
     @ (case su_unloaded su of None \<Rightarrow> [] | Some ms \<Rightarrow> [(''kernel.last_unloaded_modules'', ms)])"

definition get_summaries :: "string list \<Rightarrow> string \<times> trace list \<times> (string \<times> string list) list" where
  "get_summaries dmesg = (let su = read_dmesg dmesg empty_summary in
     (concat (map strip_stamp (su_crash su)), parse_traces (butlast (su_trace su)), summary_metadata su))"

section \<open>The pruned stack\<close>

fun prune :: "trace list \<Rightarrow> trace list \<Rightarrow> trace option \<Rightarrow> trace list" where
  "prune [] acc prev = acc"
| "prune (t # ts) acc prev = (case prev of
       None \<Rightarrow> prune ts (acc @ [t]) (Some t)
     | Some l \<Rightarrow>
        (if t = l then prune ts acc prev
         else if tr_frames t \<noteq> tr_frames l then prune ts (acc @ [t]) (Some t)
         else if tr_registers t \<noteq> None \<and> tr_registers l = None then prune ts (butlast acc @ [t]) (Some t)
         else prune ts acc prev))"

definition pruned_stack :: "trace list \<Rightarrow> trace list" where
  "pruned_stack stack = prune stack [] None"

section \<open>Submitting\<close>

text \<open>\<^verbatim>\<open>for line in f\<close>: the lines with their ends; a text file also translates the other line ends.\<close>

fun keep_lines :: "string \<Rightarrow> string list" where
  "keep_lines [] = []"
| "keep_lines (c # s) = (if c = CHR 0x0A then [c] # keep_lines s
     else (case keep_lines s of [] \<Rightarrow> [[c]] | l # ls \<Rightarrow> (c # l) # ls))"

fun newlines_after :: "bool \<Rightarrow> string \<Rightarrow> string" where
  "newlines_after cr [] = []"
| "newlines_after cr (c # s) = (if c = CHR 0x0D then CHR 0x0A # newlines_after True s
     else if c = CHR 0x0A \<and> cr then newlines_after False s else c # newlines_after False s)"

definition universal_newlines :: "string \<Rightarrow> string" where
  "universal_newlines s = newlines_after False s"

record kdump_env =
  ke_logs :: logs_env
  ke_decode :: "string \<Rightarrow> string result"        \<comment> \<open>data.decode()\<close>
  ke_replace :: "string \<Rightarrow> string"              \<comment> \<open>data.decode(errors='replace')\<close>
  ke_strptime :: "string \<Rightarrow> int result"         \<comment> \<open>calendar.timegm(time.strptime(s, '%Y%m%d%H%M'))\<close>

definition text_attachment :: "string \<Rightarrow> string \<Rightarrow> attachment" where
  "text_attachment name bytes = \<lparr>at_mime = Some ''text/plain'', at_filename = Some name, at_data = bytes\<rparr>"

definition version_member :: "kdump_env \<Rightarrow> string \<times> string \<Rightarrow> event \<Rightarrow> event result" where
  "version_member ke m ev = (if \<not> prefix ''version'' (fst m) then Inr ev
     else map_sum id (\<lambda>t. ev\<lparr>ev_tags := dict_set (ev_tags ev) ''kernel'' (JStr (strip t))\<rparr>) (ke_decode ke (snd m)))"

definition build_member :: "kdump_env \<Rightarrow> string \<times> string \<Rightarrow> event \<Rightarrow> event result" where
  "build_member ke m ev = (if \<not> prefix ''build'' (fst m) then Inr ev
     else (let f = Inr (keep_lines (ke_replace ke (snd m)), None) in
       case get_build_id f of Inl e \<Rightarrow> Inl e | Inr b \<Rightarrow>
       (case get_version_id f of Inl e \<Rightarrow> Inl e | Inr v \<Rightarrow> Inr (ev\<lparr>ev_os_build := b, ev_version := v\<rparr>))))"

definition dmesg_member :: "kdump_env \<Rightarrow> string \<times> string \<Rightarrow> event \<Rightarrow> (event \<times> trace list) result" where
  "dmesg_member ke m ev = (if \<not> prefix ''dmesg'' (fst m) then Inr (ev, [])
     else (case ke_decode ke (snd m) of Inl e \<Rightarrow> Inl e | Inr t \<Rightarrow>
       (case get_summaries (keep_lines (universal_newlines t)) of (crash, stack, metadata) \<Rightarrow>
         Inr (if truthy (ev_message ev) then ev
              else ev\<lparr>ev_message := JStr crash, ev_extra := map (\<lambda>(k, ms). (k, JList (map JStr ms))) metadata\<rparr>, stack))))"

fun kdump_members :: "kdump_env \<Rightarrow> (string \<times> string) list \<Rightarrow> event \<Rightarrow> trace list \<Rightarrow> (event \<times> trace list) result" where
  "kdump_members ke [] ev stack = Inr (ev, stack)"
| "kdump_members ke (m # ms) ev stack =
     (case version_member ke m (add_attachment (text_attachment (fst m) (snd m)) ev) of Inl e \<Rightarrow> Inl e | Inr ev1 \<Rightarrow>
     (case build_member ke m ev1 of Inl e \<Rightarrow> Inl e | Inr ev2 \<Rightarrow>
     (case dmesg_member ke m ev2 of Inl e \<Rightarrow> Inl e | Inr (ev3, new) \<Rightarrow> kdump_members ke ms ev3 (stack @ new))))"

definition trace_json :: "trace \<Rightarrow> json" where
  "trace_json t = JObj ((''frames'', JList (map (\<lambda>f. JObj (map (\<lambda>(k, v). (k, JStr v)) f)) (tr_frames t)))
     # (case tr_registers t of None \<Rightarrow> [] | Some rs \<Rightarrow> [(''registers'', JObj (map (\<lambda>(k, v). (k, JStr v)) rs))]))"

definition kdump_prepare :: "kdump_env \<Rightarrow> string result \<Rightarrow> string \<Rightarrow> zip \<Rightarrow> string result \<Rightarrow> prepared" where
  "kdump_prepare ke dsn fname z file =
     (let name = fst (splitext (basename fname)) in
      case dsn of Inl e \<Rightarrow> Done (Inl e) | Inr url \<Rightarrow>
      (case (case z of Inl e \<Rightarrow> Inl e | Inr ms \<Rightarrow>
               (case kdump_members ke ms (new_event (le_sentry (ke_logs ke)) url) [] of Inl e \<Rightarrow> Inl e
                | Inr (ev, stack) \<Rightarrow> (case file of Inl e \<Rightarrow> Inl e | Inr bytes \<Rightarrow> Inr (ev, stack, bytes)))) of
         Inl e \<Rightarrow> Done (if e = BadZipFile then Inr PERMANENT_ERROR
                        else if is_OSError e then Inr TRANSIENT_ERROR else Inl e)
       | Inr (ev, stack, bytes) \<Rightarrow>
           (if ev_message ev = JNull then Done (Inr PERMANENT_ERROR)
            else (case ke_strptime ke (last_part (CHR ''-'') name) of
                Inl e \<Rightarrow> Done (Inl e)
              | Inr t \<Rightarrow> Send ((add_attachment (zip_attachment ''kdump.zip'' bytes) ev)\<lparr>ev_timestamp := JInt t,
                  ev_exceptions := map (\<lambda>fs. JObj [(''stacktrace'', trace_json fs), (''type'', JStr ''PANIC'')])
                    (pruned_stack stack)\<rparr>)))))"

definition kdump_submit :: "kdump_env \<Rightarrow> http \<Rightarrow> string result \<Rightarrow> string \<Rightarrow> zip \<Rightarrow> string result
    \<Rightarrow> hresult result \<times> request list" where
  "kdump_submit ke http dsn fname z file = finish (le_sentry (ke_logs ke)) http (kdump_prepare ke dsn fname z file)"

section \<open>Properties\<close>

text \<open>The crash summary is one window of the log.\<close>

lemma crash_line_crash [simp]: "su_crash (crash_line line su) = su_crash su @ [line]"
  by (simp add: crash_line_def Let_def split: option.splits)

lemma module_line_keeps [simp]:
  "su_crash (module_line line su) = su_crash su" "su_trace (module_line line su) = su_trace su"
  "su_grab (module_line line su) = su_grab su"
  by (simp_all add: module_line_def module_words_def Let_def)

lemma read_dmesg_inside:
  "su_crash su \<noteq> [] \<Longrightarrow> su_crash (read_dmesg ls su) = su_crash su @ takeWhile (\<lambda>l. \<not> ends_crash l) ls"
  by (induction ls arbitrary: su) auto

lemma read_dmesg_window:
  "su_crash su = [] \<Longrightarrow>
    su_crash (read_dmesg ls su) = takeWhile (\<lambda>l. \<not> ends_crash l) (dropWhile (\<lambda>l. \<not> starts_crash l) ls)"
  by (induction ls arbitrary: su) (auto simp: read_dmesg_inside)

text \<open>C28. The crash summary is the kernel log from the first line that announces a crash up to, not including, the next line that ends it, each line without its time stamp; a log without such a line has the empty summary.\<close>

theorem crash_summary_window:
  "fst (get_summaries dmesg)
    = concat (map strip_stamp (takeWhile (\<lambda>l. \<not> ends_crash l) (dropWhile (\<lambda>l. \<not> starts_crash l) dmesg)))"
  by (simp add: get_summaries_def Let_def read_dmesg_window empty_summary_def)

text \<open>Runs of adjacent traces with the same frames, and which of a run is kept.\<close>

fun frame_groups :: "trace list \<Rightarrow> trace list list" where
  "frame_groups [] = []"
| "frame_groups (t # ts) = (case frame_groups ts of
       [] \<Rightarrow> [[t]]
     | g # gs \<Rightarrow> (if tr_frames t = tr_frames (hd g) then (t # g) # gs else [t] # g # gs))"

definition representative :: "trace list \<Rightarrow> trace" where
  "representative g = (case filter (\<lambda>t. tr_registers t \<noteq> None) g of [] \<Rightarrow> hd g | t # _ \<Rightarrow> t)"

lemma frame_groups_head: "\<exists>g gs. frame_groups (t # ts) = (t # g) # gs"
  by (auto split: list.splits)

lemma representative_Cons:
  "representative (t # g) = (if tr_registers t \<noteq> None \<or> g = [] then t
     else if filter (\<lambda>t. tr_registers t \<noteq> None) g = [] then t else representative g)"
  by (auto simp: representative_def split: list.splits)

lemma prune_groups: "prune ts (acc @ [l]) (Some l) = acc @ map representative (frame_groups (l # ts))"
proof (induction ts arbitrary: acc l)
  case Nil
  then show ?case by (simp add: representative_def)
next
  case (Cons t ts)
  obtain g gs where g: "frame_groups (t # ts) = (t # g) # gs" using frame_groups_head by blast
  obtain h hs where h: "frame_groups (l # ts) = (l # h) # hs" using frame_groups_head by blast
  show ?case
  proof (cases "tr_frames t = tr_frames l")
    case False
    then have "frame_groups (l # t # ts) = [l] # (t # g) # gs" using g by simp
    moreover have "prune (t # ts) (acc @ [l]) (Some l) = prune ts ((acc @ [l]) @ [t]) (Some t)" using False by auto
    ultimately show ?thesis using Cons.IH [of "acc @ [l]" t] g by (simp add: representative_def)
  next
    case True
    then have a: "frame_groups (l # t # ts) = (l # t # g) # gs" using g by simp
    have s: "g = h \<and> gs = hs" using g h True by (auto split: list.splits if_splits)
    show ?thesis
    proof (cases "t \<noteq> l \<and> tr_registers t \<noteq> None \<and> tr_registers l = None")
      case True
      then have "prune (t # ts) (acc @ [l]) (Some l) = prune ts (acc @ [t]) (Some t)"
        using \<open>tr_frames t = tr_frames l\<close> by simp
      moreover have "representative (l # t # g) = representative (t # g)" using True by (simp add: representative_Cons)
      ultimately show ?thesis using Cons.IH [of acc t] g a by simp
    next
      case False
      then have "prune (t # ts) (acc @ [l]) (Some l) = prune ts (acc @ [l]) (Some l)"
        using \<open>tr_frames t = tr_frames l\<close> by auto
      moreover have "representative (l # t # g) = representative (l # h)"
        using False s by (auto simp: representative_Cons)
      ultimately show ?thesis using Cons.IH [of acc l] h a s by simp
    qed
  qed
qed

text \<open>C27. Pruning the stack of a crash keeps, for each run of adjacent traces with the same frames, one trace: the first that has registers, or the first if none has. So no two adjacent traces sent have the same frames, and no different trace is lost.\<close>

theorem pruned_stack_spec:
  "pruned_stack stack = map representative (frame_groups stack)"
proof (cases stack)
  case Nil
  then show ?thesis by (simp add: pruned_stack_def)
next
  case (Cons t ts)
  then show ?thesis using prune_groups [of ts "[]" t] by (simp add: pruned_stack_def)
qed

text \<open>Lines of a call trace: frames that are kept or, marked with a question mark, passed over.\<close>

definition frame_line :: "string \<Rightarrow> frame_match \<Rightarrow> bool" where
  "frame_line line m = (frame_search (strip_stamp (strip line)) = Some m \<and> \<not> prefix ''RIP: '' (strip_stamp (strip line))
     \<and> \<not> prefix ''__'' (fm_symbol m) \<and> fm_symbol m \<notin> set ignore_frames)"

lemma trace_line_frame:
  "frame_line line m \<Longrightarrow> trace_line line st
    = (if fm_q m then st else st\<lparr>ts_frames := Some (some_frames st @ [frame_info m])\<rparr>)"
  by (simp add: frame_line_def trace_line_def Let_def new_rip_def add_frame_def)

lemma fold_frames:
  "list_all2 frame_line ls ms \<Longrightarrow> fs \<noteq> [] \<Longrightarrow>
    fold trace_line ls \<lparr>ts_traces = [], ts_frames = Some fs, ts_registers = None\<rparr>
      = \<lparr>ts_traces = [], ts_frames = Some (fs @ map frame_info (filter (\<lambda>m. \<not> fm_q m) ms)), ts_registers = None\<rparr>"
  by (induction ls ms arbitrary: fs rule: list_all2_induct) (auto simp: trace_line_frame some_frames_def)

lemma fold_frames_start:
  "list_all2 frame_line ls ms \<Longrightarrow>
    fold trace_line ls \<lparr>ts_traces = [], ts_frames = None, ts_registers = None\<rparr>
      = \<lparr>ts_traces = [], ts_frames = (case map frame_info (filter (\<lambda>m. \<not> fm_q m) ms) of [] \<Rightarrow> None | fs \<Rightarrow> Some fs),
         ts_registers = None\<rparr>"
  by (induction ls ms rule: list_all2_induct) (auto simp: trace_line_frame some_frames_def fold_frames)

text \<open>A call trace made of frame lines is reported as one trace whose frames are the lines' functions, outermost first (the kernel prints the innermost first), without the frames the kernel itself marks as unreliable.\<close>

theorem parse_traces_frames:
  assumes "list_all2 frame_line ls ms" and "filter (\<lambda>m. \<not> fm_q m) ms \<noteq> []"
  shows "parse_traces ls = [\<lparr>tr_frames = rev (map frame_info (filter (\<lambda>m. \<not> fm_q m) ms)), tr_registers = None\<rparr>]"
  using fold_frames_start [OF assms(1)] assms(2)
  by (auto simp: parse_traces_def finish_trace_def split: list.splits)

definition sample_frame :: "bool \<Rightarrow> string \<Rightarrow> string option \<Rightarrow> frame_match" where
  "sample_frame q s m = \<lparr>fm_q = q, fm_symbol = s, fm_offset = ''0x9'', fm_size = ''0x20'', fm_module = m\<rparr>"

lemma sample_frame_lines:
  "list_all2 frame_line [''<4>[   51.417815]  do_idle+0x9/0x20'', '' ? die+0x9/0x20 [amdgpu e0d]'', '' fn.cold+0x9/0x20 [amdgpu e0d]'']
    [sample_frame False ''do_idle'' None, sample_frame True ''die'' (Some ''amdgpu''), sample_frame False ''fn.cold'' (Some ''amdgpu'')]"
  by (simp add: frame_line_def) code_simp

theorem parse_traces_frames_witness:
  "parse_traces [''<4>[   51.417815]  do_idle+0x9/0x20'', '' ? die+0x9/0x20 [amdgpu e0d]'', '' fn.cold+0x9/0x20 [amdgpu e0d]'']
    = [\<lparr>tr_frames = [frame_info (sample_frame False ''fn.cold'' (Some ''amdgpu'')), frame_info (sample_frame False ''do_idle'' None)],
        tr_registers = None\<rparr>]"
  using parse_traces_frames [OF sample_frame_lines] by (simp add: sample_frame_def)

text \<open>The lines between the marks of a trace, one after the other.\<close>

lemma read_dmesg_body:
  "su_crash su \<noteq> [] \<Longrightarrow> su_grab su = Some g
    \<Longrightarrow> list_all (\<lambda>l. \<not> ends_crash l \<and> \<not> sublist ('' </'' @ g @ ''>'') l) body \<Longrightarrow>
    \<exists>su'. read_dmesg (body @ rest) su = read_dmesg rest su' \<and> su_crash su' \<noteq> [] \<and> su_grab su' = Some g
      \<and> su_trace su' = su_trace su @ body"
proof (induction body arbitrary: su)
  case Nil
  then show ?case by auto
next
  case (Cons l body)
  let ?su = "module_line l (crash_line l su)"
  have "su_grab ?su = Some g" "su_trace ?su = su_trace su @ [l]" "su_crash ?su \<noteq> []"
    using Cons.prems by (simp_all add: crash_line_def Let_def)
  from Cons.IH [OF this(3,1)] this(2) Cons.prems show ?case by auto
qed

text \<open>When the log closes its call trace, as it does with the TASK and IRQ marks, the last line between the marks, for a kernel thread its outermost frame, is not reported: the trace parsed is that of all lines but the last.\<close>

theorem closed_trace_loses_last_line:
  assumes "starts_crash l0" and "\<not> ends_crash l0" and "opened_trace l0 = None"
    and "opened_trace mark = Some g" and "\<not> ends_crash mark"
    and "list_all (\<lambda>l. \<not> ends_crash l \<and> \<not> sublist ('' </'' @ g @ ''>'') l) body"
    and "sublist ('' </'' @ g @ ''>'') close" and "\<not> ends_crash close"
    and "ends_crash fin" and "opened_trace fin = None"
  shows "fst (snd (get_summaries (l0 # mark # body @ close # fin # rest))) = parse_traces (butlast body)"
proof -
  define s1 where "s1 = module_line l0 (crash_line l0 empty_summary)"
  define s2 where "s2 = module_line mark (crash_line mark s1)"
  have start: "su_crash empty_summary = []" by (simp add: empty_summary_def)
  have s1: "su_crash s1 = [l0]" "su_trace s1 = []" "su_grab s1 = None"
    using assms(3) by (simp_all add: s1_def crash_line_def Let_def empty_summary_def)
  have s2: "su_crash s2 \<noteq> []" "su_trace s2 = []" "su_grab s2 = Some g"
    using assms(4) s1 by (simp_all add: s2_def crash_line_def Let_def)
  obtain s3 where s3: "read_dmesg (body @ close # fin # rest) s2 = read_dmesg (close # fin # rest) s3"
    "su_crash s3 \<noteq> []" "su_grab s3 = Some g" "su_trace s3 = body"
    using read_dmesg_body [OF s2(1,3) assms(6), of "close # fin # rest"] s2(2) by auto
  have "read_dmesg (l0 # mark # body @ close # fin # rest) empty_summary = read_dmesg (close # fin # rest) s3"
    using assms(1,2,5) s1(1) s3(1) by (simp add: s1_def [symmetric] s2_def [symmetric] start)
  moreover have "su_trace (read_dmesg (close # fin # rest) s3) = body"
    using assms(7-10) s3 by (simp add: crash_line_def Let_def)
  ultimately show ?thesis by (simp add: get_summaries_def Let_def)
qed

definition sample_crash :: "string list" where
  "sample_crash = [''general protection fault'', '' <TASK>'', '' do_idle+0x9/0x20'', '' start+0x9/0x20'', '' </TASK>'', ''Sending NMI'']"

theorem closed_trace_loses_last_line_witness:
  "fst (snd (get_summaries sample_crash)) = parse_traces ['' do_idle+0x9/0x20'']"
proof -
  have c: "sample_crash = ''general protection fault'' # '' <TASK>'' # ['' do_idle+0x9/0x20'', '' start+0x9/0x20'']
      @ '' </TASK>'' # ''Sending NMI'' # []" by (simp add: sample_crash_def)
  show ?thesis unfolding c
    by (subst closed_trace_loses_last_line [where g = "''TASK''"]) code_simp+
qed

lemma file_key_total: "\<exists>v. get_file_key key (ls, None) = Inr v"
  by (induction ls) (auto simp: Let_def)

lemma build_member_keeps:
  "\<exists>ev'. build_member ke m ev = Inr ev' \<and> ev_message ev' = ev_message ev"
proof -
  obtain b v where "get_build_id (Inr (keep_lines (ke_replace ke (snd m)), None)) = Inr b"
    "get_version_id (Inr (keep_lines (ke_replace ke (snd m)), None)) = Inr v"
    using file_key_total [of "''BUILD_ID''" "keep_lines (ke_replace ke (snd m))"]
      file_key_total [of "''VERSION_ID''" "keep_lines (ke_replace ke (snd m))"]
    by (auto simp: get_build_id_def get_version_id_def os_release_key_def)
  then show ?thesis by (simp add: build_member_def Let_def)
qed

lemma no_dmesg_members:
  assumes "\<And>d. \<exists>t. ke_decode ke d = Inr t"
  shows "list_all (\<lambda>m. \<not> prefix ''dmesg'' (fst m)) ms \<Longrightarrow> ev_message ev = JNull \<Longrightarrow>
    \<exists>ev' st'. kdump_members ke ms ev st = Inr (ev', st') \<and> ev_message ev' = JNull"
proof (induction ms arbitrary: ev st)
  case (Cons m ms)
  obtain t where t: "ke_decode ke (snd m) = Inr t" using assms by blast
  have "\<exists>ev1. version_member ke m (add_attachment (text_attachment (fst m) (snd m)) ev) = Inr ev1 \<and> ev_message ev1 = JNull"
    using Cons.prems(2) t by (cases "prefix ''version'' (fst m)") (simp_all add: version_member_def add_attachment_def)
  then obtain ev1 where v: "version_member ke m (add_attachment (text_attachment (fst m) (snd m)) ev) = Inr ev1"
    "ev_message ev1 = JNull" by blast
  obtain ev2 where b: "build_member ke m ev1 = Inr ev2" "ev_message ev2 = JNull"
    using build_member_keeps [of ke m ev1] v(2) by auto
  have "dmesg_member ke m ev2 = Inr (ev2, [])" using Cons.prems(1) by (simp add: dmesg_member_def)
  then show ?case using Cons.IH [OF _ b(2), of st] Cons.prems(1) v(1) b(1) by simp
qed simp

text \<open>An archive without a kernel log is given up: the result is a permanent error, so that the file is moved to the failed logs, and nothing is sent to the server.\<close>

theorem archive_without_dmesg:
  assumes "\<And>d. \<exists>t. ke_decode ke d = Inr t" and "list_all (\<lambda>m. \<not> prefix ''dmesg'' (fst m)) ms"
  shows "kdump_submit ke http (Inr url) fname (Inr ms) (Inr bytes) = (Inr PERMANENT_ERROR, [])"
proof -
  have "ev_message (new_event (le_sentry (ke_logs ke)) url) = JNull" by (simp add: new_event_def)
  then obtain ev st where "kdump_members ke ms (new_event (le_sentry (ke_logs ke)) url) [] = Inr (ev, st)" "ev_message ev = JNull"
    using no_dmesg_members [OF assms] by blast
  then show ?thesis by (simp add: kdump_submit_def kdump_prepare_def finish_def Let_def)
qed

definition sample_ke :: kdump_env where
  "sample_ke = \<lparr>ke_logs = sample_logs, ke_decode = Inr, ke_replace = (\<lambda>d. d), ke_strptime = (\<lambda>_. Inr 0)\<rparr>"

theorem archive_without_dmesg_witness:
  "kdump_submit sample_ke (\<lambda>_. Inr 200) (Inr ''https://k@h/5'') ''kdumpst-202301010000.zip'' (Inr [(''version'', ''6.1''), (''build'', [])]) (Inr ''PK'')
    = (Inr PERMANENT_ERROR, [])"
  by (rule archive_without_dmesg) (simp_all add: sample_ke_def)

end
