(* ===== verification/Trace.thy ===== *)
theory Trace imports Submits Data Helper_Files Unit_Names begin

text \<open>
  The trace helper (\<^verbatim>\<open>helpers/trace.py\<close>): kernel trace lines, the events made of them, the kernel messages
  captured with them, the pending log, and its submission. Times are in units of 1e-9 seconds.
\<close>

section \<open>TraceLine\<close>

record trace_line_record =
  tl_comm :: string
  tl_pid :: int
  tl_cpu :: int
  tl_timestamp :: int
  tl_function :: string
  tl_extra :: "string list"

text \<open>
  \<^verbatim>\<open>TraceLine(line)\<close>; \<open>tofloat\<close> is Python's \<^verbatim>\<open>float\<close> of a string, None for a ValueError. A line of at most
  sixteen characters has no columns.
\<close>

definition parse_trace_line :: "(string \<Rightarrow> int option) \<Rightarrow> string \<Rightarrow> trace_line_record result" where
  "parse_trace_line tofloat line =
     (let comm = take 16 line; columns = py_words (drop 17 line) in
      if length columns < 5 \<or> line ! 16 \<noteq> CHR ''-'' then Inl ValueError
      else (case py_int (columns ! 0) of None \<Rightarrow> Inl ValueError | Some pid \<Rightarrow>
           (case py_int (butlast (tl (columns ! 1))) of None \<Rightarrow> Inl ValueError | Some cpu \<Rightarrow>
           (case tofloat (rstrip_char (CHR '':'') (columns ! 3)) of None \<Rightarrow> Inl ValueError | Some t \<Rightarrow>
             Inr \<lparr>tl_comm = lstrip comm, tl_pid = pid, tl_cpu = cpu, tl_timestamp = t,
                  tl_function = rstrip_char (CHR '':'') (columns ! 4), tl_extra = drop 5 columns\<rparr>))))"

section \<open>Events\<close>

datatype trace_type = OOM | SPLIT_LOCK

definition type_value :: "trace_type \<Rightarrow> string" where
  "type_value t = (case t of OOM \<Rightarrow> ''oom'' | SPLIT_LOCK \<Rightarrow> ''split_lock'')"

record trace_event =
  te_type :: trace_type
  te_appid :: "int option"
  te_pid :: "int option"
  te_timestamp :: int
  te_uptime :: int
  te_journal :: "string list option"
  te_path :: "string option"
  te_executable :: "string option"
  te_comm :: "string option"
  te_build_id :: "string option"
  te_pkgname :: "string option"
  te_pkgver :: "string option"

definition new_trace_event :: "trace_type \<Rightarrow> trace_event" where
  "new_trace_event t = \<lparr>te_type = t, te_appid = None, te_pid = None, te_timestamp = 0, te_uptime = 0, te_journal = None,
     te_path = None, te_executable = None, te_comm = None, te_build_id = None, te_pkgname = None, te_pkgver = None\<rparr>"

definition opt_entry :: "string \<Rightarrow> ('a \<Rightarrow> json) \<Rightarrow> 'a option \<Rightarrow> (string, json) dict" where
  "opt_entry k f v = (case v of None \<Rightarrow> [] | Some x \<Rightarrow> [(k, f x)])"

definition trace_data :: "trace_event \<Rightarrow> (string, json) dict" where
  "trace_data ev = [(''type'', JStr (type_value (te_type ev)))]
     @ (if te_timestamp ev \<noteq> 0 then [(''timestamp'', JFloat (te_timestamp ev))] else [])
     @ (if te_uptime ev \<noteq> 0 then [(''uptime'', JFloat (te_uptime ev))] else [])
     @ opt_entry ''pid'' JInt (te_pid ev) @ opt_entry ''appid'' JInt (te_appid ev)
     @ opt_entry ''journal'' (JList \<circ> map JStr) (te_journal ev) @ opt_entry ''path'' JStr (te_path ev)
     @ opt_entry ''executable'' JStr (te_executable ev) @ opt_entry ''comm'' JStr (te_comm ev)
     @ opt_entry ''build_id'' JStr (te_build_id ev) @ opt_entry ''pkgname'' JStr (te_pkgname ev)
     @ opt_entry ''pkgver'' JStr (te_pkgver ev)"

section \<open>The kernel messages of an event\<close>

definition TIMING_BUFFER :: int where "TIMING_BUFFER = 100000"

text \<open>
  \<^verbatim>\<open>x86/split lock detection: #AC: .{1,15}/\d+ .+ split_lock trap\<close> after its literal start: a name of one
  to fifteen characters, a slash, digits, a space, something, and the literal end, within one line.
\<close>

definition split_lock_tail :: "string \<Rightarrow> bool" where
  "split_lock_tail s =
     (let one = takeWhile (\<lambda>c. c \<noteq> CHR 0x0A) s in
      list_ex (\<lambda>n. n < length one \<and> one ! n = CHR ''/''
        \<and> (let d = drop (Suc n) one; rest = dropWhile is_digit d
            in takeWhile is_digit d \<noteq> [] \<and> prefix '' '' rest \<and> sublist '' split_lock trap'' (drop 2 rest))) [1..<16])"

fun split_lock_message :: "string \<Rightarrow> bool" where
  "split_lock_message [] = False"
| "split_lock_message (c # s) =
     ((prefix ''x86/split lock detection: #AC: '' (c # s) \<and> split_lock_tail (drop 31 (c # s))) \<or> split_lock_message s)"

definition journal_starts :: "trace_type \<Rightarrow> string \<Rightarrow> bool" where
  "journal_starts t m = (case t of OOM \<Rightarrow> sublist ''invoked oom-killer'' m | SPLIT_LOCK \<Rightarrow> split_lock_message m)"

text \<open>A type without an end expression has one-line messages.\<close>

definition journal_ends :: "trace_type \<Rightarrow> string \<Rightarrow> bool" where
  "journal_ends t m = (case t of OOM \<Rightarrow> sublist ''Out of memory: Killed process'' m | SPLIT_LOCK \<Rightarrow> True)"

fun capture_lines :: "trace_type \<Rightarrow> int \<Rightarrow> (string, json) dict list \<Rightarrow> bool \<Rightarrow> string list \<Rightarrow> json
    \<Rightarrow> (string list \<times> json) result" where
  "capture_lines t start [] capturing acc cursor = Inr (acc, cursor)"
| "capture_lines t start (line # rest) capturing acc cursor =
     (case dict_getd line ''_SOURCE_MONOTONIC_TIMESTAMP'' (JStr ''0'') of
        JStr ts \<Rightarrow> (case py_int ts of
            None \<Rightarrow> Inl ValueError
          | Some n \<Rightarrow>
             (if n < start - TIMING_BUFFER then capture_lines t start rest capturing acc cursor
              else (case obj_get line ''MESSAGE'' of
                  JNull \<Rightarrow> capture_lines t start rest capturing acc cursor
                | JStr m \<Rightarrow>
                   (if \<not> (capturing \<or> journal_starts t m) then capture_lines t start rest False acc cursor
                    else (let acc' = acc @ split_on (CHR 0x0A) m in
                      if journal_ends t m
                      then (case dict_get line ''__CURSOR'' of None \<Rightarrow> Inl (KeyError ''__CURSOR'') | Some c \<Rightarrow> Inr (acc', c))
                      else capture_lines t start rest True acc' cursor))
                | _ \<Rightarrow> Inl AssertionError)))
      | _ \<Rightarrow> Inl AssertionError)"

definition kernel_query :: "string option \<Rightarrow> jquery" where
  "kernel_query cursor = \<lparr>jq_unit = ''kernel'', jq_cursor = cursor, jq_current_boot = True, jq_start_ago_ms = None,
     jq_uid = None, jq_allow_system = True, jq_allow_user = False\<rparr>"

definition trace_journal :: "(string list \<Rightarrow> json result list result) \<Rightarrow> trace_type \<Rightarrow> int \<Rightarrow> store
    \<Rightarrow> string list option result \<times> store" where
  "trace_journal exec t start s =
     (let name = type_value t @ ''.cursor'' in
      case (case ds_get s name JNull of JNull \<Rightarrow> Inr None | JStr c \<Rightarrow> Inr (Some c) | _ \<Rightarrow> Inl AssertionError) of
        Inl e \<Rightarrow> (Inl e, s)
      | Inr cursor \<Rightarrow> (case read_journal exec (kernel_query cursor) of
          Inl e \<Rightarrow> (Inl e, s)
        | Inr (None, c) \<Rightarrow> (Inr None, s)
        | Inr (Some lines, c) \<Rightarrow> (case capture_lines t start lines False [] c of
            Inl e \<Rightarrow> (Inl e, s)
          | Inr (capture, c') \<Rightarrow> (Inr (Some capture), if c' = JNull then s else ds_setitem s name c'))))"

section \<open>From a line to a pending log\<close>

record trace_env =
  tv_float :: "string \<Rightarrow> int option"
  tv_str :: "json \<Rightarrow> string"
  tv_now :: int
  tv_elf :: "string \<Rightarrow> elf_section list result"            \<comment> \<open>the file at a path, as an ELF file\<close>
  tv_pacman :: "string \<Rightarrow> (int \<times> string) result"
  tv_appid :: "int \<Rightarrow> int option result"                  \<comment> \<open>sls.util.get\_appid\<close>
  tv_exec :: "string list \<Rightarrow> json result list result"
  tv_dumps :: "json \<Rightarrow> string"

definition trace_kind :: "trace_line_record \<Rightarrow> trace_event result" where
  "trace_kind ln =
     (if tl_function ln = ''mark_victim'' then
        (case tl_extra ln of
           [] \<Rightarrow> Inl ValueError
         | a # _ \<Rightarrow> (if \<not> prefix ''pid='' a then Inl ValueError
             else (case py_int (after (CHR ''='') a) of None \<Rightarrow> Inl ValueError
               | Some p \<Rightarrow> Inr ((new_trace_event OOM)\<lparr>te_pid := Some p\<rparr>))))
      else if tl_function ln = ''split_lock_warn'' then Inr (new_trace_event SPLIT_LOCK)
      else Inl ValueError)"

definition with_appid :: "(string, json) dict \<Rightarrow> trace_event \<Rightarrow> trace_event result" where
  "with_appid data ev = (case dict_get data ''appid'' of
       None \<Rightarrow> Inr ev
     | Some (JInt n) \<Rightarrow> Inr (ev\<lparr>te_appid := Some n\<rparr>)
     | Some (JBool b) \<Rightarrow> Inr (ev\<lparr>te_appid := Some (if b then 1 else 0)\<rparr>)
     | Some _ \<Rightarrow> Inl ValueError)"

definition with_path :: "trace_env \<Rightarrow> (string, json) dict \<Rightarrow> trace_event \<Rightarrow> trace_event result" where
  "with_path tv data ev = (case dict_get data ''path'' of
       None \<Rightarrow> Inr ev
     | Some v \<Rightarrow>
        (let p = tv_str tv v in
         case get_exe_build_id (tv_elf tv p) of Inl e \<Rightarrow> Inl e | Inr b \<Rightarrow>
         (case get_path_package (tv_pacman tv p) of Inl e \<Rightarrow> Inl e | Inr pkg \<Rightarrow>
           Inr (ev\<lparr>te_path := Some p, te_executable := Some (basename p), te_build_id := b,
                  te_pkgname := map_option fst pkg, te_pkgver := map_option snd pkg\<rparr>))))"

definition find_appid :: "trace_env \<Rightarrow> trace_event \<Rightarrow> trace_event result" where
  "find_appid tv ev = (case (te_appid ev, te_pid ev) of
       (None, Some p) \<Rightarrow> map_sum id (\<lambda>a. ev\<lparr>te_appid := a\<rparr>) (tv_appid tv p)
     | _ \<Rightarrow> Inr ev)"

definition prepare_event :: "trace_env \<Rightarrow> string \<Rightarrow> (string, json) dict \<Rightarrow> store \<Rightarrow> trace_event result \<times> store" where
  "prepare_event tv line data s =
     (case parse_trace_line (tv_float tv) line of Inl e \<Rightarrow> (Inl e, s) | Inr ln \<Rightarrow>
      (case trace_kind ln of Inl e \<Rightarrow> (Inl e, s) | Inr ev0 \<Rightarrow>
      (case with_appid data (ev0\<lparr>te_timestamp := tv_now tv, te_comm := Some (tl_comm ln), te_uptime := tl_timestamp ln,
             te_pid := (case te_pid ev0 of None \<Rightarrow> Some (tl_pid ln) | p \<Rightarrow> p)\<rparr>) of Inl e \<Rightarrow> (Inl e, s) | Inr ev1 \<Rightarrow>
      (case with_path tv data (case dict_get data ''comm'' of None \<Rightarrow> ev1 | Some v \<Rightarrow> ev1\<lparr>te_comm := Some (tv_str tv v)\<rparr>) of
         Inl e \<Rightarrow> (Inl e, s) | Inr ev2 \<Rightarrow>
      (case find_appid tv ev2 of Inl e \<Rightarrow> (Inl e, s) | Inr ev3 \<Rightarrow>
      (case trace_journal (tv_exec tv) (te_type ev3) (te_uptime ev3 div 1000) s of
         (Inl e, s') \<Rightarrow> (Inl e, s') | (Inr j, s') \<Rightarrow> (Inr (ev3\<lparr>te_journal := j\<rparr>), s')))))))"

definition log_event :: "trace_env \<Rightarrow> string \<Rightarrow> (string, json) dict \<Rightarrow> int \<Rightarrow> store \<times> 'x world_scheme
    \<Rightarrow> unit result \<times> store \<times> 'x world_scheme" where
  "log_event tv line data ts sw = (case sw of (s, w) \<Rightarrow> (case prepare_event tv line data s of
       (Inl e, s') \<Rightarrow> (Inl e, s', w)
     | (Inr ev, s') \<Rightarrow> (case pend_dir w ''trace'' of
         None \<Rightarrow> (Inl FileNotFoundError, s', w)
       | Some d \<Rightarrow> (Inr (), s', set_pend ''trace'' (dict_set d (show_int ts @ ''.json'')
           \<lparr>lf_text = tv_dumps tv (JObj (trace_data (ev\<lparr>te_timestamp := ts\<rparr>))), lf_mtime = ts div 1000000,
            lf_readable = True, lf_stat = True\<rparr>) w))))"

section \<open>Submitting\<close>

definition trace_message :: "(json \<Rightarrow> string) \<Rightarrow> (string, json) dict \<Rightarrow> json result" where
  "trace_message str log = (case dict_get log ''type'' of
       None \<Rightarrow> Inl (KeyError ''type'')
     | Some t \<Rightarrow> Inr (case dict_get log ''executable'' of
         Some x \<Rightarrow> JStr (str t @ '': '' @ str x)
       | None \<Rightarrow> (case dict_get log ''comm'' of Some x \<Rightarrow> JStr (str t @ '': '' @ str x) | None \<Rightarrow> t)))"

definition trace_tag_names :: "string list" where
  "trace_tag_names = [''executable'', ''comm'', ''path'', ''build_id'', ''pkgname'', ''pkgver'']"

definition trace_prepare :: "logs_env \<Rightarrow> string result \<Rightarrow> string result \<Rightarrow> prepared" where
  "trace_prepare le dsn file = (case dsn of Inl e \<Rightarrow> Done (Inl e) | Inr url \<Rightarrow>
     (case file of
        Inl e \<Rightarrow> Done (if is_OSError e then Inr TRANSIENT_ERROR else Inl e)
      | Inr bytes \<Rightarrow> (case le_loads le bytes of
          Inl e \<Rightarrow> Done (if e = JSONDecodeError then Inr PERMANENT_ERROR else Inl e)
        | Inr (JObj log) \<Rightarrow> (case trace_message (se_str (le_sentry le)) log of
            Inl e \<Rightarrow> Done (Inl e)
          | Inr m \<Rightarrow> Send ((new_event (le_sentry le) url)\<lparr>ev_timestamp := obj_get log ''timestamp'',
              ev_appid := obj_get log ''appid'',
              ev_tags := concat (map (\<lambda>k. opt_entry k id (dict_get log k)) trace_tag_names),
              ev_attachments := [json_attachment ''trace.json'' bytes], ev_message := m\<rparr>))
        | Inr v \<Rightarrow> Done (Inl AttributeError))))"

definition trace_submit :: "logs_env \<Rightarrow> http \<Rightarrow> string result \<Rightarrow> string result \<Rightarrow> hresult result \<times> request list" where
  "trace_submit le http dsn file = finish (le_sentry le) http (trace_prepare le dsn file)"

section \<open>The format of a kernel trace line\<close>

definition blank :: "string \<Rightarrow> bool" where
  "blank s = list_ex is_space s"

definition word :: "string \<Rightarrow> bool" where
  "word s = (s \<noteq> [] \<and> \<not> blank s)"

lemma words_aux_word: "\<not> blank w \<Longrightarrow> words_aux acc (w @ s) = words_aux (rev w @ acc) s"
  by (induction w arbitrary: acc) (auto simp: blank_def)

lemma py_words_join: "list_all word ws \<Longrightarrow> py_words (join '' '' ws) = ws"
proof (induction ws)
  case (Cons x ws)
  note ih = Cons.IH and pr = Cons.prems
  show ?case
  proof (cases ws)
    case Nil
    then show ?thesis using pr words_aux_word [of x "[]" "[]"] by (simp add: py_words_def word_def)
  next
    case (Cons y ys)
    have "py_words (x @ '' '' @ join '' '' ws) = x # py_words (join '' '' ws)"
      using pr words_aux_word [of x "[]" "'' '' @ join '' '' ws"] by (simp add: py_words_def word_def space_class)
    then show ?thesis using ih pr \<open>ws = y # ys\<close> by simp
  qed
qed (simp add: py_words_def)

definition kernel_trace_line :: "string \<Rightarrow> nat \<Rightarrow> nat \<Rightarrow> string \<Rightarrow> string \<Rightarrow> string \<Rightarrow> string list \<Rightarrow> string" where
  "kernel_trace_line comm pid cpu bits ts fn args =
     replicate (16 - length comm) (CHR '' '') @ comm @ CHR ''-'' # join '' '' ([show_nat pid, CHR ''['' # show_nat cpu @ '']'', bits, ts @ '':'', fn @ '':''] @ args)"

lemma word_show_nat: "word (show_nat n)"
  using show_nat_digits [of _ n] not_space_digit by (auto simp: word_def blank_def list_ex_iff)

lemma lstrip_pad: "c # cs = comm \<Longrightarrow> \<not> is_space c \<Longrightarrow> lstrip (replicate n (CHR '' '') @ comm) = comm"
  by (induction n) (auto simp: lstrip_def space_class)

lemma rstrip_colon: "s \<noteq> [] \<Longrightarrow> last s \<noteq> CHR '':'' \<Longrightarrow> rstrip_char (CHR '':'') (s @ '':'') = s"
  by (cases s rule: rev_cases) (auto simp: rstrip_char_def)


lemma sample_words: "word ''.....''" "word ''12.5''" "word ''mark_victim''" "list_all word [''pid=77'']"
  by (simp_all add: word_def blank_def is_space_def code_def)


section \<open>What is captured\<close>

definition through :: "('a \<Rightarrow> bool) \<Rightarrow> 'a list \<Rightarrow> 'a list" where
  "through P xs = takeWhile (\<lambda>x. \<not> P x) xs @ take 1 (dropWhile (\<lambda>x. \<not> P x) xs)"

lemma through_Cons: "through P (x # xs) = (if P x then [x] else x # through P xs)"
  by (simp add: through_def)

text \<open>An entry the helper can read, and the message it holds if it is not too old.\<close>

definition readable_entry :: "(string, json) dict \<Rightarrow> bool" where
  "readable_entry line = ((\<exists>ts n. dict_getd line ''_SOURCE_MONOTONIC_TIMESTAMP'' (JStr ''0'') = JStr ts \<and> py_int ts = Some n)
     \<and> (obj_get line ''MESSAGE'' = JNull \<or> (\<exists>m. obj_get line ''MESSAGE'' = JStr m)) \<and> dict_has line ''__CURSOR'')"

definition kernel_message :: "int \<Rightarrow> (string, json) dict \<Rightarrow> string option" where
  "kernel_message start line = (case dict_getd line ''_SOURCE_MONOTONIC_TIMESTAMP'' (JStr ''0'') of
       JStr ts \<Rightarrow> (case py_int ts of
           Some n \<Rightarrow> (if n < start - TIMING_BUFFER then None
              else (case obj_get line ''MESSAGE'' of JStr m \<Rightarrow> Some m | _ \<Rightarrow> None))
         | None \<Rightarrow> None)
     | _ \<Rightarrow> None)"

lemma capture_step:
  assumes "readable_entry line"
  shows "capture_lines t start (line # rest) cap acc cur = (case kernel_message start line of
      None \<Rightarrow> capture_lines t start rest cap acc cur
    | Some m \<Rightarrow> (if \<not> (cap \<or> journal_starts t m) then capture_lines t start rest False acc cur
        else if journal_ends t m then Inr (acc @ split_on (CHR 0x0A) m, the (dict_get line ''__CURSOR''))
        else capture_lines t start rest True (acc @ split_on (CHR 0x0A) m) cur))"
  using assms by (auto simp: readable_entry_def kernel_message_def dict_has_def Let_def)

lemmas capture_lines_Nil = capture_lines.simps(1)

lemma capture_inside:
  "list_all readable_entry lines \<Longrightarrow>
    map_sum id fst (capture_lines t start lines True acc cur)
      = Inr (acc @ concat (map (split_on (CHR 0x0A)) (through (journal_ends t) (List.map_filter (kernel_message start) lines))))"
  by (induction lines arbitrary: acc)
    (simp_all add: capture_step capture_lines_Nil map_filter_simps through_Cons through_def [of _ "[]"] del: capture_lines.simps(2) split: option.splits)

lemma capture_outside:
  "list_all readable_entry lines \<Longrightarrow>
    map_sum id fst (capture_lines t start lines False acc cur)
      = Inr (acc @ concat (map (split_on (CHR 0x0A)) (through (journal_ends t)
          (dropWhile (\<lambda>m. \<not> journal_starts t m) (List.map_filter (kernel_message start) lines)))))"
  by (induction lines arbitrary: acc)
    (simp_all add: capture_step capture_inside capture_lines_Nil map_filter_simps through_Cons through_def [of _ "[]"] del: capture_lines.simps(2) split: option.splits)

text \<open>From readable kernel messages the helper captures one message block: among the messages not older than the event (less the timing buffer), from the first that announces an event of this type through the first from there that ends it, all lines in order.\<close>

theorem capture_lines_spec:
  assumes "list_all readable_entry lines"
  shows "map_sum id fst (capture_lines t start lines False [] cur)
    = Inr (concat (map (split_on (CHR 0x0A)) (through (journal_ends t)
        (dropWhile (\<lambda>m. \<not> journal_starts t m) (List.map_filter (kernel_message start) lines)))))"
  using capture_outside [OF assms, of t start "[]" cur] by simp

definition oom_entry :: "string \<Rightarrow> string \<Rightarrow> (string, json) dict" where
  "oom_entry ts m = [(''__CURSOR'', JStr ts), (''_SOURCE_MONOTONIC_TIMESTAMP'', JStr ts), (''MESSAGE'', JStr m)]"

definition sample_messages :: "(string, json) dict list" where
  "sample_messages = [oom_entry ''1'' ''old invoked oom-killer'', oom_entry ''6'' ''usb'', oom_entry ''7'' ''x invoked oom-killer'',
     oom_entry ''8'' ''Mem-Info:'', oom_entry ''9'' ''Out of memory: Killed process 7'', oom_entry ''8'' ''usb'']"

lemma sample_ints:
  "py_int ''1'' = Some 1" "py_int ''6'' = Some 6" "py_int ''7'' = Some 7"
    "py_int ''8'' = Some 8" "py_int ''9'' = Some 9"
  by code_simp+

lemma sample_readable: "list_all readable_entry sample_messages"
  by (simp add: sample_ints sample_messages_def readable_entry_def oom_entry_def dict_getd_def obj_get_def dict_has_def)

lemma sample_marks:
  "\<not> journal_starts OOM ''usb''" "journal_starts OOM ''x invoked oom-killer''" "\<not> journal_ends OOM ''x invoked oom-killer''"
  "\<not> journal_ends OOM ''Mem-Info:''" "journal_ends OOM ''Out of memory: Killed process 7''"
  by code_simp+

lemma sample_kernel_messages:
  "List.map_filter (kernel_message 100005) sample_messages
    = [''usb'', ''x invoked oom-killer'', ''Mem-Info:'', ''Out of memory: Killed process 7'', ''usb'']"
  by (simp add: sample_messages_def oom_entry_def kernel_message_def dict_getd_def obj_get_def sample_ints TIMING_BUFFER_def
      map_filter_simps)

theorem capture_lines_spec_witness:
  "map_sum id fst (capture_lines OOM 100005 sample_messages False [] JNull)
    = Inr [''x invoked oom-killer'', ''Mem-Info:'', ''Out of memory: Killed process 7'']"
  unfolding capture_lines_spec [OF sample_readable] sample_kernel_messages
  by (simp add: through_def sample_marks)

text \<open>The journal reader keeps an entry only if its unit field equals the unit asked for, and entries of the kernel have no unit: whatever the kernel logged, an event's journal is empty.\<close>

theorem kernel_journal_is_empty:
  assumes "stored = JNull \<or> stored = JStr c" and "ds_get s (type_value t @ ''.cursor'') JNull = stored"
    and "\<And>q. exec (journal_cmd (kernel_query q)) = Inr (map (Inr \<circ> JObj) lines)"
    and "list_all (\<lambda>d. dict_has d ''__CURSOR'' \<and> dict_get d ''_SYSTEMD_UNIT'' = None) lines"
  shows "fst (trace_journal exec t start s) = Inr (Some [])"
proof -
  have "\<exists>c. journal_lines (kernel_query q) (map (Inr \<circ> JObj) lines) [] cur = Inr ([], c)" for q cur
    using assms(4)
    by (induction lines arbitrary: cur) (auto simp: dict_has_def journal_wanted_def kernel_query_def obj_get_def dict_getd_def)
  then have "\<exists>c. read_journal exec (kernel_query q) = Inr (Some [], c)" for q
  proof -
    assume "\<And>q cur. \<exists>c. journal_lines (kernel_query q) (map (Inr \<circ> JObj) lines) [] cur = Inr ([], c)"
    then obtain c where "journal_lines (kernel_query q) (map (Inr \<circ> JObj) lines) [] JNull = Inr ([], c)" by blast
    then show ?thesis by (simp only: read_journal_def assms(3) sum.case prod.case) blast
  qed
  then obtain f where "\<And>q. read_journal exec (kernel_query q) = Inr (Some [], f q)" by metis
  then show ?thesis using assms(1,2) by (auto simp: trace_journal_def Let_def)
qed

theorem kernel_journal_is_empty_witness:
  "fst (trace_journal (\<lambda>_. Inr (map (Inr \<circ> JObj) sample_messages)) OOM 100005
      \<lparr>ds_name = [], ds_defaults = [], ds_data = [], ds_dirty = False\<rparr>) = Inr (Some [])"
  by (rule kernel_journal_is_empty [where stored = JNull and lines = sample_messages])
    (simp_all add: ds_get_def ds_getitem_def sample_messages_def oom_entry_def dict_has_def)

section \<open>From the event to the server\<close>

lemma dict_get_append: "dict_get (a @ b) k = (case dict_get a k of None \<Rightarrow> dict_get b k | Some v \<Rightarrow> Some v)"
  by (simp add: dict_get_def map_add_def split: option.splits)

lemma dict_get_opt_entry: "dict_get (opt_entry k f v) k' = (if k' = k then map_option f v else None)"
  by (auto simp: opt_entry_def split: option.splits)

lemma same_option: "(case x of None \<Rightarrow> None | Some v \<Rightarrow> Some v) = x"
  by (cases x) simp_all

lemma trace_data_get:
  "dict_get (trace_data ev) ''type'' = Some (JStr (type_value (te_type ev)))"
  "dict_get (trace_data ev) ''timestamp'' = (if te_timestamp ev = 0 then None else Some (JFloat (te_timestamp ev)))"
  "dict_get (trace_data ev) ''appid'' = map_option JInt (te_appid ev)"
  "dict_get (trace_data ev) ''path'' = map_option JStr (te_path ev)"
  "dict_get (trace_data ev) ''executable'' = map_option JStr (te_executable ev)"
  "dict_get (trace_data ev) ''comm'' = map_option JStr (te_comm ev)"
  "dict_get (trace_data ev) ''build_id'' = map_option JStr (te_build_id ev)"
  "dict_get (trace_data ev) ''pkgname'' = map_option JStr (te_pkgname ev)"
  "dict_get (trace_data ev) ''pkgver'' = map_option JStr (te_pkgver ev)"
  by (simp_all add: trace_data_def dict_get_append dict_get_opt_entry same_option option.map_id cong: option.case_cong)
    (simp_all add: map_option_case split: option.splits)

text \<open>An event that was logged is submitted as it was: the same time and application, its executable, command, path, build id and package as tags, the log attached, and a message of the event's type and the executable, or else the command, it was about.\<close>

theorem logged_event_is_submitted:
  assumes "le_loads le bytes = Inr (JObj (trace_data ev))" and "\<And>s. se_str (le_sentry le) (JStr s) = s"
  shows "trace_prepare le (Inr url) (Inr bytes) = Send ((new_event (le_sentry le) url)\<lparr>
      ev_timestamp := (if te_timestamp ev = 0 then JNull else JFloat (te_timestamp ev)),
      ev_appid := (case te_appid ev of None \<Rightarrow> JNull | Some n \<Rightarrow> JInt n),
      ev_tags := opt_entry ''executable'' JStr (te_executable ev) @ opt_entry ''comm'' JStr (te_comm ev)
        @ opt_entry ''path'' JStr (te_path ev) @ opt_entry ''build_id'' JStr (te_build_id ev)
        @ opt_entry ''pkgname'' JStr (te_pkgname ev) @ opt_entry ''pkgver'' JStr (te_pkgver ev),
      ev_attachments := [json_attachment ''trace.json'' bytes],
      ev_message := JStr (type_value (te_type ev) @ (case te_executable ev of Some x \<Rightarrow> '': '' @ x
        | None \<Rightarrow> (case te_comm ev of Some x \<Rightarrow> '': '' @ x | None \<Rightarrow> [])))\<rparr>)"
proof -
  have o: "opt_entry k id (map_option f v) = opt_entry k f v" for k :: string and f :: "'a \<Rightarrow> json" and v
    by (simp add: opt_entry_def split: option.splits)
  show ?thesis
    using assms by (simp add: trace_prepare_def trace_message_def trace_data_get trace_tag_names_def o obj_get_def dict_getd_def
        split: option.splits)
qed

definition sample_trace :: trace_event where
  "sample_trace = (new_trace_event OOM)\<lparr>te_pid := Some 77, te_timestamp := 5, te_comm := Some ''Game'', te_appid := Some 220\<rparr>"

definition trace_logs :: logs_env where
  "trace_logs = sample_logs\<lparr>le_sentry := sample_env\<lparr>se_str := (\<lambda>v. case v of JStr s \<Rightarrow> s | _ \<Rightarrow> [])\<rparr>,
     le_loads := (\<lambda>_. Inr (JObj (trace_data sample_trace)))\<rparr>"

theorem logged_event_is_submitted_witness:
  "trace_prepare trace_logs (Inr ''https://k@h/5'') (Inr ''log'') = Send ((new_event (le_sentry trace_logs) ''https://k@h/5'')\<lparr>
      ev_timestamp := JFloat 5, ev_appid := JInt 220, ev_tags := [(''comm'', JStr ''Game'')],
      ev_attachments := [json_attachment ''trace.json'' ''log''], ev_message := JStr ''oom: Game''\<rparr>)"
  by (subst logged_event_is_submitted [where ev = sample_trace])
    (simp_all add: trace_logs_def sample_trace_def new_trace_event_def opt_entry_def type_value_def)

end
