(* ===== verification/Sysinfo.thy ===== *)
theory Sysinfo imports Journal Util_Names begin

text \<open>
  The system information helper (\<^verbatim>\<open>helpers/sysinfo.py\<close>): the registry of device types, and the
  collection that gathers their reports into one pending file and turns it into a log when the
  interval is over. What a type lists is a JSON value; the types themselves are in \<open>Sysinfo_Devices\<close>.
  JSON text and decimal fractions are written and read by parameters.
\<close>

section \<open>Device types\<close>

record sys_type =
  ty_name :: string               \<comment> \<open>the class name without Type\<close>
  ty_version :: int
  ty_list :: "json result"        \<comment> \<open>what list() returns now\<close>

definition sysinfo_helper :: helper where
  "sysinfo_helper = \<lparr>h_name = ''sysinfo'', h_exts = [''.json'']\<rparr>"

definition enabled_key :: "sys_type \<Rightarrow> string" where
  "enabled_key ty = snake_case (ty_name ty) @ ''.enabled''"

definition type_enabled :: "'x world_scheme \<Rightarrow> sys_type \<Rightarrow> bool result" where
  "type_enabled w ty = (case sec_get (conf w) (h_section sysinfo_helper) [] (enabled_key ty) (Some ''on'') of
       Inl e \<Rightarrow> Inl e | Inr v \<Rightarrow> Inr (v = Some ''on''))"

definition type_enable :: "sys_type \<Rightarrow> bool \<Rightarrow> 'x world_scheme \<Rightarrow> unit result \<times> 'x world_scheme" where
  "type_enable ty on w = set_and_write sysinfo_helper (enabled_key ty) (if on then ''on'' else ''off'') w"

definition register_type :: "(string, sys_type) dict \<Rightarrow> sys_type \<Rightarrow> (string, sys_type) dict" where
  "register_type types ty = dict_set types (snake_case (ty_name ty)) ty"

text \<open>\<^verbatim>\<open>SysinfoHelper.list\<close>: any exception but a cancellation is logged and gives None.\<close>

definition list_device :: "sys_type \<Rightarrow> json result" where
  "list_device ty = (case ty_list ty of
       Inr v \<Rightarrow> Inr v | Inl e \<Rightarrow> (if is_Exception e then Inr JNull else Inl e))"

section \<open>Gathering\<close>

fun enabled_types :: "'x world_scheme \<Rightarrow> (string, sys_type) dict \<Rightarrow> (string, sys_type) dict result" where
  "enabled_types w [] = Inr []"
| "enabled_types w ((name, ty) # types) = (case type_enabled w ty of
       Inl e \<Rightarrow> Inl e
     | Inr on \<Rightarrow> (case enabled_types w types of
         Inl e \<Rightarrow> Inl e | Inr rest \<Rightarrow> Inr (if on then (name, ty) # rest else rest)))"

fun list_devices :: "(string, sys_type) dict \<Rightarrow> json list result" where
  "list_devices [] = Inr []"
| "list_devices ((name, ty) # types) = (case list_device ty of
       Inl e \<Rightarrow> Inl e
     | Inr v \<Rightarrow> (case list_devices types of Inl e \<Rightarrow> Inl e | Inr vs \<Rightarrow> Inr (v # vs)))"

definition sorted_types :: "(string, sys_type) dict \<Rightarrow> (string, sys_type) dict" where
  "sorted_types types = sort_key fst types"

text \<open>The names of all types are zipped with the results of those that are enabled.\<close>

definition gather_devices :: "'x world_scheme \<Rightarrow> (string, sys_type) dict \<Rightarrow> (string, json) dict result" where
  "gather_devices w types = (case enabled_types w (sorted_types types) of
       Inl e \<Rightarrow> Inl e
     | Inr on \<Rightarrow> (case list_devices on of
         Inl e \<Rightarrow> Inl e
       | Inr results \<Rightarrow> Inr (filter (\<lambda>(name, v). v \<noteq> JNull) (zip (map fst (sorted_types types)) results))))"

section \<open>Merging with what is known\<close>

record sysinfo_env =
  sy_types :: "(string, sys_type) dict"
  sy_dumps :: "json \<Rightarrow> string"
  sy_loads :: "string \<Rightarrow> json result"
  sy_float :: "string \<Rightarrow> int option"       \<comment> \<open>float() of a text, in units of 1e-9\<close>
  sy_now :: int                            \<comment> \<open>time.time(), in units of 1e-9\<close>
  sy_mkdirs :: "unit result"               \<comment> \<open>os.makedirs(data_root)\<close>
  sy_readable :: "unit result"             \<comment> \<open>opening the pending file for reading, when it is there\<close>
  sy_writable :: "unit result"             \<comment> \<open>opening it for writing\<close>
  sy_unlink :: "unit result"               \<comment> \<open>removing it\<close>
  sy_report :: "unit result"               \<comment> \<open>creating the log\<close>

text \<open>The keys of the ordered dictionary that removes duplicates.\<close>

definition put_key :: "string \<Rightarrow> string list \<Rightarrow> string list" where
  "put_key k ks = (if k \<in> set ks then ks else ks @ [k])"

definition stamped :: "int \<Rightarrow> json \<Rightarrow> json" where
  "stamped ver dev = (case dev of
       JObj d \<Rightarrow> JObj (sort_key fst (dict_set d ''_version'' (JInt ver))) | _ \<Rightarrow> dev)"

text \<open>The devices a reported value adds: every entry of a list, or the value itself if it is a
  dictionary (whose keys are not sorted).\<close>

definition reported :: "int \<Rightarrow> json \<Rightarrow> json list" where
  "reported ver v = (case v of
       JList devs \<Rightarrow> map (stamped ver) devs
     | JObj d \<Rightarrow> [JObj (dict_set d ''_version'' (JInt ver))]
     | _ \<Rightarrow> [])"

definition device_keys :: "(json \<Rightarrow> string) \<Rightarrow> int \<Rightarrow> json list \<Rightarrow> json \<Rightarrow> string list" where
  "device_keys dumps ver old v = fold put_key (map dumps (old @ reported ver v)) []"

fun loads_all :: "(string \<Rightarrow> json result) \<Rightarrow> string list \<Rightarrow> json list result" where
  "loads_all loads [] = Inr []"
| "loads_all loads (s # ss) = (case loads s of
       Inl e \<Rightarrow> Inl e | Inr v \<Rightarrow> (case loads_all loads ss of Inl e \<Rightarrow> Inl e | Inr vs \<Rightarrow> Inr (v # vs)))"

text \<open>One section: \<open>known\<close> is a dictionary unless somebody put another value into the file.\<close>

definition merge_section :: "sysinfo_env \<Rightarrow> string \<Rightarrow> json \<Rightarrow> json \<Rightarrow> json result" where
  "merge_section se section value known = (case known of
       JObj d \<Rightarrow>
         (case (case dict_get d section of None \<Rightarrow> Inr [] | Some old \<Rightarrow> iterated old) of
            Inl e \<Rightarrow> Inl e
          | Inr old \<Rightarrow> (case dict_get (sy_types se) section of
              None \<Rightarrow> Inl (KeyError section)
            | Some ty \<Rightarrow> (case loads_all (sy_loads se) (device_keys (sy_dumps se) (ty_version ty) old value) of
                Inl e \<Rightarrow> Inl e | Inr devs \<Rightarrow> Inr (JObj (dict_set d section (JList devs))))))
     | _ \<Rightarrow> Inl TypeError)"

fun merge_sections :: "sysinfo_env \<Rightarrow> (string, json) dict \<Rightarrow> json \<Rightarrow> json result" where
  "merge_sections se [] known = Inr known"
| "merge_sections se ((section, v) # rest) known = (case merge_section se section v known of
       Inl e \<Rightarrow> Inl e | Inr known' \<Rightarrow> merge_sections se rest known')"

section \<open>Collecting\<close>

text \<open>The pending file, its text if it is there, the data store and the world.\<close>

type_synonym 'w sysinfo_state = "string option \<times> data_state \<times> store \<times> 'w"

definition known_devices :: "sysinfo_env \<Rightarrow> string option \<Rightarrow> json result" where
  "known_devices se file = (case file of
       None \<Rightarrow> Inr (JObj [])
     | Some text \<Rightarrow> (case sy_readable se of
         Inl e \<Rightarrow> (if e = FileNotFoundError then Inr (JObj []) else Inl e)
       | Inr _ \<Rightarrow> (case sy_loads se text of
           Inr v \<Rightarrow> Inr v | Inl e \<Rightarrow> (if e = JSONDecodeError then Inr (JObj []) else Inl e))))"

text \<open>The interval, a week unless it is configured; the time of the last report as a number.\<close>

definition report_interval :: "sysinfo_env \<Rightarrow> 'x world_scheme \<Rightarrow> int result" where
  "report_interval se w = (case sec_get (conf w) (h_section sysinfo_helper) [] ''interval'' None of
       Inl e \<Rightarrow> Inl e
     | Inr None \<Rightarrow> Inr (604800 * 1000000000)
     | Inr (Some s) \<Rightarrow> (if s = [] then Inr (604800 * 1000000000)
         else (case sy_float se s of None \<Rightarrow> Inl ValueError | Some n \<Rightarrow> Inr n)))"

definition as_number :: "json \<Rightarrow> int option" where
  "as_number v = (case v of JInt n \<Rightarrow> Some (n * 1000000000) | JFloat n \<Rightarrow> Some n
     | JBool b \<Rightarrow> Some (if b then 1000000000 else 0) | _ \<Rightarrow> None)"

text \<open>\<^verbatim>\<open>f'{now:.0f}'\<close>: the nearest second, a half to the even one.\<close>

definition round_secs :: "int \<Rightarrow> int" where
  "round_secs t = (let q = t div 1000000000; r = t mod 1000000000 in
     if r < 500000000 \<or> (r = 500000000 \<and> even q) then q else q + 1)"

definition report_name :: "int \<Rightarrow> string" where
  "report_name t = (if round_secs t < 0 then ''-'' else []) @ show_nat (nat \<bar>round_secs t\<bar>) @ ''.json''"

text \<open>The sections of types that are now disabled are left out of the report.\<close>

fun drop_disabled :: "'x world_scheme \<Rightarrow> (string, sys_type) dict \<Rightarrow> json \<Rightarrow> json result" where
  "drop_disabled w [] known = Inr known"
| "drop_disabled w ((name, ty) # types) known = (case type_enabled w ty of
       Inl e \<Rightarrow> Inl e
     | Inr True \<Rightarrow> drop_disabled w types known
     | Inr False \<Rightarrow> (case known of
         JObj d \<Rightarrow> drop_disabled w types (JObj (if dict_has d name then dict_del d name else d))
       | JList vs \<Rightarrow> (if JStr name \<in> set vs then Inl TypeError else drop_disabled w types known)
       | JStr s \<Rightarrow> (if sublist name s then Inl TypeError else drop_disabled w types known)
       | _ \<Rightarrow> Inl TypeError))"

definition write_report :: "sysinfo_env \<Rightarrow> json \<Rightarrow> 'x world_scheme \<Rightarrow> unit result \<times> 'x world_scheme" where
  "write_report se known w = (case pend_dir w ''sysinfo'' of
       None \<Rightarrow> (Inl FileNotFoundError, w)
     | Some d \<Rightarrow> (case sy_report se of
         Inl e \<Rightarrow> (Inl e, w)
       | Inr _ \<Rightarrow> (Inr (), set_pend ''sysinfo'' (dict_set d (report_name (sy_now se))
           \<lparr>lf_text = sy_dumps se known, lf_mtime = sy_now se div 1000000, lf_readable = True, lf_stat = True\<rparr>) w)))"

text \<open>After the pending file is written: the report, when it is due. The result says whether there is
  a new log.\<close>

definition report_devices :: "sysinfo_env \<Rightarrow> json \<Rightarrow> json \<Rightarrow> string option \<times> 'x world_scheme
    \<Rightarrow> bool result \<times> string option \<times> 'x world_scheme" where
  "report_devices se timestamp known fw = (case fw of (file, w) \<Rightarrow>
     (case as_number timestamp of
        None \<Rightarrow> (Inr False, file, w)
      | Some t \<Rightarrow> (case report_interval se w of
          Inl e \<Rightarrow> (Inl e, file, w)
        | Inr interval \<Rightarrow>
           (if sy_now se - t < interval then (Inr False, file, w)
            else (case sy_unlink se of
                Inl e \<Rightarrow> (Inl e, file, w)
              | Inr _ \<Rightarrow> (case drop_disabled w (sy_types se) known of
                  Inl e \<Rightarrow> (Inl e, None, w)
                | Inr known' \<Rightarrow> (case write_report se known' w of
                    (Inl e, w') \<Rightarrow> (Inl e, None, w') | (Inr _, w') \<Rightarrow> (Inr True, None, w'))))))))"

definition stamp_time :: "sysinfo_env \<Rightarrow> json \<Rightarrow> bool \<Rightarrow> data_state \<times> store \<Rightarrow> unit result \<times> data_state \<times> store" where
  "stamp_time se timestamp fresh ss = (case ss of (st, s) \<Rightarrow>
     (if (as_number timestamp \<noteq> None \<and> truthy timestamp) \<and> \<not> fresh then (Inr (), st, s)
      else (case ds_write st (ds_setitem s ''timestamp'' (JFloat (sy_now se))) of
          (Inl e, s', st') \<Rightarrow> (if is_OSError e then (Inr (), st', s') else (Inl e, st', s'))
        | (Inr _, s', st') \<Rightarrow> (Inr (), st', s'))))"

definition sysinfo_collect :: "sysinfo_env \<Rightarrow> 'x world_scheme sysinfo_state
    \<Rightarrow> string list result \<times> 'x world_scheme sysinfo_state" where
  "sysinfo_collect se = (\<lambda>(file, st, s, w).
     (case gather_devices w (sy_types se) of
        Inl e \<Rightarrow> (Inl e, file, st, s, w)
      | Inr devices \<Rightarrow> (case sy_mkdirs se of
          Inl e \<Rightarrow> (Inl e, file, st, s, w)
        | Inr _ \<Rightarrow> (case (case known_devices se file of
              Inl e \<Rightarrow> Inl e | Inr known \<Rightarrow> merge_sections se devices known) of
            Inl e \<Rightarrow> (Inl e, file, st, s, w)
          | Inr known \<Rightarrow> (case sy_writable se of
              Inl e \<Rightarrow> (Inl e, file, st, s, w)
            | Inr _ \<Rightarrow> (case ds_getitem s ''timestamp'' of
                Inl e \<Rightarrow> (Inl e, Some (sy_dumps se known), st, s, w)
              | Inr timestamp \<Rightarrow> (case report_devices se timestamp known (Some (sy_dumps se known), w) of
                  (Inl e, file', w') \<Rightarrow> (Inl e, file', st, s, w')
                | (Inr fresh, file', w') \<Rightarrow> (case stamp_time se timestamp fresh (st, s) of
                    (Inl e, st', s') \<Rightarrow> (Inl e, file', st', s', w')
                  | (Inr _, st', s') \<Rightarrow> (case base_collect sysinfo_helper w' of
                      (r, w'') \<Rightarrow> (r, file', st', s', w''))))))))))"

text \<open>A report is never submitted.\<close>

definition sysinfo_submit :: "string \<Rightarrow> hresult result" where
  "sysinfo_submit fname = Inr PERMANENT_ERROR"

text \<open>The D-Bus interface of a type.\<close>

definition get_json :: "(json \<Rightarrow> string) \<Rightarrow> sys_type \<Rightarrow> string result" where
  "get_json dumps ty = (case ty_list ty of Inl e \<Rightarrow> Inl e | Inr v \<Rightarrow> Inr (dumps v))"

section \<open>Which section a type's devices go to\<close>

lemma enabled_types_all:
  "list_all (\<lambda>(n, ty). type_enabled w ty = Inr True) types \<Longrightarrow> enabled_types w types = Inr types"
  by (induction types) auto

lemma list_devices_all:
  "list_all (\<lambda>(n, ty). ty_list ty = Inr (dev n)) types \<Longrightarrow> list_devices types = Inr (map (\<lambda>p. dev (fst p)) types)"
  by (induction types) (auto simp: list_device_def)

lemma filter_zip_all:
  "\<forall>v \<in> set vs. v \<noteq> JNull \<Longrightarrow> filter (\<lambda>(name, v). v \<noteq> JNull) (zip names vs) = zip names vs"
  by (auto simp: filter_id_conv dest: set_zip_rightD)

lemma set_sorted_types [simp]: "set (sorted_types types) = set types"
  by (simp add: sorted_types_def)

text \<open>What a type contributes: nothing when it fails.\<close>

definition shown :: "sys_type \<Rightarrow> json" where
  "shown ty = (case ty_list ty of Inl e \<Rightarrow> JNull | Inr v \<Rightarrow> v)"

lemma list_devices_shown:
  "list_all (\<lambda>(n, ty). ty_list ty \<noteq> Inl CancelledError) ts \<Longrightarrow> list_devices ts = Inr (map (\<lambda>p. shown (snd p)) ts)"
  by (induction ts) (auto simp: list_device_def shown_def is_Exception_def split: sum.splits)

lemma get_shown:
  "distinct (map fst ts) \<Longrightarrow> (name, ty) \<in> set ts \<Longrightarrow>
   dict_get (filter (\<lambda>(name, v). v \<noteq> JNull) (zip (map fst ts) (map (\<lambda>p. shown (snd p)) ts))) name
     = (if shown ty = JNull then None else Some (shown ty))"
proof (induction ts)
  case (Cons p ts)
  have "dict_get (filter (\<lambda>(name, v). v \<noteq> JNull) (zip (map fst ts) (map (\<lambda>p. shown (snd p)) ts))) name = None"
    if "name \<notin> set (map fst ts)"
    using that by (auto simp: dict_get_def map_of_eq_None_iff dest!: set_zip_leftD)
  with Cons show ?case
    by (cases p) (auto simp: image_iff)
qed simp

text \<open>With every type enabled, each section holds what its own type lists, and a type that lists nothing or fails has no section.\<close>

theorem enabled_types_fill_their_sections:
  assumes "\<forall>(name, ty) \<in> set types. type_enabled w ty = Inr True \<and> ty_list ty \<noteq> Inl CancelledError"
    and "distinct (map fst types)" and "(name, ty) \<in> set types"
  shows "\<exists>devices. gather_devices w types = Inr devices
    \<and> dict_get devices name = (case ty_list ty of Inl e \<Rightarrow> None | Inr v \<Rightarrow> if v = JNull then None else Some v)"
proof -
  have "enabled_types w (sorted_types types) = Inr (sorted_types types)"
    using assms(1) by (intro enabled_types_all) (auto simp: list_all_iff)
  moreover have "list_devices (sorted_types types) = Inr (map (\<lambda>p. shown (snd p)) (sorted_types types))"
    using assms(1) by (intro list_devices_shown) (auto simp: list_all_iff)
  moreover have "distinct (map fst (sorted_types types))"
    using assms(2) by (simp add: sorted_types_def distinct_map)
  ultimately show ?thesis
    using get_shown [of "sorted_types types" name ty] assms(3)
    by (auto simp: gather_devices_def shown_def split: sum.splits)
qed

text \<open>C32. But when the first type is disabled and the others are not, the devices of every type are filed under the name of the type before it, with that type's version, and the last section stays empty.\<close>

theorem disabled_type_shifts_sections:
  assumes "sorted_types types = (name, ty) # rest" and "type_enabled w ty = Inr False"
    and "list_all (\<lambda>(n, t). type_enabled w t = Inr True \<and> ty_list t = Inr (dev n) \<and> dev n \<noteq> JNull) rest"
  shows "gather_devices w types = Inr (zip (name # map fst rest) (map (\<lambda>p. dev (fst p)) rest))"
proof -
  have "enabled_types w rest = Inr rest"
    using assms(3) by (intro enabled_types_all) (auto simp: list_all_iff)
  then have "enabled_types w (sorted_types types) = Inr rest"
    using assms(2) by (simp add: assms(1))
  moreover have "list_devices rest = Inr (map (\<lambda>p. dev (fst p)) rest)"
    using assms(3) by (intro list_devices_all) (auto simp: list_all_iff)
  moreover have "\<forall>v \<in> set (map (\<lambda>p. dev (fst p)) rest). v \<noteq> JNull"
    using assms(3) by (force simp: list_all_iff)
  ultimately show ?thesis
    by (simp add: gather_devices_def assms(1) filter_zip_all del: set_map)
qed

section \<open>Removing duplicates\<close>

text \<open>The entries in the order in which they first appear.\<close>

definition first_occurrences :: "'a list \<Rightarrow> 'a list" where
  "first_occurrences xs = rev (remdups (rev xs))"

lemma set_first_occurrences [simp]: "set (first_occurrences xs) = set xs"
  by (simp add: first_occurrences_def)

lemma distinct_first_occurrences [simp]: "distinct (first_occurrences xs)"
  by (simp add: first_occurrences_def)

lemma first_occurrences_snoc:
  "first_occurrences (xs @ [x]) = (if x \<in> set xs then first_occurrences xs else first_occurrences xs @ [x])"
  by (simp add: first_occurrences_def)

lemma first_occurrences_known: "distinct xs \<Longrightarrow> set ys \<subseteq> set xs \<Longrightarrow> first_occurrences (xs @ ys) = xs"
proof (induction ys rule: rev_induct)
  case Nil
  then show ?case by (simp add: first_occurrences_def distinct_remdups_id)
next
  case (snoc y ys)
  then show ?case using first_occurrences_snoc [of "xs @ ys" y] by auto
qed

lemma first_occurrences_map: "inj f \<Longrightarrow> first_occurrences (map f xs) = map f (first_occurrences xs)"
proof (induction xs rule: rev_induct)
  case (snoc x xs)
  then show ?case by (simp add: first_occurrences_snoc inj_image_mem_iff)
qed (simp add: first_occurrences_def)

lemma fold_put_key: "fold put_key xs [] = first_occurrences xs"
proof (induction xs rule: rev_induct)
  case (snoc x xs)
  then show ?case by (simp add: first_occurrences_snoc put_key_def)
qed (simp add: first_occurrences_def)

text \<open>The text of a value determines it.\<close>

definition json_text :: "sysinfo_env \<Rightarrow> bool" where
  "json_text se = (\<forall>v. sy_loads se (sy_dumps se v) = Inr v)"

lemma loads_dumps: "json_text se \<Longrightarrow> sy_loads se (sy_dumps se v) = Inr v"
  by (simp add: json_text_def)

lemma inj_dumps: "json_text se \<Longrightarrow> inj (sy_dumps se)"
  by (metis injI loads_dumps sum.inject(2))

lemma loads_all_dumps: "json_text se \<Longrightarrow> loads_all (sy_loads se) (map (sy_dumps se) vs) = Inr vs"
  by (induction vs) (simp_all add: loads_dumps)

text \<open>The devices already known under a section.\<close>

definition known_list :: "(string, json) dict \<Rightarrow> string \<Rightarrow> json list option" where
  "known_list d section = (case dict_get d section of None \<Rightarrow> Some [] | Some (JList vs) \<Rightarrow> Some vs | Some _ \<Rightarrow> None)"

lemma merge_section_eq:
  assumes "json_text se" and "known_list d section = Some old" and "dict_get (sy_types se) section = Some ty"
  shows "merge_section se section v (JObj d)
    = Inr (JObj (dict_set d section (JList (first_occurrences (old @ reported (ty_version ty) v)))))"
proof -
  have "(case dict_get d section of None \<Rightarrow> Inr [] | Some old \<Rightarrow> iterated old) = Inr old"
    using assms(2) by (auto simp: known_list_def iterated_def split: option.splits json.splits)
  then show ?thesis
    using assms(1,3) by (simp add: merge_section_def device_keys_def fold_put_key first_occurrences_map
        inj_dumps loads_all_dumps del: map_append)
qed

text \<open>A section that holds every device reported for it, once.\<close>

definition holds_all :: "sysinfo_env \<Rightarrow> (string, json) dict \<Rightarrow> string \<times> json \<Rightarrow> bool" where
  "holds_all se d p = (case dict_get (sy_types se) (fst p) of
       None \<Rightarrow> False
     | Some ty \<Rightarrow> (case known_list d (fst p) of
         None \<Rightarrow> False
       | Some vs \<Rightarrow> dict_has d (fst p) \<and> distinct vs \<and> set (reported (ty_version ty) (snd p)) \<subseteq> set vs))"

lemma merge_section_held:
  assumes "json_text se" and "holds_all se d (section, v)"
  shows "merge_section se section v (JObj d) = Inr (JObj d)"
proof -
  obtain ty vs where ty: "dict_get (sy_types se) section = Some ty" "known_list d section = Some vs"
    "dict_has d section" "distinct vs" "set (reported (ty_version ty) v) \<subseteq> set vs"
    using assms(2) by (auto simp: holds_all_def split: option.splits)
  then have "dict_get d section = Some (JList vs)"
    by (auto simp: known_list_def dict_has_def split: option.splits json.splits)
  then show ?thesis
    by (simp add: merge_section_eq [OF assms(1) ty(2,1)] first_occurrences_known ty dict_set_same)
qed

lemma merge_section_holds:
  assumes "json_text se" and "merge_section se section v known = Inr k"
  shows "\<exists>d d'. known = JObj d \<and> k = JObj d' \<and> holds_all se d' (section, v)
    \<and> (\<forall>s. s \<noteq> section \<longrightarrow> dict_get d' s = dict_get d s)"
proof -
  obtain d where d: "known = JObj d"
    using assms(2) by (cases known) (auto simp: merge_section_def)
  obtain old ty where o: "(case dict_get d section of None \<Rightarrow> Inr [] | Some old \<Rightarrow> iterated old) = Inr old"
      "dict_get (sy_types se) section = Some ty"
    using assms(2) by (auto simp: merge_section_def d split: sum.splits option.splits)
  then have "k = JObj (dict_set d section (JList (first_occurrences (old @ reported (ty_version ty) v))))"
    using assms by (simp add: merge_section_def d device_keys_def fold_put_key first_occurrences_map
        inj_dumps loads_all_dumps del: map_append)
  then show ?thesis
    using d o by (auto simp: holds_all_def known_list_def)
qed

lemma holds_all_other:
  "dict_get d' (fst p) = dict_get d (fst p) \<Longrightarrow> holds_all se d' p = holds_all se d p"
  by (simp add: holds_all_def known_list_def dict_has_def cong: option.case_cong)

lemma merge_sections_holds:
  assumes "json_text se" and "distinct (map fst devices)" and "merge_sections se devices (JObj d) = Inr k"
  shows "\<exists>d'. k = JObj d' \<and> (\<forall>p \<in> set devices. holds_all se d' p)
    \<and> (\<forall>s. s \<notin> fst ` set devices \<longrightarrow> dict_get d' s = dict_get d s)"
  using assms(2,3)
proof (induction devices arbitrary: d)
  case (Cons p devices)
  obtain sec v where p: "p = (sec, v)" by (cases p)
  obtain d1 where d1: "merge_section se sec v (JObj d) = Inr (JObj d1)" "holds_all se d1 p"
      "\<And>s. s \<noteq> sec \<Longrightarrow> dict_get d1 s = dict_get d s" "merge_sections se devices (JObj d1) = Inr k"
    using Cons.prems(2) merge_section_holds [OF assms(1), of sec v "JObj d"] by (auto simp: p split: sum.splits)
  with Cons.IH [of d1] Cons.prems(1) obtain d' where d': "k = JObj d'" "\<forall>p \<in> set devices. holds_all se d' p"
      "\<forall>s. s \<notin> fst ` set devices \<longrightarrow> dict_get d' s = dict_get d1 s"
    by auto
  moreover have "holds_all se d' p"
    using Cons.prems(1) d' d1(2) by (subst holds_all_other [of d' p d1]) (auto simp: p)
  ultimately show ?case
    using d1(3) by (auto simp: p)
qed auto

lemma merge_sections_held:
  "json_text se \<Longrightarrow> \<forall>p \<in> set devices. holds_all se d p \<Longrightarrow> merge_sections se devices (JObj d) = Inr (JObj d)"
  by (induction devices) (auto simp: merge_section_held)

lemma merge_again:
  assumes "json_text se" and "distinct (map fst devices)" and "merge_sections se devices known = Inr k"
  shows "merge_sections se devices k = Inr k"
proof (cases devices)
  case Nil
  then show ?thesis by simp
next
  case (Cons p ps)
  then obtain d where "known = JObj d"
    using assms(3) by (cases p; cases known) (auto simp: merge_section_def)
  then show ?thesis
    using merge_sections_holds [OF assms(1,2), of d k] merge_sections_held [OF assms(1)] assms(3) by auto
qed

lemma merge_sections_time [simp]: "merge_sections (se\<lparr>sy_now := t\<rparr>) devices known = merge_sections se devices known"
  by (induction devices arbitrary: known) (auto simp: merge_section_def split: json.splits option.splits sum.splits)

lemma gather_devices_distinct:
  assumes "gather_devices w types = Inr devices" and "distinct (map fst types)"
  shows "distinct (map fst devices)"
proof -
  obtain rs where d: "devices = filter (\<lambda>(name, v). v \<noteq> JNull) (zip (map fst (sorted_types types)) rs)"
    using assms(1) by (auto simp: gather_devices_def split: sum.splits)
  have "distinct (map fst (sorted_types types))"
    using assms(2) by (simp add: sorted_types_def distinct_map)
  then have "distinct (map fst (zip (map fst (sorted_types types)) rs))"
    by (simp add: map_fst_zip_take)
  then show ?thesis
    unfolding d by (rule distinct_map_filter)
qed

text \<open>What a collection that got as far as writing the pending file did before.\<close>

lemma report_devices_file:
  "report_devices se timestamp known (file, w) = (r, file', w') \<Longrightarrow> file' = file \<or> file' = None"
  by (auto simp: report_devices_def split: option.splits sum.splits if_splits prod.splits)

lemma sysinfo_collect_pending:
  assumes "sysinfo_collect se (file, st, s, w) = (r, Some text, st', s', w')" and "r = Inr logs"
  shows "\<exists>devices known k. gather_devices w (sy_types se) = Inr devices \<and> known_devices se file = Inr known
    \<and> merge_sections se devices known = Inr k \<and> text = sy_dumps se k"
  using assms by (auto simp: sysinfo_collect_def split: sum.splits prod.splits dest!: report_devices_file)

text \<open>Collecting the same devices again adds nothing: the pending file keeps its text, entry for entry, until the interval is over and it becomes a report.\<close>

theorem recollecting_changes_nothing:
  assumes "json_text se" and "sy_readable se = Inr ()" and "distinct (map fst (sy_types se))"
    and "sysinfo_collect se (file, st, s, w) = (Inr logs, Some text, st', s', w')"
    and "gather_devices w' (sy_types se) = gather_devices w (sy_types se)"
    and "sysinfo_collect (se\<lparr>sy_now := tm\<rparr>) (Some text, st', s', w') = (r, file', st'', s'', w'')"
  shows "file' = Some text \<or> file' = None"
proof -
  obtain devices known k where d: "gather_devices w (sy_types se) = Inr devices"
      "merge_sections se devices known = Inr k" "text = sy_dumps se k"
    using sysinfo_collect_pending [OF assms(4) refl] by auto
  have "merge_sections se devices k = Inr k"
    using merge_again [OF assms(1) gather_devices_distinct [OF d(1) assms(3)] d(2)] .
  moreover have "known_devices (se\<lparr>sy_now := tm\<rparr>) (Some text) = Inr k"
    using assms(1,2) by (simp add: known_devices_def d(3) loads_dumps)
  ultimately show ?thesis
    using assms(5,6) by (auto simp: sysinfo_collect_def d(1,3) split: sum.splits prod.splits dest!: report_devices_file)
qed

lemma base_collect_pend: "base_collect h w = (r, w') \<Longrightarrow> pend w' = pend w"
  by (auto simp: base_collect_def Let_def split: sum.splits prod.splits option.splits if_splits)

lemma write_report_ok:
  "write_report se known w = (Inr u, w') \<Longrightarrow>
   map_option lf_text (dict_get (the (pend_dir w' ''sysinfo'')) (report_name (sy_now se))) = Some (sy_dumps se known)"
  by (auto simp: write_report_def pend_dir_def set_pend_def split: option.splits sum.splits)

lemma ds_write_getitem: "ds_write st x = (r, s', st') \<Longrightarrow> ds_getitem s' k = ds_getitem x k"
  by (auto simp: ds_write_def ds_getitem_def split: if_splits cong: option.case_cong)

lemma stamp_time_fresh:
  "stamp_time se timestamp True (st, s) = (r, st', s') \<Longrightarrow> ds_getitem s' ''timestamp'' = Inr (JFloat (sy_now se))"
  by (auto simp: stamp_time_def ds_write_getitem split: prod.splits sum.splits if_splits dest!: ds_write_getitem [of _ _ _ _ _ "''timestamp''"])

text \<open>Once the interval is over a collection turns everything it knows into one log, without the types that are disabled, removes the pending file and notes the time; before that it leaves the time alone and the devices pending.\<close>

theorem report_when_due:
  assumes "sysinfo_collect se (file, st, s, w) = (Inr logs, file', st', s', w')"
    and "ds_getitem s ''timestamp'' = Inr (JFloat t)" and "t \<noteq> 0" and "report_interval se w = Inr n"
  shows "\<exists>devices known k. gather_devices w (sy_types se) = Inr devices \<and> known_devices se file = Inr known
    \<and> merge_sections se devices known = Inr k
    \<and> (if sy_now se - t < n
       then file' = Some (sy_dumps se k) \<and> s' = s \<and> pend w' = pend w
       else file' = None \<and> ds_getitem s' ''timestamp'' = Inr (JFloat (sy_now se))
         \<and> (\<exists>k'. drop_disabled w (sy_types se) k = Inr k'
             \<and> map_option lf_text (dict_get (the (pend_dir w' ''sysinfo'')) (report_name (sy_now se))) = Some (sy_dumps se k')))"
proof -
  obtain devices known k fresh w1 where
    d: "gather_devices w (sy_types se) = Inr devices" "known_devices se file = Inr known"
      "merge_sections se devices known = Inr k"
    and r: "report_devices se (JFloat t) k (Some (sy_dumps se k), w) = (Inr fresh, file', w1)"
    and st: "stamp_time se (JFloat t) fresh (st, s) = (Inr (), st', s')"
    and b: "base_collect sysinfo_helper w1 = (Inr logs, w')"
    using assms(1,2) by (auto simp: sysinfo_collect_def split: sum.splits prod.splits)
  have p: "pend w' = pend w1" using base_collect_pend [OF b] .
  show ?thesis
  proof (cases "sy_now se - t < n")
    case True
    then have "fresh = False \<and> file' = Some (sy_dumps se k) \<and> w1 = w"
      using r assms(4) by (simp add: report_devices_def as_number_def)
    with True d p st assms(3) show ?thesis
      by (auto simp: stamp_time_def as_number_def)
  next
    case False
    then obtain k' u where k': "fresh" "file' = None" "drop_disabled w (sy_types se) k = Inr k'" "write_report se k' w = (Inr u, w1)"
      using r assms(4) by (auto simp: report_devices_def as_number_def split: sum.splits prod.splits)
    with False d p st stamp_time_fresh [of se "JFloat t" st s] write_report_ok [OF k'(4)] show ?thesis
      by (auto simp: pend_dir_def)
  qed
qed

section \<open>Witnesses\<close>

definition usb_sample :: sys_type where
  "usb_sample = \<lparr>ty_name = ''Usb'', ty_version = 1, ty_list = Inr (JList [JObj [(''vid'', JStr ''28de'')]])\<rparr>"

definition network_sample :: sys_type where
  "network_sample = \<lparr>ty_name = ''Network'', ty_version = 1, ty_list = Inr (JList [])\<rparr>"

definition two_types :: "(string, sys_type) dict" where
  "two_types = [(''usb'', usb_sample), (''network'', network_sample)]"

text \<open>A configuration that is empty, or disables the network type.\<close>

definition sysinfo_world :: "bool \<Rightarrow> world" where
  "sysinfo_world off = sample_world\<lparr>pend := [(''sysinfo'', [])], conf := start_cfg\<lparr>main_cfg :=
     (if off then \<lparr>sections = [(''helpers.sysinfo'', [(''network.enabled'', ''off'')])], dflts = []\<rparr> else empty_parser)\<rparr>\<rparr>"

lemma two_types_enabled:
  "type_enabled (sysinfo_world False) usb_sample = Inr True" "type_enabled (sysinfo_world False) network_sample = Inr True"
  "type_enabled (sysinfo_world True) usb_sample = Inr True" "type_enabled (sysinfo_world True) network_sample = Inr False"
  by code_simp+

lemma two_types_sorted: "sorted_types two_types = [(''network'', network_sample), (''usb'', usb_sample)]"
  unfolding two_types_def sorted_types_def usb_sample_def network_sample_def by code_simp

theorem enabled_types_fill_their_sections_witness:
  "\<exists>devices. gather_devices (sysinfo_world False) two_types = Inr devices
    \<and> dict_get devices ''usb'' = Some (JList [JObj [(''vid'', JStr ''28de'')]])"
proof -
  have "\<forall>(name, ty) \<in> set two_types. type_enabled (sysinfo_world False) ty = Inr True \<and> ty_list ty \<noteq> Inl CancelledError"
    by (simp add: two_types_def two_types_enabled) (simp add: usb_sample_def network_sample_def)
  then show ?thesis
    using enabled_types_fill_their_sections [of two_types "sysinfo_world False" "''usb''" usb_sample]
    by (simp add: two_types_def) (simp add: usb_sample_def)
qed

theorem disabled_type_shifts_sections_witness:
  "gather_devices (sysinfo_world True) two_types = Inr [(''network'', JList [JObj [(''vid'', JStr ''28de'')]])]"
  using disabled_type_shifts_sections [OF two_types_sorted, of "sysinfo_world True" "\<lambda>n. JList [JObj [(''vid'', JStr ''28de'')]]"]
  by (simp add: two_types_enabled) (simp add: usb_sample_def)

definition sample_se :: sysinfo_env where
  "sample_se = \<lparr>sy_types = [(''usb'', usb_sample)], sy_dumps = tally_dumps, sy_loads = tally_loads, sy_float = (\<lambda>_. None),
     sy_now = 2000000000, sy_mkdirs = Inr (), sy_readable = Inr (), sy_writable = Inr (), sy_unlink = Inr (), sy_report = Inr ()\<rparr>"

definition sysinfo_data :: data_state where
  "sysinfo_data = \<lparr>data_root = ''/var'', data_files = [], data_denied = [], root_ok = True, datastore = []\<rparr>"

definition sysinfo_store :: "json \<Rightarrow> store" where
  "sysinfo_store t = \<lparr>ds_name = ''helpers.sysinfo'', ds_defaults = [(''timestamp'', JNull)], ds_data = [(''timestamp'', t)], ds_dirty = False\<rparr>"

lemma sample_json_text: "json_text sample_se"
  by (simp add: json_text_def sample_se_def)

lemma sample_gather:
  "gather_devices (sysinfo_world False) [(''usb'', usb_sample)] = Inr [(''usb'', JList [JObj [(''vid'', JStr ''28de'')]])]"
  by (simp add: gather_devices_def sample_se_def sorted_types_def two_types_enabled) (simp add: usb_sample_def list_device_def sorted_types_def)

lemma sample_fields:
  "sy_mkdirs sample_se = Inr ()" "sy_readable sample_se = Inr ()" "sy_writable sample_se = Inr ()"
  "sy_unlink sample_se = Inr ()" "sy_report sample_se = Inr ()" "sy_now sample_se = 2000000000"
  "sy_dumps sample_se = tally_dumps" "sy_types sample_se = [(''usb'', usb_sample)]"
  by (simp_all add: sample_se_def)

lemma sample_merge:
  "merge_sections sample_se [(''usb'', JList [JObj [(''vid'', JStr ''28de'')]])] (JObj [])
    = Inr (JObj [(''usb'', JList [JObj [(''_version'', JInt 1), (''vid'', JStr ''28de'')]])])"
proof -
  have "sort_key fst [(''vid'', JStr ''28de''), (''_version'', JInt 1)] = [(''_version'', JInt 1), (''vid'', JStr ''28de'')]"
    by code_simp
  then show ?thesis
    using merge_section_eq [OF sample_json_text, of "[]" "''usb''" "[]" usb_sample "JList [JObj [(''vid'', JStr ''28de'')]]"]
    by (simp add: known_list_def sample_se_def) (simp add: usb_sample_def reported_def stamped_def first_occurrences_def)
qed

lemma sample_base: "base_collect sysinfo_helper (sysinfo_world False) = (Inr [], sysinfo_world False)"
  by code_simp

text \<open>A first collection, with an empty store.\<close>

lemma sample_first:
  "\<exists>st s. sysinfo_collect sample_se (None, sysinfo_data, sysinfo_store JNull, sysinfo_world False)
    = (Inr [], Some (tally_dumps (JObj [(''usb'', JList [JObj [(''_version'', JInt 1), (''vid'', JStr ''28de'')]])])), st, s, sysinfo_world False)"
  by (simp add: sysinfo_collect_def sample_gather known_devices_def report_devices_def as_number_def sysinfo_store_def
      ds_getitem_def stamp_time_def ds_write_def sample_base ds_setitem_def sysinfo_data_def sample_fields sample_merge
      del: merge_sections.simps)

theorem recollecting_changes_nothing_witness:
  "\<exists>text st s r file' st' s' w'. sysinfo_collect sample_se (None, sysinfo_data, sysinfo_store JNull, sysinfo_world False)
      = (Inr [], Some text, st, s, sysinfo_world False)
    \<and> sysinfo_collect (sample_se\<lparr>sy_now := 3000000000\<rparr>) (Some text, st, s, sysinfo_world False) = (r, file', st', s', w')
    \<and> (file' = Some text \<or> file' = None)"
proof -
  obtain pt st s where f: "sysinfo_collect sample_se (None, sysinfo_data, sysinfo_store JNull, sysinfo_world False)
      = (Inr [], Some pt, st, s, sysinfo_world False)"
    using sample_first by blast
  obtain r file' st' s' w' where g: "sysinfo_collect (sample_se\<lparr>sy_now := 3000000000\<rparr>) (Some pt, st, s, sysinfo_world False)
      = (r, file', st', s', w')"
    by (metis prod.collapse)
  have "file' = Some pt \<or> file' = None"
    by (rule recollecting_changes_nothing [OF sample_json_text _ _ f refl g]) (simp_all add: sample_se_def)
  with f g show ?thesis by blast
qed

text \<open>A report that is due, on a configured interval.\<close>

definition due_env :: sysinfo_env where
  "due_env = \<lparr>sy_types = [(''usb'', usb_sample)], sy_dumps = (\<lambda>_. ''{}''), sy_loads = (\<lambda>_. Inr (JObj [])), sy_float = (\<lambda>_. Some 1),
     sy_now = 3, sy_mkdirs = Inr (), sy_readable = Inr (), sy_writable = Inr (), sy_unlink = Inr (), sy_report = Inr ()\<rparr>"

definition due_world :: world where
  "due_world = (sysinfo_world False)\<lparr>conf := run_cfg\<lparr>main_cfg :=
     \<lparr>sections = [(''helpers.sysinfo'', [(''interval'', ''1'')])], dflts = []\<rparr>\<rparr>\<rparr>"

definition due_run :: "string list result \<times> world sysinfo_state" where
  "due_run = sysinfo_collect due_env (None, sysinfo_data, sysinfo_store (JFloat 1), due_world)"

lemma due_run_logs: "fst due_run = Inr [''0.json'']"
  by code_simp

lemma due_interval: "report_interval due_env due_world = Inr 1"
  by code_simp

theorem report_when_due_witness:
  "case due_run of (r, file', st', s', w') \<Rightarrow> file' = None \<and> ds_getitem s' ''timestamp'' = Inr (JFloat 3)"
proof -
  obtain file' st' s' w' where r: "sysinfo_collect due_env (None, sysinfo_data, sysinfo_store (JFloat 1), due_world)
      = (Inr [''0.json''], file', st', s', w')"
    using due_run_logs unfolding due_run_def by (metis prod.collapse)
  have t: "ds_getitem (sysinfo_store (JFloat 1)) ''timestamp'' = Inr (JFloat 1)"
    by (simp add: ds_getitem_def sysinfo_store_def)
  have "sy_now due_env = 3"
    by (simp add: due_env_def)
  then show ?thesis
    using report_when_due [OF r t _ due_interval] by (auto simp: due_run_def r)
qed

end
