(* ===== verification/Edid.thy ===== *)
theory Edid imports Unit_Names "HOL-Library.Word" begin

unbundle bit_operations_syntax

text \<open>
  The parser of a monitor's EDID block (\<^verbatim>\<open>MonitorsType.parse_edid\<close> of
  \<^verbatim>\<open>helpers/sysinfo.py\<close>). Bytes are 8 bit words; the fields \<^verbatim>\<open>struct.unpack\<close> takes from them
  are Python integers. The upper half of code page 437 is a parameter, its lower half is ASCII.
\<close>

section \<open>Reading the block\<close>

type_synonym bytes = "8 word list"

text \<open>A little-endian field of n bytes at an offset.\<close>

fun le_uint :: "bytes \<Rightarrow> int" where
  "le_uint [] = 0"
| "le_uint (b # bs) = uint b + 256 * le_uint bs"

definition unpack_field :: "bytes \<Rightarrow> nat \<Rightarrow> nat \<Rightarrow> int" where
  "unpack_field edid off n = le_uint (take n (drop off edid))"

text \<open>The \<^verbatim>\<open>q\<close> at the start is signed.\<close>

definition edid_magic :: "bytes \<Rightarrow> int" where
  "edid_magic edid = signed_take_bit 63 (unpack_field edid 0 8)"

text \<open>\<^verbatim>\<open>{:04x}\<close>: hexadecimal digits, padded with zeros on the left.\<close>

fun hex_show :: "nat \<Rightarrow> string" where
  "hex_show n = (if n < 16 then [] else hex_show (n div 16)) @ [hex_digit (n mod 16)]"

declare hex_show.simps [simp del]

definition hex_pad :: "nat \<Rightarrow> int \<Rightarrow> string" where
  "hex_pad w n = replicate (w - length (hex_show (nat n))) (CHR ''0'') @ hex_show (nat n)"

text \<open>The bytes of the maker's code are swapped; the letters are three groups of five bits. The
  swap leaves bits above the sixteenth, which the masks drop.\<close>

definition swap_pnp :: "int \<Rightarrow> int" where
  "swap_pnp pnp = drop_bit 8 pnp OR push_bit 8 pnp"

definition pnp_letter :: "int \<Rightarrow> nat \<Rightarrow> char" where
  "pnp_letter pnp sh = char_of (nat ((drop_bit sh pnp AND 0x1F) + 0x40))"

definition pnp_text :: "int \<Rightarrow> string" where
  "pnp_text pnp = [pnp_letter pnp 10, pnp_letter pnp 5, pnp_letter pnp 0]"

definition checksum_ok :: "bytes \<Rightarrow> bool" where
  "checksum_ok edid = (sum_list (map uint (take 128 edid)) AND 0xFF = 0)"

section \<open>Descriptors\<close>

definition cp437 :: "(8 word \<Rightarrow> char) \<Rightarrow> 8 word \<Rightarrow> char" where
  "cp437 upper b = (if b < 0x80 then char_of (unat b) else upper b)"

definition descriptor_kind :: "8 word \<Rightarrow> string option" where
  "descriptor_kind t = (if t = 0xFC then Some ''name'' else if t = 0xFE then Some ''text''
     else if t = 0xFF then Some ''serial'' else None)"

definition parse_display_descriptor :: "(8 word \<Rightarrow> char) \<Rightarrow> bytes \<Rightarrow> (string \<times> json) list" where
  "parse_display_descriptor upper desc = (case descriptor_kind (desc ! 1) of
       None \<Rightarrow> [(''type'', JStr ''unknown'')]
     | Some kind \<Rightarrow> [(''value'', JStr (hd (split_on (CHR 0x0A) (map (cp437 upper) (drop 3 desc))))), (''type'', JStr kind)])"

text \<open>The descriptors begin with a word that is zero when they are no detailed timing; the four of
  them are at 54, 72, 90 and 108.\<close>

definition descriptor_entry :: "(8 word \<Rightarrow> char) \<Rightarrow> bytes \<Rightarrow> string \<Rightarrow> nat \<Rightarrow> (string \<times> json) list" where
  "descriptor_entry upper edid key off = (if unpack_field edid off 2 = 0
     then [(key, JObj (parse_display_descriptor upper (take 16 (drop (off + 2) edid))))] else [])"

definition parse_edid :: "(8 word \<Rightarrow> char) \<Rightarrow> bytes \<Rightarrow> (string \<times> json) list option" where
  "parse_edid upper edid = (if length edid < 128 then None
     else if edid_magic edid \<noteq> 0xFFFFFFFFFFFF00 then None
     else Some (
       [(''pnp'', JStr (pnp_text (swap_pnp (unpack_field edid 8 2)))),
        (''pid'', JStr (hex_pad 4 (unpack_field edid 10 2))),
        (''serial'', JStr (hex_pad 8 (unpack_field edid 12 4))),
        (''version'', JStr (show_nat (nat (unpack_field edid 18 1)) @ ''.'' @ show_nat (nat (unpack_field edid 19 1)))),
        (''checksum'', JBool (checksum_ok edid))]
       @ descriptor_entry upper edid ''desc0'' 54 @ descriptor_entry upper edid ''desc1'' 72
       @ descriptor_entry upper edid ''desc2'' 90 @ descriptor_entry upper edid ''desc3'' 108))"

section \<open>Lemmas and properties\<close>

lemma sum_list_upd:
  fixes xs :: "int list"
  shows "i < length xs \<Longrightarrow> sum_list (xs[i := v]) = sum_list xs - xs ! i + v"
  by (induction xs arbitrary: i) (auto split: nat.split)

lemma and_255: "(x :: int) AND 255 = x mod 256"
  using take_bit_eq_mask [of 8 x] by (simp add: mask_eq_exp_minus_1 take_bit_eq_mod)

lemma and_31: "(x :: int) AND 31 = x mod 32"
  using take_bit_eq_mask [of 5 x] by (simp add: mask_eq_exp_minus_1 take_bit_eq_mod)

lemma checksum_ok_mod: "checksum_ok edid \<longleftrightarrow> sum_list (map uint (take 128 edid)) mod 256 = 0"
  by (simp add: checksum_ok_def and_255)

lemma or_push_bit_8:
  assumes "0 \<le> y" and "y < (256 :: int)"
  shows "y OR push_bit 8 x = y + 256 * x"
proof -
  have y: "take_bit 8 y = y"
    using assms by (simp add: take_bit_eq_mod)
  have "y AND push_bit 8 x = 0"
    by (rule bit_eqI) (subst y [symmetric], simp add: bit_and_iff bit_push_bit_iff bit_take_bit_iff)
  then show ?thesis
    by (simp add: disjunctive_add_eq_or [symmetric] push_bit_eq_mult)
qed

lemma pnp_letter_int: "pnp_letter (int n) sh = char_of (n div 2 ^ sh mod 32 + 64)"
proof -
  have "int n div 2 ^ sh mod 32 = int (n div 2 ^ sh mod 32)"
    by (simp add: zdiv_int zmod_int)
  then show ?thesis
    by (simp only: pnp_letter_def and_31 drop_bit_eq_div) (simp add: nat_add_distrib)
qed

text \<open>The letters of a maker's code, as VESA packs them into two bytes.\<close>

definition maker_bytes :: "nat \<Rightarrow> nat \<Rightarrow> nat \<Rightarrow> int \<times> int" where
  "maker_bytes a b c = (int (4 * a + b div 8), int (32 * (b mod 8) + c))"

lemma pnp_text_maker:
  assumes "maker_bytes a b c = (hi, lo)" and "a < 32" and "b < 32" and "c < 32"
  shows "pnp_text (swap_pnp (hi + 256 * lo)) = [char_of (a + 64), char_of (b + 64), char_of (c + 64)]"
proof -
  define q r where "q = b div 8" and "r = b mod 8"
  then have b: "b = 8 * q + r" and r: "r < 8" by simp_all
  have q: "q < 4" using assms(3) b by simp
  have hi: "hi = int (4 * a + q)" and lo: "lo = int (32 * r + c)"
    using assms(1) by (simp_all add: maker_bytes_def q_def r_def)
  let ?x = "32 * r + c + 256 * (4 * a + q) + 65536 * (32 * r + c)"
  have "(hi + 256 * lo) div 256 = lo"
    using hi q assms(2) by simp
  then have x: "swap_pnp (hi + 256 * lo) = int ?x"
    using hi lo assms(4) r by (simp add: swap_pnp_def drop_bit_eq_div or_push_bit_8 algebra_simps)
  have "?x div 1024 = a + 32 * (2 * (32 * r + c))"
    by (rule div_nat_eqI) (use q r assms(4) in simp_all)
  then have "?x div 1024 mod 32 = a"
    using assms(2) by (simp only: mod_mult_self2 mod_less)
  moreover have "?x div 32 = b + 32 * (a + 64 * (32 * r + c))"
    by (rule div_nat_eqI) (use q r b assms(4) in simp_all)
  then have "?x div 32 mod 32 = b"
    using assms(3) by (simp only: mod_mult_self2 mod_less)
  moreover have "?x = 32 * (r + 8 * (4 * a + q) + 2048 * (32 * r + c)) + c"
    by simp
  then have "?x mod 32 = c"
    using assms(4) by (metis mod_less mod_mult_self4 add.commute)
  ultimately show ?thesis
    using assms(2-4) unfolding pnp_text_def pnp_letter_int x by (simp del: distrib_left_numeral)
qed

lemma byte_differs:
  fixes a b s :: int
  shows "0 \<le> a \<Longrightarrow> a < 256 \<Longrightarrow> 0 \<le> b \<Longrightarrow> b < 256 \<Longrightarrow> a \<noteq> b \<Longrightarrow> s mod 256 = 0 \<Longrightarrow> (s - a + b) mod 256 \<noteq> 0"
proof
  assume "0 \<le> a" "a < 256" "0 \<le> b" "b < 256" "a \<noteq> b" "s mod 256 = 0" "(s - a + b) mod 256 = 0"
  then have "256 dvd (s - a + b) - s"
    by (intro dvd_diff) (simp_all add: mod_0_imp_dvd)
  then have "256 dvd b - a"
    by simp
  then show False
    using dvd_imp_le_int [of "b - a" 256] \<open>a \<noteq> b\<close> \<open>0 \<le> a\<close> \<open>a < 256\<close> \<open>0 \<le> b\<close> \<open>b < 256\<close> by simp
qed

text \<open>A single damaged byte never goes unnoticed: when a block whose checksum holds has one byte changed, it is either refused or reported with a false checksum.\<close>

theorem edid_corruption_is_flagged:
  assumes "parse_edid upper edid = Some info" and "dict_get info ''checksum'' = Some (JBool True)"
    and "i < 128" and "v \<noteq> edid ! i"
  shows "case parse_edid upper (edid[i := v]) of None \<Rightarrow> True
    | Some info' \<Rightarrow> dict_get info' ''checksum'' = Some (JBool False)"
proof -
  have len: "128 \<le> length edid" and ok: "checksum_ok edid"
    using assms(1,2) by (auto simp: parse_edid_def Let_def split: if_splits)
  let ?xs = "map uint (take 128 edid)"
  have "map uint (take 128 (edid[i := v])) = ?xs[i := uint v]"
    by (simp add: take_update_swap map_update)
  moreover have "?xs ! i = uint (edid ! i)"
    using len assms(3) by simp
  ultimately have sum: "sum_list (map uint (take 128 (edid[i := v]))) = sum_list ?xs - uint (edid ! i) + uint v"
    using len assms(3) by (simp add: sum_list_upd)
  have "uint v \<noteq> uint (edid ! i)"
    using assms(4) by (simp add: word_uint_eq_iff)
  then have "\<not> checksum_ok (edid[i := v])"
    using ok uint_lt2p [of v] uint_lt2p [of "edid ! i"] unfolding checksum_ok_mod sum
    by (intro byte_differs) simp_all
  then show ?thesis
    by (simp add: parse_edid_def)
qed

section \<open>The round trip\<close>

fun put_le :: "nat \<Rightarrow> int \<Rightarrow> bytes" where
  "put_le 0 v = []"
| "put_le (Suc n) v = word_of_int v # put_le n (v div 256)"

lemma put_le_numeral: "put_le (numeral n) v = word_of_int v # put_le (pred_numeral n) (v div 256)"
  by (simp add: numeral_eq_Suc)

lemma length_put_le [simp]: "length (put_le n v) = n"
  by (induction n arbitrary: v) simp_all

lemma le_uint_put_le [simp]: "0 \<le> v \<Longrightarrow> v < 256 ^ n \<Longrightarrow> le_uint (put_le n v) = v"
proof (induction n arbitrary: v)
  case (Suc n)
  then have "v div 256 < 256 ^ n"
    by simp
  with Suc show ?case
    by (simp add: uint_word_of_int)
qed simp

definition hex_read :: "string \<Rightarrow> nat" where
  "hex_read s = foldl (\<lambda>n c. 16 * n + (case hex_value c of None \<Rightarrow> 0 | Some d \<Rightarrow> d)) 0 s"

lemma hex_read_show [simp]: "hex_read (hex_show n) = n"
proof (induction n rule: hex_show.induct)
  case (1 n)
  then show ?case
    by (subst hex_show.simps) (simp add: hex_read_def)
qed

lemma hex_read_zeros: "hex_read (replicate k (CHR ''0'') @ s) = hex_read s"
proof (induction k)
  case (Suc k)
  have "hex_value (CHR ''0'') = Some 0" by code_simp
  with Suc show ?case by (simp add: hex_read_def)
qed simp

lemma length_hex_show: "n < 16 ^ Suc k \<Longrightarrow> length (hex_show n) \<le> Suc k"
proof (induction k arbitrary: n)
  case (Suc k)
  then have "n div 16 < 16 ^ Suc k" by simp
  with Suc show ?case by (subst hex_show.simps) simp
qed (subst hex_show.simps, simp)

lemma hex_pad_reads:
  assumes "0 \<le> v" and "v < 16 ^ Suc k"
  shows "length (hex_pad (Suc k) v) = Suc k \<and> int (hex_read (hex_pad (Suc k) v)) = v"
proof -
  have "nat v < 16 ^ Suc k" using assms by (simp add: nat_less_iff)
  then show ?thesis
    using length_hex_show [of "nat v" k] assms(1) by (simp add: hex_pad_def hex_read_zeros)
qed

text \<open>A block as the maker of a monitor writes it: the fixed header, the maker's letters, product,
  serial number, the time it was made, the version, and what follows.\<close>

definition edid_block :: "nat \<times> nat \<times> nat \<Rightarrow> int \<Rightarrow> int \<Rightarrow> bytes \<Rightarrow> 8 word \<Rightarrow> 8 word \<Rightarrow> bytes \<Rightarrow> bytes" where
  "edid_block maker pid ser made major minor rest = (case maker of (a, b, c) \<Rightarrow>
     (case maker_bytes a b c of (hi, lo) \<Rightarrow>
        [0, 0xFF, 0xFF, 0xFF, 0xFF, 0xFF, 0xFF, 0, word_of_int hi, word_of_int lo]
        @ put_le 2 pid @ put_le 4 ser @ made @ [major, minor] @ rest))"

text \<open>C30. What the maker writes into the block is what the report says: the three letters, the product and the serial number in hexadecimal at their full width, and the version.\<close>

theorem edid_identity_roundtrip:
  assumes "a < 32" and "b < 32" and "c < 32" and "0 \<le> pid" and "pid < 0x10000" and "0 \<le> ser" and "ser < 0x100000000"
    and "length made = 2" and "108 \<le> length rest"
  shows "\<exists>info p s. parse_edid upper (edid_block (a, b, c) pid ser made major minor rest) = Some info
    \<and> dict_get info ''pnp'' = Some (JStr [char_of (a + 64), char_of (b + 64), char_of (c + 64)])
    \<and> dict_get info ''pid'' = Some (JStr p) \<and> length p = 4 \<and> int (hex_read p) = pid
    \<and> dict_get info ''serial'' = Some (JStr s) \<and> length s = 8 \<and> int (hex_read s) = ser
    \<and> dict_get info ''version'' = Some (JStr (show_nat (unat major) @ ''.'' @ show_nat (unat minor)))"
proof -
  obtain hi lo where m: "maker_bytes a b c = (hi, lo)" by fastforce
  have bytes: "0 \<le> hi" "hi < 256" "0 \<le> lo" "lo < 256"
    using m assms(1-3) by (auto simp: maker_bytes_def)
  let ?e = "edid_block (a, b, c) pid ser made major minor rest"
  have e: "?e = [0, 0xFF, 0xFF, 0xFF, 0xFF, 0xFF, 0xFF, 0, word_of_int hi, word_of_int lo]
        @ put_le 2 pid @ put_le 4 ser @ made @ [major, minor] @ rest"
    by (simp add: edid_block_def m)
  have f: "unpack_field ?e 8 2 = hi + 256 * lo" "unpack_field ?e 10 2 = pid" "unpack_field ?e 12 4 = ser"
     "unpack_field ?e 18 1 = uint major" "unpack_field ?e 19 1 = uint minor" "128 \<le> length ?e"
     "unpack_field ?e 0 8 = 0xFFFFFFFFFFFF00"
    using assms bytes unfolding e unpack_field_def by (simp_all add: uint_word_of_int)
  have "edid_magic ?e = 0xFFFFFFFFFFFF00"
    by (simp add: edid_magic_def f)
  then show ?thesis
    using f hex_pad_reads [of pid 3] hex_pad_reads [of ser 7] assms(4-7) pnp_text_maker [OF m assms(1-3)]
    by (simp add: parse_edid_def)
qed

definition sample_block :: bytes where
  "sample_block = edid_block (20, 13, 9) 0x1234 7 [30, 33] 1 4 (replicate 107 1 @ [16])"

theorem edid_identity_roundtrip_witness:
  "\<exists>info p s. parse_edid (\<lambda>b. CHR ''?'') sample_block = Some info
    \<and> dict_get info ''pnp'' = Some (JStr [char_of (20 + 64 :: nat), char_of (13 + 64 :: nat), char_of (9 + 64 :: nat)])
    \<and> dict_get info ''pid'' = Some (JStr p) \<and> length p = 4 \<and> int (hex_read p) = 0x1234
    \<and> dict_get info ''serial'' = Some (JStr s) \<and> length s = 8 \<and> int (hex_read s) = 7
    \<and> dict_get info ''version'' = Some (JStr (show_nat (unat (1 :: 8 word)) @ ''.'' @ show_nat (unat (4 :: 8 word))))"
  unfolding sample_block_def by (rule edid_identity_roundtrip) simp_all

lemma sample_bytes: "sample_block = [0, 0xFF, 0xFF, 0xFF, 0xFF, 0xFF, 0xFF, 0, 0x51, 0xA9, 0x34, 0x12, 7, 0, 0, 0, 30, 33, 1, 4]
    @ replicate 107 1 @ [16]"
  by (simp add: sample_block_def edid_block_def maker_bytes_def put_le_numeral)

lemma sample_block_ok: "length sample_block = 128" "sample_block ! 20 = 1"
    "edid_magic sample_block = 0xFFFFFFFFFFFF00" "checksum_ok sample_block"
  unfolding sample_bytes edid_magic_def unpack_field_def checksum_ok_mod
  by (simp_all add: sum_list_replicate nth_append)

theorem edid_corruption_is_flagged_witness:
  "case parse_edid (\<lambda>b. CHR ''?'') (sample_block[20 := 9]) of None \<Rightarrow> True
    | Some info \<Rightarrow> dict_get info ''checksum'' = Some (JBool False)"
proof -
  obtain info where "parse_edid (\<lambda>b. CHR ''?'') sample_block = Some info" "dict_get info ''checksum'' = Some (JBool True)"
    using sample_block_ok by (simp add: parse_edid_def)
  then show ?thesis
    by (rule edid_corruption_is_flagged) (simp_all add: sample_block_ok)
qed

lemma hd_split_on: "c \<notin> set a \<Longrightarrow> hd (split_on c (a @ c # b)) = a"
  by (induction a) (auto split: list.split)

lemma descriptor_key: "k \<noteq> key \<Longrightarrow> dict_get (descriptor_entry upper edid key off @ d) k = dict_get d k"
  by (simp add: descriptor_entry_def)

lemma cp437_newline: "cp437 upper 10 = CHR 0x0A"
  unfolding cp437_def by code_simp

lemma descriptor_digits:
  "digit_char 0 = CHR ''0''" "digit_char (Suc 0) = CHR ''1''" "digit_char 2 = CHR ''2''" "digit_char 3 = CHR ''3''"
  by code_simp+

text \<open>A monitor's name, text or serial number descriptor, in any of the four places, is reported with the text up to the line feed that ends it.\<close>

theorem descriptor_reported:
  assumes "parse_edid upper edid = Some info" and "n < 4"
    and "take 18 (drop (54 + 18 * n) edid) = [0, 0, 0, kind, 0] @ map (\<lambda>c. word_of_nat (code c)) label @ 10 # pad"
    and "descriptor_kind kind = Some name" and "is_ascii label" and "CHR 0x0A \<notin> set label"
  shows "dict_get info (''desc'' @ [digit_char n])
    = Some (JObj [(''value'', JStr label), (''type'', JStr name)])"
proof -
  let ?off = "54 + 18 * n"
  have zero: "unpack_field edid ?off 2 = 0"
  proof -
    have "take 2 (drop ?off edid) = take 2 (take 18 (drop ?off edid))" by simp
    then show ?thesis by (simp only: unpack_field_def assms(3)) simp
  qed
  have desc: "take 16 (drop (?off + 2) edid) = [0, kind, 0] @ map (\<lambda>c. word_of_nat (code c)) label @ 10 # pad"
  proof -
    have "take 16 (drop (?off + 2) edid) = drop 2 (take 18 (drop ?off edid))"
      by (simp add: drop_take add.commute)
    then show ?thesis by (simp only: assms(3)) simp
  qed
  have "map (cp437 upper) (map (\<lambda>c. word_of_nat (code c)) label) = label"
    using assms(5) by (induction label) (simp_all add: is_ascii_def cp437_def word_less_nat_alt unat_of_nat)
  then have "parse_display_descriptor upper (take 16 (drop (?off + 2) edid)) = [(''value'', JStr label), (''type'', JStr name)]"
    using assms(4,6) unfolding parse_display_descriptor_def desc by (simp add: hd_split_on cp437_newline)
  then have entry: "descriptor_entry upper edid key ?off = [(key, JObj [(''value'', JStr label), (''type'', JStr name)])]" for key
    using zero by (simp add: descriptor_entry_def)
  consider "n = 0" | "n = 1" | "n = 2" | "n = 3" using assms(2) by linarith
  then show ?thesis
  proof cases
    case 1
    then show ?thesis using entry [of "''desc0''"] assms(1) by (auto simp: parse_edid_def descriptor_digits split: if_splits)
  next
    case 2
    then show ?thesis using entry [of "''desc1''"] assms(1) by (auto simp: parse_edid_def descriptor_key descriptor_digits split: if_splits)
  next
    case 3
    then show ?thesis using entry [of "''desc2''"] assms(1) by (auto simp: parse_edid_def descriptor_key descriptor_digits split: if_splits)
  next
    case 4
    then show ?thesis using entry [of "''desc3''"] assms(1) by (auto simp: parse_edid_def descriptor_key descriptor_digits split: if_splits)
  qed
qed

definition named_block :: bytes where
  "named_block = edid_block (20, 13, 9) 0x1234 7 [30, 33] 1 4
     (replicate 52 1 @ [0, 0, 0, 0xFC, 0] @ map (\<lambda>c. word_of_nat (code c)) ''Deck'' @ 10 # replicate 8 32 @ replicate 38 1)"

lemma named_bytes: "named_block = [0, 0xFF, 0xFF, 0xFF, 0xFF, 0xFF, 0xFF, 0, 0x51, 0xA9, 0x34, 0x12, 7, 0, 0, 0, 30, 33, 1, 4]
    @ replicate 52 1 @ [0, 0, 0, 0xFC, 0] @ map (\<lambda>c. word_of_nat (code c)) ''Deck'' @ 10 # replicate 8 32 @ replicate 38 1"
  by (simp add: named_block_def edid_block_def maker_bytes_def put_le_numeral)

theorem descriptor_reported_witness:
  "\<exists>info. parse_edid (\<lambda>b. CHR ''?'') named_block = Some info
    \<and> dict_get info ''desc1'' = Some (JObj [(''value'', JStr ''Deck''), (''type'', JStr ''name'')])"
proof -
  have "edid_magic named_block = 0xFFFFFFFFFFFF00"
    unfolding named_bytes edid_magic_def unpack_field_def by simp
  then obtain info where info: "parse_edid (\<lambda>b. CHR ''?'') named_block = Some info"
    unfolding named_bytes by (simp add: parse_edid_def)
  have "dict_get info (''desc'' @ [digit_char 1]) = Some (JObj [(''value'', JStr ''Deck''), (''type'', JStr ''name'')])"
    by (rule descriptor_reported [OF info, of 1 "0xFC" "''Deck''" "replicate 8 32"])
      (simp_all add: named_bytes descriptor_kind_def is_ascii_def code_def)
  then show ?thesis
    using info by (simp add: descriptor_digits)
qed

end
