(* ===== verification/Sysinfo_Devices.thy ===== *)
theory Sysinfo_Devices imports Sysinfo Edid Util_System begin

text \<open>
  The device types of \<^verbatim>\<open>helpers/sysinfo.py\<close>: what each of them lists. The files below /sys and
  /proc, the objects on the system bus, the commands and the sound cards are read from one record; a
  bus property is the Python value D-Bus delivers, or the exception the call raises.
\<close>

section \<open>What the types read\<close>

record alsa_card =
  ac_info :: "(string, json) dict"                    \<comment> \<open>Control.card_info()\<close>
  ac_elements :: "(string \<times> json list) list"          \<comment> \<open>an element's name and its values\<close>

record dev_env =
  de_dir :: "string \<Rightarrow> string list result"             \<comment> \<open>os.listdir\<close>
  de_text :: "string \<Rightarrow> string result"                 \<comment> \<open>a text file\<close>
  de_bytes :: "string \<Rightarrow> bytes result"                 \<comment> \<open>a binary file\<close>
  de_children :: "string \<Rightarrow> string \<Rightarrow> string list result"
  de_prop :: "string \<Rightarrow> string \<Rightarrow> string \<Rightarrow> string \<Rightarrow> json result"
  de_str :: "json \<Rightarrow> string"                           \<comment> \<open>str() of a value that is no string\<close>
  de_float :: "string \<Rightarrow> int option"                   \<comment> \<open>float() of a text, in units of 1e-9\<close>
  de_cp437 :: "8 word \<Rightarrow> char"
  de_findmnt :: "json result"                         \<comment> \<open>the parsed output of findmnt\<close>
  de_eglinfo :: "string list result"                  \<comment> \<open>the lines of eglinfo\<close>
  de_decode :: "string \<Rightarrow> string result"
  de_meminfo :: "(string list \<times> exn option) result"   \<comment> \<open>lines, and the error that ended them\<close>
  de_devmode :: "bool result"                         \<comment> \<open>os.access of the development mode mark\<close>
  de_branch :: "string result"
  de_release :: "(string list \<times> exn option) result"
  de_dmi :: "string \<Rightarrow> string result"
  de_cards :: "alsa_card list result"

section \<open>Conversions\<close>

datatype conv = ToStr | ToBool | ToInt | ToFloat | ToHex

text \<open>Truncation towards zero.\<close>

definition whole :: "int \<Rightarrow> int" where
  "whole n = (if 0 \<le> n then n div 1000000000 else - (- n div 1000000000))"

definition py_int_of :: "json \<Rightarrow> int result" where
  "py_int_of v = (case v of
       JInt n \<Rightarrow> Inr n | JBool b \<Rightarrow> Inr (if b then 1 else 0) | JFloat n \<Rightarrow> Inr (whole n)
     | JStr s \<Rightarrow> (case py_int s of None \<Rightarrow> Inl ValueError | Some n \<Rightarrow> Inr n) | _ \<Rightarrow> Inl TypeError)"

definition py_float_of :: "(string \<Rightarrow> int option) \<Rightarrow> json \<Rightarrow> int result" where
  "py_float_of fl v = (case v of
       JStr s \<Rightarrow> (case fl s of None \<Rightarrow> Inl ValueError | Some n \<Rightarrow> Inr n)
     | _ \<Rightarrow> (case as_number v of None \<Rightarrow> Inl TypeError | Some n \<Rightarrow> Inr n))"

definition py_hex :: "int \<Rightarrow> string" where
  "py_hex n = (if n < 0 then ''-0x'' else ''0x'') @ hex_show (nat \<bar>n\<bar>)"

definition str_of :: "dev_env \<Rightarrow> json \<Rightarrow> string" where
  "str_of de v = (case v of JStr s \<Rightarrow> s | _ \<Rightarrow> de_str de v)"

definition convert :: "dev_env \<Rightarrow> conv \<Rightarrow> json \<Rightarrow> json result" where
  "convert de c v = (case c of
       ToStr \<Rightarrow> Inr (JStr (str_of de v))
     | ToBool \<Rightarrow> Inr (JBool (truthy v))
     | ToInt \<Rightarrow> (case py_int_of v of Inl e \<Rightarrow> Inl e | Inr n \<Rightarrow> Inr (JInt n))
     | ToFloat \<Rightarrow> (case py_float_of (de_float de) v of Inl e \<Rightarrow> Inl e | Inr n \<Rightarrow> Inr (JFloat n))
     | ToHex \<Rightarrow> (case v of
           JInt n \<Rightarrow> Inr (JStr (py_hex n)) | JBool b \<Rightarrow> Inr (JStr (py_hex (if b then 1 else 0)))
         | _ \<Rightarrow> Inl TypeError))"

text \<open>\<^verbatim>\<open>for name, convert in conversions\<close>: the exceptions of \<open>skip\<close> leave the property out.\<close>

fun convert_props :: "dev_env \<Rightarrow> (exn \<Rightarrow> bool) \<Rightarrow> (string \<Rightarrow> string) \<Rightarrow> (string \<Rightarrow> json result) \<Rightarrow> (string \<times> conv) list
    \<Rightarrow> (string, json) dict \<Rightarrow> (string, json) dict result" where
  "convert_props de skip key get [] d = Inr d"
| "convert_props de skip key get ((name, c) # rest) d =
     (case (case get name of Inl e \<Rightarrow> Inl e | Inr v \<Rightarrow> convert de c v) of
        Inl e \<Rightarrow> (if skip e then convert_props de skip key get rest d else Inl e)
      | Inr v \<Rightarrow> convert_props de skip key get rest (dict_set d (key name) v))"

definition is_KeyError :: "exn \<Rightarrow> bool" where
  "is_KeyError e = (case e of KeyError _ \<Rightarrow> True | _ \<Rightarrow> False)"

definition is_DBusError :: "exn \<Rightarrow> bool" where
  "is_DBusError e = (case e of DBusError _ _ \<Rightarrow> True | TransientError \<Rightarrow> True | PermanentError \<Rightarrow> True
     | ClassError \<Rightarrow> True | _ \<Rightarrow> False)"

section \<open>USB\<close>

definition opt_text :: "string \<Rightarrow> string option \<Rightarrow> (string, json) dict" where
  "opt_text key v = (case v of None \<Rightarrow> [] | Some s \<Rightarrow> [(key, JStr s)])"

definition usb_device :: "dev_env \<Rightarrow> string \<Rightarrow> json list result" where
  "usb_device de dev =
     (let rd = (\<lambda>name. read_file (de_text de (''/sys/bus/usb/devices/'' @ dev @ ''/'' @ name))) in
      if prefix ''usb'' dev then Inr []
      else (case rd ''idVendor'' of Inl e \<Rightarrow> Inl e | Inr vid \<Rightarrow>
           (case rd ''idProduct'' of Inl e \<Rightarrow> Inl e | Inr pid \<Rightarrow>
           (case (vid, pid) of
              (Some (v # vs), Some (p # ps)) \<Rightarrow>
                 (case rd ''manufacturer'' of Inl e \<Rightarrow> Inl e | Inr manufacturer \<Rightarrow>
                 (case rd ''product'' of Inl e \<Rightarrow> Inl e | Inr product \<Rightarrow>
                    Inr [JObj ([(''vid'', JStr (v # vs)), (''pid'', JStr (p # ps))]
                      @ opt_text ''manufacturer'' manufacturer @ opt_text ''product'' product)]))
            | _ \<Rightarrow> Inr []))))"

text \<open>The entries of a list one after the other, the first failure ending it.\<close>

fun each :: "('a \<Rightarrow> 'b list result) \<Rightarrow> 'a list \<Rightarrow> 'b list result" where
  "each f [] = Inr []"
| "each f (x # xs) = (case f x of Inl e \<Rightarrow> Inl e
     | Inr ys \<Rightarrow> (case each f xs of Inl e \<Rightarrow> Inl e | Inr zs \<Rightarrow> Inr (ys @ zs)))"

definition usb_list :: "dev_env \<Rightarrow> json result" where
  "usb_list de = (case de_dir de ''/sys/bus/usb/devices'' of
       Inl e \<Rightarrow> Inl e
     | Inr devs \<Rightarrow> (case each (usb_device de) devs of Inl e \<Rightarrow> Inl e | Inr ds \<Rightarrow> Inr (JList ds)))"

section \<open>Monitors\<close>

text \<open>\<^verbatim>\<open>re.match(r'card\d+-', dev)\<close>.\<close>

definition connector_name :: "string \<Rightarrow> bool" where
  "connector_name dev = (prefix ''card'' dev \<and> (let r = drop 4 dev in
     takeWhile is_digit r \<noteq> [] \<and> prefix ''-'' (dropWhile is_digit r)))"

definition hex_text :: "bytes \<Rightarrow> string" where
  "hex_text bs = concat (map (\<lambda>b. hex_pad 2 (uint b)) bs)"

definition read_binary :: "bytes result \<Rightarrow> bytes option result" where
  "read_binary f = (case f of
       Inr b \<Rightarrow> Inr (Some b) | Inl e \<Rightarrow> (if e = FileNotFoundError then Inr None else Inl e))"

definition monitor_device :: "dev_env \<Rightarrow> string \<Rightarrow> json list result" where
  "monitor_device de dev =
     (if \<not> connector_name dev then Inr []
      else (case read_file (de_text de (''/sys/class/drm/'' @ dev @ ''/modes'')) of
          Inl e \<Rightarrow> Inl e
        | Inr modes \<Rightarrow> (case read_binary (de_bytes de (''/sys/class/drm/'' @ dev @ ''/edid'')) of
            Inl e \<Rightarrow> Inl e
          | Inr edid \<Rightarrow>
             (let info = (case modes of None \<Rightarrow> [] | Some s \<Rightarrow> [(''modes'', JList (map JStr (split_on (CHR 0x0A) s)))]);
                  info' = (case edid of
                      Some (b # bs) \<Rightarrow>
                        (let i = info @ [(''edid'', JStr (hex_text (b # bs)))] in
                         case parse_edid (de_cp437 de) (b # bs) of None \<Rightarrow> i | Some d \<Rightarrow> dict_update i d)
                    | _ \<Rightarrow> info)
              in Inr (if info' = [] then [] else [JObj info'])))))"

definition monitors_list :: "dev_env \<Rightarrow> json result" where
  "monitors_list de = (case de_dir de ''/sys/class/drm'' of
       Inl e \<Rightarrow> Inl e
     | Inr devs \<Rightarrow> (case each (monitor_device de) devs of Inl e \<Rightarrow> Inl e | Inr ds \<Rightarrow> Inr (JList ds)))"

section \<open>Bluetooth\<close>

definition bluetooth_props :: "(string \<times> conv) list" where
  "bluetooth_props = [(''Address'', ToStr), (''Alias'', ToStr), (''Blocked'', ToBool), (''Bonded'', ToBool),
     (''Class'', ToHex), (''Connected'', ToBool), (''Icon'', ToStr), (''Modalias'', ToStr), (''Name'', ToStr),
     (''Paired'', ToBool), (''Trusted'', ToBool)]"

definition bluetooth_device :: "dev_env \<Rightarrow> string \<Rightarrow> string \<Rightarrow> json list result" where
  "bluetooth_device de adapter dev =
     (case convert_props de (\<lambda>e. is_KeyError e \<or> is_DBusError e) py_lower
         (de_prop de ''org.bluez'' dev ''org.bluez.Device1'') bluetooth_props [] of
        Inl e \<Rightarrow> Inl e
      | Inr d \<Rightarrow> Inr [JObj (dict_set d ''adapter'' (JStr (last_part (CHR ''/'') adapter)))])"

definition bluetooth_adapter :: "dev_env \<Rightarrow> string \<Rightarrow> json list result" where
  "bluetooth_adapter de adapter = (case de_children de ''org.bluez'' adapter of
       Inl e \<Rightarrow> Inl e | Inr known \<Rightarrow> each (bluetooth_device de adapter) known)"

definition bluetooth_list :: "dev_env \<Rightarrow> json result" where
  "bluetooth_list de = (case de_children de ''org.bluez'' ''/org/bluez'' of
       Inl e \<Rightarrow> Inl e
     | Inr adapters \<Rightarrow> (case each (bluetooth_adapter de) adapters of Inl e \<Rightarrow> Inl e | Inr ds \<Rightarrow> Inr (JList ds)))"

section \<open>File systems\<close>

definition not_a_string :: "json \<Rightarrow> string result" where
  "not_a_string v = (case v of JStr s \<Rightarrow> Inr s | _ \<Rightarrow> Inl AttributeError)"

definition fs_field :: "(string, json) dict \<Rightarrow> string \<Rightarrow> json result" where
  "fs_field fs key = (case dict_get fs key of None \<Rightarrow> Inl (KeyError key) | Some v \<Rightarrow> Inr v)"

text \<open>The size of a file system that findmnt does not know: None when the device has none either.\<close>

definition block_size :: "dev_env \<Rightarrow> string \<Rightarrow> int option result" where
  "block_size de source =
     (case (case de_prop de ''org.freedesktop.UDisks2''
                (''/org/freedesktop/UDisks2/block_devices/'' @ join ''/'' (drop 2 (split_on (CHR ''/'') source)))
                ''org.freedesktop.UDisks2.Block'' ''Size'' of
          Inl e \<Rightarrow> Inl e
        | Inr v \<Rightarrow> py_int_of v) of
        Inl e \<Rightarrow> (if e = AttributeError \<or> e = TypeError \<or> is_ValueError e \<or> is_DBusError e then Inr None else Inl e)
      | Inr n \<Rightarrow> Inr (Some n))"

definition sized_fs :: "dev_env \<Rightarrow> (string, json) dict \<Rightarrow> json list result" where
  "sized_fs de fs = (case fs_field fs ''size'' of
       Inl e \<Rightarrow> Inl e
     | Inr sz \<Rightarrow>
        (if sz \<noteq> JNull then Inr [JObj fs]
         else (case (case fs_field fs ''source'' of Inl e \<Rightarrow> Inl e | Inr v \<Rightarrow> not_a_string v) of
             Inl e \<Rightarrow> Inl e
           | Inr source \<Rightarrow>
              (if \<not> prefix ''/dev/'' source then Inr [JObj fs]
               else (case block_size de source of
                   Inl e \<Rightarrow> Inl e
                 | Inr None \<Rightarrow> Inr [JObj fs]
                 | Inr (Some n) \<Rightarrow> Inr [JObj (dict_set fs ''size'' (JInt n))])))))"

definition filesystem :: "dev_env \<Rightarrow> json \<Rightarrow> json list result" where
  "filesystem de v = (case v of
       JObj fs \<Rightarrow> (case (case fs_field fs ''fstype'' of Inl e \<Rightarrow> Inl e | Inr t \<Rightarrow> not_a_string t) of
           Inl e \<Rightarrow> Inl e
         | Inr fstype \<Rightarrow>
            (if suffix ''.appimage'' (py_lower fstype) \<or> fstype = ''fuse.portal'' then Inr []
             else sized_fs de fs))
     | _ \<Rightarrow> Inl TypeError)"

definition filesystems_list :: "dev_env \<Rightarrow> json result" where
  "filesystems_list de = (case de_findmnt de of
       Inl e \<Rightarrow> Inl e
     | Inr (JObj d) \<Rightarrow> (case dict_get d ''filesystems'' of
         None \<Rightarrow> Inr JNull
       | Some v \<Rightarrow> (case (case iterated v of Inl e \<Rightarrow> Inl e | Inr fss \<Rightarrow> each (filesystem de) fss) of
           Inl e \<Rightarrow> Inl e | Inr ds \<Rightarrow> Inr (JList ds)))
     | Inr (JList vs) \<Rightarrow> (if JStr ''filesystems'' \<in> set vs then Inl TypeError else Inr JNull)
     | Inr (JStr s) \<Rightarrow> (if sublist ''filesystems'' s then Inl TypeError else Inr JNull)
     | Inr _ \<Rightarrow> Inl TypeError)"

section \<open>The system\<close>

fun find_vram :: "(string \<Rightarrow> string result) \<Rightarrow> bool \<Rightarrow> string list \<Rightarrow> string option result" where
  "find_vram decode found [] = Inr None"
| "find_vram decode found (line # lines) =
     (if found then (case decode line of Inl e \<Rightarrow> Inl e | Inr t \<Rightarrow> Inr (Some (strip (last_part (CHR '':'') t))))
      else find_vram decode (prefix ''Memory info (GL_NVX_gpu_memory_info)'' line) lines)"

definition get_vram :: "dev_env \<Rightarrow> string option result" where
  "get_vram de = (case de_eglinfo de of
       Inl e \<Rightarrow> (if is_OSError e then Inr None else Inl e)
     | Inr lines \<Rightarrow> find_vram (de_decode de) False lines)"

text \<open>A value of /proc/meminfo that was found and is not empty.\<close>

definition found_value :: "string option \<Rightarrow> bool" where
  "found_value v = (case v of None \<Rightarrow> False | Some s \<Rightarrow> s \<noteq> [])"

fun scan_meminfo :: "string list \<Rightarrow> string option \<times> string option \<Rightarrow> string option \<times> string option" where
  "scan_meminfo [] (mem, swap) = (mem, swap)"
| "scan_meminfo (line # lines) (mem, swap) =
     (let r = (if prefix ''MemTotal'' line then (Some (strip (last_part (CHR '':'') line)), swap)
               else if prefix ''SwapTotal'' line then (mem, Some (strip (last_part (CHR '':'') line)))
               else (mem, swap))
      in if found_value (fst r) \<and> found_value (snd r) then r else scan_meminfo lines r)"

text \<open>An error while reading keeps what was found before it; it is not reached when both were.\<close>

definition get_ram :: "dev_env \<Rightarrow> (string option \<times> string option) result" where
  "get_ram de = (case de_meminfo de of
       Inl e \<Rightarrow> (if is_OSError e then Inr (None, None) else Inl e)
     | Inr (lines, err) \<Rightarrow>
        (case scan_meminfo lines (None, None) of (mem, swap) \<Rightarrow>
           (case err of
              Some e \<Rightarrow> (if (found_value mem \<and> found_value swap) \<or> is_OSError e then Inr (mem, swap) else Inl e)
            | None \<Rightarrow> Inr (mem, swap))))"

definition json_opt :: "string option \<Rightarrow> json" where
  "json_opt v = (case v of None \<Rightarrow> JNull | Some s \<Rightarrow> JStr s)"

definition with_text :: "string \<Rightarrow> string option \<Rightarrow> (string, json) dict \<Rightarrow> (string, json) dict" where
  "with_text key v d = (if found_value v then dict_set d key (json_opt v) else d)"

definition system_list :: "dev_env \<Rightarrow> json result" where
  "system_list de =
     (case get_steamos_branch (de_branch de) of Inl e \<Rightarrow> Inl e | Inr branch \<Rightarrow>
     (case get_build_id (de_release de) of Inl e \<Rightarrow> Inl e | Inr build \<Rightarrow>
     (case get_version_id (de_release de) of Inl e \<Rightarrow> Inl e | Inr version \<Rightarrow>
     (case (case de_devmode de of Inr b \<Rightarrow> Inr b | Inl e \<Rightarrow> if is_OSError e then Inr False else Inl e) of
        Inl e \<Rightarrow> Inl e
      | Inr devmode \<Rightarrow>
     (case get_vram de of Inl e \<Rightarrow> Inl e | Inr vram \<Rightarrow>
     (case get_ram de of Inl e \<Rightarrow> Inl e | Inr (mem, swap) \<Rightarrow>
        (let d = with_text ''swap'' swap (with_text ''mem'' mem (with_text ''vram'' vram
               [(''branch'', json_opt branch), (''build'', json_opt build), (''version'', json_opt version),
                (''devmode'', JBool devmode)]))
         in case get_dmi_info (de_dmi de) of
              Inr dmi \<Rightarrow> Inr (JObj (dict_update d (map (\<lambda>(k, v). (k, JStr v)) dmi)))
            | Inl e \<Rightarrow> (if is_OSError e then Inr (JObj d) else Inl e))))))))"

section \<open>Batteries\<close>

definition battery_props :: "(string \<times> conv) list" where
  "battery_props = [(''EnergyFull'', ToFloat), (''EnergyFullDesign'', ToFloat), (''Model'', ToStr),
     (''NativePath'', ToStr), (''Online'', ToBool), (''Type'', ToInt)]"

definition battery_device :: "dev_env \<Rightarrow> string \<Rightarrow> json list result" where
  "battery_device de child =
     (case convert_props de is_KeyError snake_case
         (de_prop de ''org.freedesktop.UPower'' child ''org.freedesktop.UPower.Device'') battery_props [] of
        Inl e \<Rightarrow> Inl e | Inr d \<Rightarrow> Inr [JObj d])"

definition batteries_list :: "dev_env \<Rightarrow> json result" where
  "batteries_list de = (case de_children de ''org.freedesktop.UPower'' ''/org/freedesktop/UPower/devices'' of
       Inl e \<Rightarrow> Inl e
     | Inr children \<Rightarrow> (case each (battery_device de) children of Inl e \<Rightarrow> Inl e | Inr ds \<Rightarrow> Inr (JList ds)))"

section \<open>Network\<close>

definition nm_device_types :: "(int, string) dict" where
  "nm_device_types = [(0, ''unknown''), (1, ''ethernet''), (2, ''wifi''), (5, ''bt''), (6, ''olpc_mesh''), (7, ''wimax''),
     (8, ''modem''), (9, ''infiniband''), (10, ''bond''), (11, ''vlan''), (12, ''adsl''), (13, ''bridge''),
     (14, ''generic''), (15, ''team''), (16, ''tun''), (17, ''tunnel''), (18, ''macvlan''), (19, ''vxlan''),
     (20, ''veth''), (21, ''macsec''), (22, ''dummy''), (23, ''ppp''), (24, ''ovs_interface''), (25, ''ovs_port''),
     (26, ''ovs_bridge''), (27, ''wpan''), (28, ''6lowpan''), (29, ''wireguard''), (30, ''wifi_p2p''), (31, ''vrf'')]"

text \<open>\<^verbatim>\<open>value * 1000\<close> of whatever the property holds.\<close>

definition times_1000 :: "json \<Rightarrow> json result" where
  "times_1000 v = (case v of
       JInt n \<Rightarrow> Inr (JInt (n * 1000)) | JFloat n \<Rightarrow> Inr (JFloat (n * 1000))
     | JBool b \<Rightarrow> Inr (JInt (if b then 1000 else 0))
     | JStr s \<Rightarrow> Inr (JStr (concat (replicate 1000 s))) | JList vs \<Rightarrow> Inr (JList (concat (replicate 1000 vs)))
     | _ \<Rightarrow> Inl TypeError)"

definition device_type_name :: "dev_env \<Rightarrow> json \<Rightarrow> int \<Rightarrow> string" where
  "device_type_name de v n = (case dict_get nm_device_types n of Some t \<Rightarrow> t
     | None \<Rightarrow> ''unknown_'' @ (case v of JInt k \<Rightarrow> show_int k | _ \<Rightarrow> de_str de v))"

definition device_number :: "json \<Rightarrow> int result" where
  "device_number v = (case v of JInt n \<Rightarrow> Inr n | JBool b \<Rightarrow> Inr (if b then 1 else 0) | _ \<Rightarrow> Inl AssertionError)"

definition link_info :: "(string \<Rightarrow> string \<Rightarrow> json result) \<Rightarrow> int \<Rightarrow> (string, json) dict \<Rightarrow> (string, json) dict result" where
  "link_info prop n d =
     (if n = 1 then
        (case prop ''org.freedesktop.NetworkManager.Device.Wired'' ''Carrier'' of
           Inl e \<Rightarrow> Inl e
         | Inr c \<Rightarrow>
            (let d' = dict_set d ''carrier'' (JBool (truthy c)) in
             if \<not> truthy c then Inr d'
             else (case (case prop ''org.freedesktop.NetworkManager.Device.Wired'' ''Speed'' of
                        Inl e \<Rightarrow> Inl e | Inr v \<Rightarrow> times_1000 v) of
                 Inl e \<Rightarrow> Inl e | Inr v \<Rightarrow> Inr (dict_set d' ''bitrate'' v))))
      else if n = 2 then
        (case prop ''org.freedesktop.NetworkManager.Device.Wireless'' ''Bitrate'' of
           Inl e \<Rightarrow> Inl e | Inr v \<Rightarrow> Inr (dict_set d ''bitrate'' v))
      else Inr d)"

definition network_device :: "dev_env \<Rightarrow> string \<Rightarrow> json list result" where
  "network_device de child =
     (let prop = de_prop de ''org.freedesktop.NetworkManager'' child;
          dev = prop ''org.freedesktop.NetworkManager.Device'' in
      (case dev ''Interface'' of
         Inl e \<Rightarrow> Inl e
       | Inr iface \<Rightarrow>
          (if prefix ''lo'' (str_of de iface) then Inr []
           else (case dev ''DeviceType'' of
               Inl e \<Rightarrow> Inl e
             | Inr v \<Rightarrow> (case device_number v of
                 Inl e \<Rightarrow> Inl e
               | Inr n \<Rightarrow>
                  (case convert_props de is_KeyError snake_case dev [(''Interface'', ToStr), (''Mtu'', ToInt)]
                      [(''device_type'', JStr (device_type_name de v n))] of
                     Inl e \<Rightarrow> Inl e
                   | Inr d \<Rightarrow> (case link_info prop n d of Inl e \<Rightarrow> Inl e | Inr d' \<Rightarrow> Inr [JObj d'])))))))"

definition network_list :: "dev_env \<Rightarrow> json result" where
  "network_list de = (case de_children de ''org.freedesktop.NetworkManager'' ''/org/freedesktop/NetworkManager/Devices'' of
       Inl e \<Rightarrow> Inl e
     | Inr children \<Rightarrow> (case each (network_device de) children of Inl e \<Rightarrow> Inl e | Inr ds \<Rightarrow> Inr (JList ds)))"

section \<open>Audio\<close>

fun headphones :: "(string \<times> json list) list \<Rightarrow> (string, json) dict \<Rightarrow> (string, json) dict result" where
  "headphones [] d = Inr d"
| "headphones ((name, vals) # rest) d =
     (if name \<noteq> ''Headphone Jack'' then headphones rest d
      else (case vals of [v] \<Rightarrow> headphones rest (dict_set d ''headphones'' v) | _ \<Rightarrow> Inl ValueError))"

definition audio_device :: "alsa_card \<Rightarrow> json list result" where
  "audio_device crd =
     (let f = fs_field (ac_info crd) in
      case f ''id'' of Inl e \<Rightarrow> Inl e | Inr i \<Rightarrow>
     (case f ''card'' of Inl e \<Rightarrow> Inl e | Inr c \<Rightarrow>
     (case f ''name'' of Inl e \<Rightarrow> Inl e | Inr n \<Rightarrow>
     (case f ''mixername'' of Inl e \<Rightarrow> Inl e | Inr m \<Rightarrow>
     (case headphones (ac_elements crd) [(''id'', i), (''card'', c), (''name'', n), (''mixer'', m)] of
        Inl e \<Rightarrow> Inl e | Inr d \<Rightarrow> Inr [JObj d])))))"

definition audio_list :: "dev_env \<Rightarrow> json result" where
  "audio_list de = (case de_cards de of
       Inl e \<Rightarrow> Inl e
     | Inr cards \<Rightarrow> (case each audio_device cards of Inl e \<Rightarrow> Inl e | Inr ds \<Rightarrow> Inr (JList ds)))"

section \<open>The registry\<close>

text \<open>Every class registers itself under its name in snake case, in the order of the module.\<close>

definition device_types :: "dev_env \<Rightarrow> (string, sys_type) dict" where
  "device_types de = foldl register_type []
     [\<lparr>ty_name = ''Usb'', ty_version = 1, ty_list = usb_list de\<rparr>,
      \<lparr>ty_name = ''Monitors'', ty_version = 1, ty_list = monitors_list de\<rparr>,
      \<lparr>ty_name = ''Bluetooth'', ty_version = 1, ty_list = bluetooth_list de\<rparr>,
      \<lparr>ty_name = ''Filesystems'', ty_version = 1, ty_list = filesystems_list de\<rparr>,
      \<lparr>ty_name = ''System'', ty_version = 1, ty_list = system_list de\<rparr>,
      \<lparr>ty_name = ''Batteries'', ty_version = 1, ty_list = batteries_list de\<rparr>,
      \<lparr>ty_name = ''Network'', ty_version = 1, ty_list = network_list de\<rparr>,
      \<lparr>ty_name = ''Audio'', ty_version = 1, ty_list = audio_list de\<rparr>]"

section \<open>Lemmas and properties\<close>

lemma device_names:
  "map fst (device_types de) = [''usb'', ''monitors'', ''bluetooth'', ''filesystems'', ''system'', ''batteries'', ''network'', ''audio'']"
proof -
  have "snake_case ''Usb'' = ''usb''" "snake_case ''Monitors'' = ''monitors''" "snake_case ''Bluetooth'' = ''bluetooth''"
    "snake_case ''Filesystems'' = ''filesystems''" "snake_case ''System'' = ''system''" "snake_case ''Batteries'' = ''batteries''"
    "snake_case ''Network'' = ''network''" "snake_case ''Audio'' = ''audio''"
    by code_simp+
  then show ?thesis
    by (simp add: device_types_def register_type_def)
qed

lemma each_mem: "each f xs = Inr ys \<Longrightarrow> y \<in> set ys \<Longrightarrow> \<exists>x zs. x \<in> set xs \<and> f x = Inr zs \<and> y \<in> set zs"
  by (induction xs arbitrary: ys) (fastforce split: sum.splits)+

lemma each_fails: "x \<in> set xs \<Longrightarrow> f x = Inl e \<Longrightarrow> \<exists>e'. each f xs = Inl e'"
  by (induction xs) (auto split: sum.splits)

lemma convert_props_fails:
  "(name, c) \<in> set props \<Longrightarrow> get name = Inl e \<Longrightarrow> \<not> skip e \<Longrightarrow> \<exists>e'. convert_props de skip key get props d = Inl e'"
  by (induction props arbitrary: d) (auto split: sum.splits)

text \<open>One property the bus does not deliver hides every battery: its D-Bus error is not the KeyError that is caught, so that the whole section is missing from the report.\<close>

theorem unavailable_property_hides_batteries:
  assumes "de_children de ''org.freedesktop.UPower'' ''/org/freedesktop/UPower/devices'' = Inr children" and "child \<in> set children"
    and "de_prop de ''org.freedesktop.UPower'' child ''org.freedesktop.UPower.Device'' name = Inl (DBusError etype reason)"
    and "name \<in> set (map fst battery_props)" and "batteries_list de \<noteq> Inl CancelledError"
  shows "list_device \<lparr>ty_name = ''Batteries'', ty_version = 1, ty_list = batteries_list de\<rparr> = Inr JNull"
proof -
  obtain c where "(name, c) \<in> set battery_props"
    using assms(4) by auto
  then obtain e where "convert_props de is_KeyError snake_case
      (de_prop de ''org.freedesktop.UPower'' child ''org.freedesktop.UPower.Device'') battery_props [] = Inl e"
    using convert_props_fails [of name c battery_props "de_prop de ''org.freedesktop.UPower'' child ''org.freedesktop.UPower.Device''"
        _ is_KeyError de snake_case "[]"] assms(3) by (auto simp: is_KeyError_def)
  then have "\<exists>e. battery_device de child = Inl e"
    by (simp add: battery_device_def)
  then obtain e where "each (battery_device de) children = Inl e"
    using each_fails [OF assms(2)] by blast
  then have "\<exists>e. batteries_list de = Inl e"
    by (simp add: batteries_list_def assms(1))
  then show ?thesis
    using assms(5) by (auto simp: list_device_def is_Exception_def)
qed

text \<open>The file systems reported are those of findmnt without AppImages and portals, each of them as it was or, where findmnt gave no size, with nothing but a size from the block device added.\<close>

theorem filesystems_only_gain_sizes:
  assumes "filesystems_list de = Inr (JList ds)" and "v \<in> set ds"
  shows "\<exists>d fss fs fstype. de_findmnt de = Inr (JObj d) \<and> dict_get d ''filesystems'' = Some fss
    \<and> (\<exists>items. iterated fss = Inr items \<and> JObj fs \<in> set items)
    \<and> dict_get fs ''fstype'' = Some (JStr fstype) \<and> \<not> suffix ''.appimage'' (py_lower fstype) \<and> fstype \<noteq> ''fuse.portal''
    \<and> (v = JObj fs \<or> (dict_get fs ''size'' = Some JNull \<and> (\<exists>n. v = JObj (dict_set fs ''size'' (JInt n)))))"
proof -
  obtain d fss items where d: "de_findmnt de = Inr (JObj d)" "dict_get d ''filesystems'' = Some fss" "iterated fss = Inr items"
      "each (filesystem de) items = Inr ds"
    using assms(1) by (auto simp: filesystems_list_def split: sum.splits json.splits option.splits if_splits)
  then obtain x zs where x: "x \<in> set items" "filesystem de x = Inr zs" "v \<in> set zs"
    using each_mem assms(2) by metis
  obtain fs where fs: "x = JObj fs"
    using x(2) by (cases x) (auto simp: filesystem_def)
  obtain fstype where t: "dict_get fs ''fstype'' = Some (JStr fstype)"
    using x(2) by (auto simp: filesystem_def fs fs_field_def not_a_string_def split: sum.splits option.splits json.splits)
  have "\<not> suffix ''.appimage'' (py_lower fstype) \<and> fstype \<noteq> ''fuse.portal''" and "sized_fs de fs = Inr zs"
    using x(2,3) by (auto simp: filesystem_def fs fs_field_def t not_a_string_def split: if_splits)
  moreover have "v = JObj fs \<or> (dict_get fs ''size'' = Some JNull \<and> (\<exists>n. v = JObj (dict_set fs ''size'' (JInt n))))"
    using \<open>sized_fs de fs = Inr zs\<close> x(3)
    by (auto simp: sized_fs_def fs_field_def split: sum.splits option.splits if_splits)
  ultimately show ?thesis
    using d x(1) fs t by blast
qed

text \<open>The value of a line of /proc/meminfo.\<close>

definition mem_value :: "string \<Rightarrow> string" where
  "mem_value line = strip (last_part (CHR '':'') line)"

lemma scan_meminfo_irrelevant:
  "list_all (\<lambda>l. \<not> prefix ''MemTotal'' l \<and> \<not> prefix ''SwapTotal'' l) ls
   \<Longrightarrow> \<not> (found_value m \<and> found_value s) \<Longrightarrow> scan_meminfo (ls @ rest) (m, s) = scan_meminfo rest (m, s)"
  by (induction ls) auto

text \<open>With one line for the memory and one after it for the swap space, both not blank, get\_ram returns their values, whatever other lines there are and even if reading fails behind them.\<close>

theorem ram_found:
  assumes "de_meminfo de = Inr (a @ mem # b @ swap # c, err)"
    and "list_all (\<lambda>l. \<not> prefix ''MemTotal'' l \<and> \<not> prefix ''SwapTotal'' l) (a @ b)"
    and "prefix ''MemTotal'' mem" and "prefix ''SwapTotal'' swap" and "mem_value mem \<noteq> []" and "mem_value swap \<noteq> []"
  shows "get_ram de = Inr (Some (mem_value mem), Some (mem_value swap))"
proof -
  have ns: "\<not> prefix ''MemTotal'' swap"
    using assms(4) by (auto simp: prefix_def)
  have "scan_meminfo (a @ mem # b @ swap # c) (None, None) = scan_meminfo (mem # b @ swap # c) (None, None)"
    using assms(2) by (intro scan_meminfo_irrelevant) (auto simp: found_value_def)
  also have "\<dots> = scan_meminfo (b @ swap # c) (Some (mem_value mem), None)"
    using assms(3) by (simp add: mem_value_def found_value_def)
  also have "\<dots> = scan_meminfo (swap # c) (Some (mem_value mem), None)"
    using assms(2) by (intro scan_meminfo_irrelevant) (auto simp: found_value_def)
  also have "\<dots> = (Some (mem_value mem), Some (mem_value swap))"
    using assms(4-6) ns by (simp add: mem_value_def found_value_def split: list.split)
  finally show ?thesis
    using assms(5,6) by (simp add: get_ram_def assms(1) found_value_def split: option.split list.split)
qed

section \<open>Witnesses\<close>

definition sample_de :: dev_env where
  "sample_de = \<lparr>de_dir = (\<lambda>_. Inl FileNotFoundError), de_text = (\<lambda>_. Inl FileNotFoundError), de_bytes = (\<lambda>_. Inl FileNotFoundError),
     de_children = (\<lambda>_ _. Inr [''/battery'']), de_prop = (\<lambda>_ _ _ name. if name = ''Model'' then Inl (DBusError ''Failed'' ''x'') else Inr (JInt 1)),
     de_str = (\<lambda>_. ''1''), de_float = (\<lambda>_. None), de_cp437 = (\<lambda>_. CHR ''?''),
     de_findmnt = Inr (JObj [(''filesystems'', JList [JObj [(''source'', JStr ''/dev/sda1''), (''fstype'', JStr ''ext4''), (''size'', JNull)]])]),
     de_eglinfo = Inl OSError, de_decode = Inr,
     de_meminfo = Inr ([''MemTotal: 16 kB'', ''MemFree: 1 kB'', ''SwapTotal: 8 kB''], Some OSError),
     de_devmode = Inr False, de_branch = Inl OSError, de_release = Inl OSError, de_dmi = (\<lambda>_. Inl FileNotFoundError),
     de_cards = Inr []\<rparr>"

lemma sample_batteries: "batteries_list sample_de = Inl (DBusError ''Failed'' ''x'')"
  by code_simp

theorem unavailable_property_hides_batteries_witness:
  "list_device \<lparr>ty_name = ''Batteries'', ty_version = 1, ty_list = batteries_list sample_de\<rparr> = Inr JNull"
  by (rule unavailable_property_hides_batteries [where children = "[''/battery'']" and child = "''/battery''" and name = "''Model''"
      and etype = "''Failed''" and reason = "''x''"])
    (simp_all add: sample_batteries battery_props_def, simp_all add: sample_de_def)

lemma sample_filesystems:
  "filesystems_list sample_de = Inr (JList [JObj [(''source'', JStr ''/dev/sda1''), (''fstype'', JStr ''ext4''), (''size'', JInt 1)]])"
  by code_simp

theorem filesystems_only_gain_sizes_witness:
  "\<exists>fs. let v = JObj [(''source'', JStr ''/dev/sda1''), (''fstype'', JStr ''ext4''), (''size'', JInt 1)] in
     v = JObj fs \<or> dict_get fs ''size'' = Some JNull \<and> (\<exists>n. v = JObj (dict_set fs ''size'' (JInt n)))"
  using filesystems_only_gain_sizes [OF sample_filesystems list.set_intros(1)] by (metis (no_types))

theorem ram_found_witness: "get_ram sample_de = Inr (Some ''16 kB'', Some ''8 kB'')"
proof -
  have "mem_value ''MemTotal: 16 kB'' = ''16 kB''" "mem_value ''SwapTotal: 8 kB'' = ''8 kB''"
    by code_simp+
  then show ?thesis
    using ram_found [of sample_de "[]" "''MemTotal: 16 kB''" "[''MemFree: 1 kB'']" "''SwapTotal: 8 kB''" "[]" "Some OSError"]
    by (simp add: sample_de_def)
qed

end
