(* ===== verification/Dbus.thy ===== *)
theory Dbus imports Sentry "HOL-Library.Word" begin

text \<open>
  \<^verbatim>\<open>steamos_log_submitter/dbus.py\<close>: D-Bus signatures of Python types, the variants of Python values,
  match rules, the connection to the system bus, and proxies with their interfaces, signals and property
  subscriptions. The bus and what it knows of other processes are the library's;
  what they answer is a parameter.
\<close>

section \<open>Signatures\<close>

text \<open>A type annotation: the four plain types, a generic type by its origin and arguments, a union, or
  any other annotation, which has no origin or one that has no signature.\<close>

datatype pytype =
    PyInt | PyFloat | PyBool | PyStr | PyUnion "pytype list"
  | PyMapping "pytype list" | PyTuple "pytype list" | PySequence "pytype list" | PyOther

fun signature :: "pytype \<Rightarrow> string result" and signatures :: "pytype list \<Rightarrow> string list result" where
  "signature PyInt = Inr ''i''"
| "signature PyFloat = Inr ''d''"
| "signature PyBool = Inr ''b''"
| "signature PyStr = Inr ''s''"
| "signature (PyUnion ts) = Inr ''v''"
| "signature (PyMapping (k # v # ts)) = (case signature k of Inl e \<Rightarrow> Inl e
     | Inr a \<Rightarrow> (case signature v of Inl e \<Rightarrow> Inl e | Inr b \<Rightarrow> Inr (''a{'' @ a @ b @ ''}'')))"
| "signature (PyMapping [k]) = (case signature k of Inl e \<Rightarrow> Inl e | Inr a \<Rightarrow> Inl IndexError)"
| "signature (PyMapping []) = Inl IndexError"
| "signature (PyTuple ts) = (case signatures ts of Inl e \<Rightarrow> Inl e | Inr ss \<Rightarrow> Inr (''('' @ concat ss @ '')''))"
| "signature (PySequence (t # ts)) = (case signature t of Inl e \<Rightarrow> Inl e | Inr a \<Rightarrow> Inr (''a'' @ a))"
| "signature (PySequence []) = Inl IndexError"
| "signature PyOther = Inl TypeError"
| "signatures [] = Inr []"
| "signatures (t # ts) = (case signature t of Inl e \<Rightarrow> Inl e
     | Inr a \<Rightarrow> (case signatures ts of Inl e \<Rightarrow> Inl e | Inr ss \<Rightarrow> Inr (a # ss)))"

text \<open>\<^verbatim>\<open>fn_signature\<close>: the parameters after the first, by name, and the result if it is annotated.\<close>

fun param_signatures :: "(string \<times> pytype) list \<Rightarrow> (string \<times> string) list result" where
  "param_signatures [] = Inr []"
| "param_signatures ((name, t) # ps) = (case signature t of Inl e \<Rightarrow> Inl e
     | Inr s \<Rightarrow> (case param_signatures ps of Inl e \<Rightarrow> Inl e | Inr rest \<Rightarrow> Inr ((name, s) # rest)))"

definition fn_signature :: "(string \<times> pytype) list \<Rightarrow> pytype option \<Rightarrow> ((string \<times> string) list \<times> string option) result" where
  "fn_signature params ret = (case param_signatures (tl params) of
       Inl e \<Rightarrow> Inl e
     | Inr ps \<Rightarrow> (case ret of
         None \<Rightarrow> Inr (ps, None)
       | Some t \<Rightarrow> (case signature t of Inl e \<Rightarrow> Inl e | Inr s \<Rightarrow> Inr (ps, Some s))))"

text \<open>\<^verbatim>\<open>adbusify\<close> and \<^verbatim>\<open>dbusify\<close>: the function with its signature attached; the asynchronous
  one insists that calling the function gives a coroutine, which it awaits.\<close>

datatype 'a called = Coroutine "'a result" | Returned 'a

definition await_called :: "'a called result \<Rightarrow> 'a result" where
  "await_called c = (case c of Inl e \<Rightarrow> Inl e | Inr (Coroutine r) \<Rightarrow> r | Inr (Returned v) \<Rightarrow> Inl AssertionError)"

definition adbusify :: "(string \<times> pytype) list \<Rightarrow> pytype option \<Rightarrow> ('v list \<Rightarrow> 'a called result) \<Rightarrow>
    (('v list \<Rightarrow> 'a result) \<times> (string \<times> string) list \<times> string option) result" where
  "adbusify params ret fn = (case fn_signature params ret of
       Inl e \<Rightarrow> Inl e | Inr sig \<Rightarrow> Inr (\<lambda>args. await_called (fn args), sig))"

definition dbusify :: "(string \<times> pytype) list \<Rightarrow> pytype option \<Rightarrow> ('v list \<Rightarrow> 'a result) \<Rightarrow>
    (('v list \<Rightarrow> 'a result) \<times> (string \<times> string) list \<times> string option) result" where
  "dbusify params ret fn = (case fn_signature params ret of
       Inl e \<Rightarrow> Inl e | Inr sig \<Rightarrow> Inr (\<lambda>args. fn args, sig))"

section \<open>Variants\<close>

text \<open>A value to send; floats are left abstract.\<close>

datatype 'f datum = DtBool bool | DtInt int | DtFloat 'f | DtStr string | DtBytes "8 word list" | DtOther

datatype 'f variant = Variant (var_signature: string) (var_value: "'f datum")

text \<open>\<open>as_float\<close> is \<^verbatim>\<open>float\<close> of an integer, which fails when it is too large.\<close>

definition to_variant :: "(int \<Rightarrow> 'f result) \<Rightarrow> 'f datum \<Rightarrow> 'f variant result" where
  "to_variant as_float datum =
     (let dbl = (\<lambda>n. case as_float n of Inl e \<Rightarrow> Inl e | Inr f \<Rightarrow> Inr (Variant ''d'' (DtFloat f))) in
      case datum of
        DtBool b \<Rightarrow> Inr (Variant ''b'' datum)
      | DtInt n \<Rightarrow>
         (if n \<ge> 0x10000000000000000 then dbl n
          else if n \<ge> 0x100000000 then Inr (Variant ''t'' datum)
          else if n \<ge> 0x80000000 then Inr (Variant ''u'' datum)
          else if n < - 0x8000000000000000 then dbl n
          else if n < - 0x80000000 then Inr (Variant ''x'' datum)
          else Inr (Variant ''i'' datum))
      | DtFloat f \<Rightarrow> Inr (Variant ''d'' datum)
      | DtStr s \<Rightarrow> Inr (Variant ''s'' datum)
      | DtBytes bs \<Rightarrow> Inr (Variant ''ay'' datum)
      | DtOther \<Rightarrow> Inl NotImplementedError)"

section \<open>Match rules\<close>

text \<open>
  \<^verbatim>\<open>_tokenize_string\<close>. The rest begins at the index the loop stopped at: at the delimiter, or at the
  last character when there is none.
\<close>

definition token_char :: "char \<Rightarrow> bool \<times> bool \<times> string \<Rightarrow> bool \<times> bool \<times> string" where
  "token_char c = (\<lambda>(quoted, escaping, buffer).
     (if c = CHR 0x27 then
        (if escaping then (quoted, False, buffer @ [c])
         else (\<not> quoted, escaping, buffer))
      else if c = CHR 0x5C then
        (if escaping then (quoted, False, buffer @ [c])
         else if quoted then (quoted, escaping, buffer @ [c])
         else (quoted, True, buffer))
      else (quoted, False, (if escaping then buffer @ [CHR 0x5C] else buffer) @ [c])))"

definition token_end :: "bool \<times> bool \<times> string \<Rightarrow> string" where
  "token_end = (\<lambda>(quoted, escaping, buffer). if escaping then buffer @ [CHR 0x5C] else buffer)"

fun token_loop :: "char \<Rightarrow> bool \<times> bool \<times> string \<Rightarrow> string \<Rightarrow> string \<times> string" where
  "token_loop delimiter st [] = (token_end st, [])"
| "token_loop delimiter st (c # cs) =
     (if c = delimiter \<and> \<not> fst st then (token_end st, c # cs)
      else if cs = [] then (token_end (token_char c st), [c])
      else token_loop delimiter (token_char c st) cs)"

definition tokenize_string :: "string \<Rightarrow> char \<Rightarrow> string \<times> string" where
  "tokenize_string raw delimiter = token_loop delimiter (False, False, []) raw"

lemma token_loop_length: "length (snd (token_loop d st s)) \<le> length s"
proof (induction s arbitrary: st)
  case (Cons c cs)
  show ?case using Cons.IH [of "token_char c st"] by (simp add: le_SucI)
qed simp

lemma tokenize_length: "tokenize_string raw d = (tok, rest) \<Longrightarrow> length rest \<le> length raw"
  using token_loop_length [of d "(False, False, [])" raw] by (simp add: tokenize_string_def)

lemma pair_shorter:
  assumes "raw \<noteq> []" and "(key, raw1) = tokenize_string raw d" and "raw1 \<noteq> []"
    and "(v, raw2) = tokenize_string (tl raw1) d'" and "raw2 \<noteq> []"
  shows "length raw2 - Suc 0 < length raw"
  using assms tokenize_length [OF assms(2) [symmetric]] tokenize_length [OF assms(4) [symmetric]]
  by (cases raw1; cases raw2) auto

function parse_pairs :: "string \<Rightarrow> (string, string) dict \<Rightarrow> (string, string) dict" where
  "parse_pairs raw kv =
     (if raw = [] then kv
      else (case tokenize_string raw (CHR ''='') of (key, raw1) \<Rightarrow>
        (if raw1 = [] then kv
         else (case tokenize_string (tl raw1) (CHR '','') of (v, raw2) \<Rightarrow>
           (if raw2 = [] then kv else parse_pairs (tl raw2) (dict_set kv key v))))))"
  by pat_completeness auto
termination
  by (relation "measure (length \<circ> fst)") (auto intro: pair_shorter)

declare parse_pairs.simps [simp del]

definition parse_string :: "string \<Rightarrow> (string, string) dict" where
  "parse_string raw = parse_pairs raw []"

record match_rule =
  mr_raw :: string
  mr_type :: "string option"
  mr_sender :: "string option"
  mr_interface :: "string option"
  mr_member :: "string option"
  mr_path :: "string option"
  mr_path_namespace :: "string option"
  mr_destination :: "string option"
  mr_args :: "string option list"
  mr_args_path :: "string option list"
  mr_arg0namespace :: "string option"
  mr_eavesdrop :: "string option"

definition new_match_rule :: "string \<Rightarrow> match_rule" where
  "new_match_rule rule =
     (let parts = parse_string rule; g = dict_get parts in
      \<lparr>mr_raw = rule, mr_type = g ''type'', mr_sender = g ''sender'', mr_interface = g ''interface'',
       mr_member = g ''member'', mr_path = g ''path'', mr_path_namespace = g ''path_namespace'',
       mr_destination = g ''destination'',
       mr_args = map (\<lambda>i. g (''arg'' @ show_nat i)) [0..<64],
       mr_args_path = map (\<lambda>i. g (''arg'' @ show_nat i @ ''path'')) [0..<64],
       mr_arg0namespace = g ''arg0namespace'', mr_eavesdrop = g ''eavesdrop''\<rparr>)"

record message =
  msg_destination :: "string option"
  msg_sender :: "string option"
  msg_path :: "string option"
  msg_interface :: "string option"
  msg_member :: "string option"
  msg_body :: "(string, json) dict list"      \<comment> \<open>the arguments that are dictionaries of variants, by their values\<close>

definition other_than :: "string option \<Rightarrow> string option \<Rightarrow> bool" where
  "other_than want have = (want \<noteq> None \<and> want \<noteq> have)"

definition matches :: "match_rule \<Rightarrow> message \<Rightarrow> bool" where
  "matches r msg =
     (if other_than (mr_destination r) (msg_destination msg) then False
      else if other_than (mr_sender r) (msg_sender msg) then False
      else if other_than (mr_path r) (msg_path msg) then False
      else if (case (mr_path_namespace r, msg_path msg) of
          (Some ns, Some p) \<Rightarrow> ns \<noteq> p \<and> \<not> prefix (ns @ ''/'') p | _ \<Rightarrow> False) then False
      else if other_than (mr_interface r) (msg_interface msg) then False
      else if other_than (mr_member r) (msg_member msg) then False
      else True)"

text \<open>\<^verbatim>\<open>add_match_rule\<close>: the bus accepts the rule, or not, and then the handler is installed.\<close>

datatype reply = MethodReturn | OtherReply

definition add_match_rule :: "reply option result \<Rightarrow> match_rule \<Rightarrow> 'h \<Rightarrow> (match_rule \<times> 'h) list \<Rightarrow> bool result \<times> (match_rule \<times> 'h) list" where
  "add_match_rule reply rule fn handlers = (case reply of
       Inl e \<Rightarrow> (Inl e, handlers)
     | Inr (Some MethodReturn) \<Rightarrow> (Inr True, handlers @ [(rule, fn)])
     | Inr _ \<Rightarrow> (Inr False, handlers))"

text \<open>The handlers a message reaches.\<close>

definition message_handlers :: "(match_rule \<times> 'h) list \<Rightarrow> message \<Rightarrow> 'h list" where
  "message_handlers handlers msg = map snd (filter (\<lambda>(rule, fn). matches rule msg) handlers)"

section \<open>The system bus\<close>

text \<open>The two globals of the module: the bus that was made last, told apart by its number, and whether
  connecting it was completed. What the library answers is an environment: whether a bus is made and
  connected, what introspecting an object over a given bus gives, whether the object has an interface and
  the interface a signal, and what its methods return.\<close>

record bus_state =
  bs_made :: nat
  system_bus :: "nat option"
  bs_connected :: bool

record 'v bus_env =
  be_make :: "unit result"
  be_connect :: "unit result"
  be_introspect :: "nat \<Rightarrow> unit result"
  be_interface :: "string \<Rightarrow> unit result"
  be_signal :: "string \<Rightarrow> string \<Rightarrow> unit result"
  be_call :: "string \<Rightarrow> string \<Rightarrow> 'v list \<Rightarrow> 'v result"

definition bus_start :: bus_state where
  "bus_start = \<lparr>bs_made = 0, system_bus = None, bs_connected = False\<rparr>"

definition bus_connect :: "'v bus_env \<Rightarrow> bus_state \<Rightarrow> unit result \<times> bus_state" where
  "bus_connect env st =
     (if bs_connected st then (Inr (), st)
      else (case be_make env of
          Inl e \<Rightarrow> (Inl e, st)
        | Inr _ \<Rightarrow>
           (let st1 = st\<lparr>bs_made := Suc (bs_made st), system_bus := Some (bs_made st)\<rparr>
            in (case be_connect env of
                Inl e \<Rightarrow> (Inl e, st1)
              | Inr _ \<Rightarrow> (Inr (), st1\<lparr>bs_connected := True\<rparr>)))))"

section \<open>Objects and their properties\<close>

text \<open>A proxy object: the bus it holds, whether it counts as connected, and how often it was introspected.
  Nothing sets the mark when it is connected.\<close>

record bus_object =
  bo_bus :: "nat option"
  bo_connected :: bool
  bo_introspected :: nat

definition new_bus_object :: "bus_state \<Rightarrow> bus_object" where
  "new_bus_object st = \<lparr>bo_bus = system_bus st, bo_connected = False, bo_introspected = 0\<rparr>"

type_synonym bus_view = "bus_state \<times> bus_object"

definition obj_connect :: "'v bus_env \<Rightarrow> bus_view \<Rightarrow> unit result \<times> bus_view" where
  "obj_connect env s = (case s of (st, ob) \<Rightarrow>
     (if bo_connected ob then (Inr (), s)
      else (case (if bs_connected st then (Inr (), st) else bus_connect env st) of
          (Inl e, st') \<Rightarrow> (Inl e, (st', ob))
        | (Inr _, st') \<Rightarrow>
           (let ob1 = (if bo_bus ob = None then ob\<lparr>bo_bus := system_bus st'\<rparr> else ob)
            in (case bo_bus ob1 of
                None \<Rightarrow> (Inl AssertionError, (st', ob1))
              | Some b \<Rightarrow> (be_introspect env b, (st', ob1\<lparr>bo_introspected := Suc (bo_introspected ob1)\<rparr>)))))))"

definition list_children :: "'v bus_env \<Rightarrow> string list \<Rightarrow> bus_view \<Rightarrow> string list result \<times> bus_view" where
  "list_children env child_paths s = (case obj_connect env s of
       (Inl e, s') \<Rightarrow> (Inl e, s') | (Inr _, s') \<Rightarrow> (Inr child_paths, s'))"

text \<open>\<^verbatim>\<open>DBusObject.subscribe\<close>: the callbacks installed on the object's signals, by interface and by
  the signal's name as the library spells it (\<open>snake\<close>).\<close>

definition obj_subscribe :: "'v bus_env \<Rightarrow> (string \<Rightarrow> string) \<Rightarrow> string \<Rightarrow> string \<Rightarrow> 'h \<Rightarrow>
    (string \<times> string \<times> 'h) list \<Rightarrow> bus_view \<Rightarrow> unit result \<times> (string \<times> string \<times> 'h) list \<times> bus_view" where
  "obj_subscribe env snake iface signal cb cbs s = (case obj_connect env s of
       (Inl e, s') \<Rightarrow> (Inl e, cbs, s')
     | (Inr _, s') \<Rightarrow> (case be_interface env iface of
          Inl e \<Rightarrow> (Inl e, cbs, s')
        | Inr _ \<Rightarrow> (case be_signal env iface (''on_'' @ snake signal) of
             Inl e \<Rightarrow> (Inl e, cbs, s')
           | Inr _ \<Rightarrow> (Inr (), cbs @ [(iface, snake signal, cb)], s'))))"

text \<open>The subscriptions of one interface; \<open>sb_listening\<close> counts the registrations for its signal.\<close>

record 'h subscriptions =
  sb_handlers :: "(string, 'h list) dict"
  sb_listening :: nat

definition properties_iface :: string where
  "properties_iface = ''org.freedesktop.DBus.Properties''"

definition listen :: "'v bus_env \<Rightarrow> 'h subscriptions \<Rightarrow> unit result \<times> 'h subscriptions" where
  "listen env sb =
     (if sb_handlers sb \<noteq> [] then (Inr (), sb)
      else (case be_interface env properties_iface of
          Inl e \<Rightarrow> (Inl e, sb)
        | Inr _ \<Rightarrow> (case be_signal env properties_iface ''on_properties_changed'' of
             Inl e \<Rightarrow> (Inl e, sb)
           | Inr _ \<Rightarrow> (Inr (), sb\<lparr>sb_listening := Suc (sb_listening sb)\<rparr>))))"

definition subscribe :: "'v bus_env \<Rightarrow> string \<Rightarrow> 'h \<Rightarrow> 'h subscriptions \<Rightarrow> bus_view \<Rightarrow> unit result \<times> 'h subscriptions \<times> bus_view" where
  "subscribe env prop cb sb s = (case obj_connect env s of
       (Inl e, s') \<Rightarrow> (Inl e, sb, s')
     | (Inr _, s') \<Rightarrow> (case listen env sb of
          (Inl e, sb1) \<Rightarrow> (Inl e, sb1, s')
        | (Inr _, sb1) \<Rightarrow>
           (Inr (), sb1\<lparr>sb_handlers := dict_set (sb_handlers sb1) prop (dict_getd (sb_handlers sb1) prop [] @ [cb])\<rparr>, s')))"

text \<open>\<^verbatim>\<open>_update_props\<close>: the tasks it creates, each with a handler, the property and its new value, or
  None for a property that was only invalidated.\<close>

definition update_props :: "'h subscriptions \<Rightarrow> (string \<times> 'v) list \<Rightarrow> string list \<Rightarrow> ('h \<times> string \<times> 'v option) list" where
  "update_props sb changed invalidated =
     concat (map (\<lambda>(prop, v). map (\<lambda>h. (h, prop, Some v)) (dict_getd (sb_handlers sb) prop [])) changed)
     @ concat (map (\<lambda>prop. map (\<lambda>h. (h, prop, None)) (dict_getd (sb_handlers sb) prop [])) invalidated)"

text \<open>\<^verbatim>\<open>do_cb\<close>: what a handler is called with; an invalidated property is asked for, through an interface
  that only reading a property before has set up.\<close>

definition do_cb :: "bool \<Rightarrow> (string \<Rightarrow> 'v result) \<Rightarrow> string \<Rightarrow> 'h \<times> string \<times> 'v option \<Rightarrow> (string \<times> string \<times> 'v) result" where
  "do_cb has_iface call_get iface task = (case task of (h, prop, v) \<Rightarrow>
     (case v of
        Some x \<Rightarrow> Inr (iface, prop, x)
      | None \<Rightarrow> (if \<not> has_iface then Inl AssertionError
          else (case call_get prop of Inl e \<Rightarrow> Inl e | Inr x \<Rightarrow> Inr (iface, prop, x)))))"

text \<open>Using an interface of an object: the proxy's handle is made by the first use (its presence is the
  first component of the state) and kept, and \<open>call\<close> is what is asked of it.\<close>

definition with_handle :: "'v bus_env \<Rightarrow> string \<Rightarrow> 'a result \<Rightarrow> bool \<times> bus_view \<Rightarrow> 'a result \<times> bool \<times> bus_view" where
  "with_handle env iface call s = (case s of (handle, v) \<Rightarrow>
     (if handle then (call, (handle, v))
      else (case obj_connect env v of
          (Inl e, v') \<Rightarrow> (Inl e, (False, v'))
        | (Inr _, v') \<Rightarrow> (case be_interface env iface of
            Inl e \<Rightarrow> (Inl e, (False, v')) | Inr _ \<Rightarrow> (call, (True, v'))))))"

text \<open>A method of an interface by its name, reading a property, and writing one.\<close>

definition iface_call :: "'v bus_env \<Rightarrow> string \<Rightarrow> string \<Rightarrow> 'v list \<Rightarrow> bool \<times> bus_view \<Rightarrow> 'v result \<times> bool \<times> bus_view" where
  "iface_call env iface name args = with_handle env iface (be_call env iface (''call_'' @ name) args)"

definition prop_get :: "'v bus_env \<Rightarrow> ('v \<Rightarrow> 'v) \<Rightarrow> (string \<Rightarrow> 'v) \<Rightarrow> string \<Rightarrow> string \<Rightarrow> bool \<times> bus_view \<Rightarrow> 'v result \<times> bool \<times> bus_view" where
  "prop_get env variant_value str iface name =
     with_handle env properties_iface
       (map_sum id variant_value (be_call env properties_iface ''call_get'' [str iface, str name]))"

definition prop_set :: "'v bus_env \<Rightarrow> (string \<Rightarrow> string) \<Rightarrow> string \<Rightarrow> string \<Rightarrow> 'v \<Rightarrow> bool \<times> bus_view \<Rightarrow> 'v result \<times> bool \<times> bus_view" where
  "prop_set env snake iface name v = with_handle env iface (be_call env iface (''set_'' @ snake name) [v])"

definition obj_interface :: "'v bus_env \<Rightarrow> string \<Rightarrow> bus_view \<Rightarrow> (string \<times> bool) result \<times> bus_view" where
  "obj_interface env iface s = (case obj_connect env s of
       (Inl e, s') \<Rightarrow> (Inl e, s') | (Inr _, s') \<Rightarrow> (Inr (iface, False), s'))"

subsection \<open>Connecting\<close>

text \<open>Whatever is asked, a bus that is connected stays the one bus of the module, and one is there.\<close>

definition bus_ok :: "bus_state \<Rightarrow> bool" where
  "bus_ok st \<longleftrightarrow> (bs_connected st \<longrightarrow> system_bus st \<noteq> None) \<and> (\<forall>b. system_bus st = Some b \<longrightarrow> b < bs_made st)"

lemma bus_ok_connect: "bus_ok st \<Longrightarrow> bus_ok (snd (bus_connect env st))"
  by (auto simp: bus_ok_def bus_connect_def Let_def split: sum.split)

lemma bus_connect_done: "bus_connect env st = (Inr u, st') \<Longrightarrow> bs_connected st'"
  by (auto simp: bus_connect_def Let_def split: if_splits sum.splits)

lemma bus_connect_keeps: "bs_connected st \<Longrightarrow> snd (bus_connect env st) = st"
  by (simp add: bus_connect_def)

lemma obj_connect_state:
  "fst (snd (obj_connect env (st, ob))) = (if bo_connected ob then st else snd (bus_connect env st))"
  by (auto simp: obj_connect_def bus_connect_def Let_def split: sum.split option.split)

text \<open>The assertion never fails: once the bus is connected there is one to hold.\<close>

lemma assertion_holds:
  assumes "bus_ok st" and "be_make env \<noteq> Inl AssertionError" and "be_connect env \<noteq> Inl AssertionError"
    and "\<And>b. be_introspect env b \<noteq> Inl AssertionError"
  shows "fst (obj_connect env (st, ob)) \<noteq> Inl AssertionError"
  using assms by (auto simp: obj_connect_def bus_connect_def bus_ok_def Let_def split: sum.split option.split)

text \<open>An object that is made after connecting failed holds the bus that failed, and goes on asking that
  one although another has been connected since.\<close>

theorem object_keeps_the_failed_bus:
  assumes "\<not> bs_connected st" and "be_make env = Inr ()" and "be_connect env = Inl e"
    and "be_make env' = Inr ()" and "be_connect env' = Inr ()"
  shows "let st1 = snd (bus_connect env st); ob = new_bus_object st1; (r, st2, ob2) = obj_connect env' (st1, ob)
    in bs_connected st2 \<and> system_bus st2 = Some (Suc (bs_made st)) \<and> r = be_introspect env' (bs_made st)"
  using assms by (simp add: bus_connect_def obj_connect_def new_bus_object_def Let_def)

text \<open>A first connection that is refused, a second that is accepted, and the same bus refusing the rest.\<close>

definition bus_env_of :: "unit result \<Rightarrow> nat bus_env" where
  "bus_env_of r = \<lparr>be_make = Inr (), be_connect = r, be_introspect = (\<lambda>b. if b = 0 then Inl OSError else Inr ()),
     be_interface = (\<lambda>_. Inr ()), be_signal = (\<lambda>_ _. Inr ()), be_call = (\<lambda>_ _ _. Inr 0)\<rparr>"

lemma object_keeps_the_failed_bus_witness:
  "let st1 = snd (bus_connect (bus_env_of (Inl OSError)) bus_start); ob = new_bus_object st1;
       (r, st2, ob2) = obj_connect (bus_env_of (Inr ())) (st1, ob)
    in bs_connected st2 \<and> system_bus st2 = Some 1 \<and> r = Inl OSError"
  using object_keeps_the_failed_bus [of bus_start "bus_env_of (Inl OSError)" OSError "bus_env_of (Inr ())"]
  by (simp add: bus_env_of_def bus_start_def)

section \<open>Integers on the wire\<close>

text \<open>What the receiver reads of an integer that is sent with a signature: the machine word.\<close>

definition wire_read :: "string \<Rightarrow> int \<Rightarrow> int option" where
  "wire_read sig n =
     (if sig = ''i'' then Some (sint (word_of_int n :: 32 word))
      else if sig = ''u'' then Some (uint (word_of_int n :: 32 word))
      else if sig = ''x'' then Some (sint (word_of_int n :: 64 word))
      else if sig = ''t'' then Some (uint (word_of_int n :: 64 word)) else None)"

text \<open>C38. Every integer that a 64 bit word can hold, signed or unsigned, is sent as an integer and read back unchanged; only larger ones become floating point numbers.\<close>

theorem integer_survives_the_wire:
  "if - (2 ^ 63) \<le> n \<and> n < 2 ^ 64
   then \<exists>sig. to_variant as_float (DtInt n) = Inr (Variant sig (DtInt n)) \<and> wire_read sig n = Some n
   else to_variant as_float (DtInt n) = map_sum id (\<lambda>f. Variant ''d'' (DtFloat f)) (as_float n)"
proof -
  have s32: "sint (word_of_int n :: 32 word) = n" if "- (2 ^ 31) \<le> n" "n < 2 ^ 31"
    using that by (simp add: sint_sbintrunc' signed_take_bit_int_eq_self)
  have s64: "sint (word_of_int n :: 64 word) = n" if "- (2 ^ 63) \<le> n" "n < 2 ^ 63"
    using that by (simp add: sint_sbintrunc' signed_take_bit_int_eq_self)
  have u32: "uint (word_of_int n :: 32 word) = n" if "0 \<le> n" "n < 2 ^ 32"
    using that by (simp add: uint_word_of_int)
  have u64: "uint (word_of_int n :: 64 word) = n" if "0 \<le> n" "n < 2 ^ 64"
    using that by (simp add: uint_word_of_int)
  show ?thesis
    using s32 s64 u32 u64
    by (auto simp: to_variant_def wire_read_def Let_def map_sum_def split: sum.split)
qed

section \<open>Match rules round trip\<close>

text \<open>A value in a rule, quoted, with its apostrophes outside the quotes.\<close>

definition quote_char :: "char \<Rightarrow> string" where
  "quote_char c = (if c = CHR 0x27 then [CHR 0x27, CHR 0x5C, CHR 0x27, CHR 0x27] else [c])"

definition quoted_value :: "string \<Rightarrow> string" where
  "quoted_value v = CHR 0x27 # concat (map quote_char v) @ [CHR 0x27]"

definition rule_text :: "(string \<times> string) list \<Rightarrow> string" where
  "rule_text kvs = join '','' (map (\<lambda>(k, v). k @ ''='' @ quoted_value v) kvs)"

definition plain_key :: "string \<Rightarrow> bool" where
  "plain_key k = (set k \<inter> {CHR ''='', CHR 0x27, CHR 0x5C} = {})"

lemma token_plain:
  "set k \<inter> {d, CHR 0x27, CHR 0x5C} = {} \<Longrightarrow> token_loop d (False, False, buf) (k @ d # rest) = (buf @ k, d # rest)"
  by (induction k arbitrary: buf) (auto simp: token_char_def token_end_def)

lemma token_quoted:
  "token_loop (CHR '','') (True, False, buf) (concat (map quote_char v) @ CHR 0x27 # rest)
    = (if rest = [] then (buf @ v, [CHR 0x27]) else token_loop (CHR '','') (False, False, buf @ v) rest)"
  by (induction v arbitrary: buf) (auto simp: token_char_def token_end_def quote_char_def)

lemma tokenize_key: "plain_key k \<Longrightarrow> tokenize_string (k @ CHR ''='' # rest) (CHR ''='') = (k, CHR ''='' # rest)"
  using token_plain [of k "CHR ''=''" "[]" rest] by (simp add: plain_key_def tokenize_string_def)

lemma tokenize_value:
  "tokenize_string (quoted_value v) (CHR '','') = (v, [CHR 0x27])"
  "tokenize_string (quoted_value v @ CHR '','' # rest) (CHR '','') = (v, CHR '','' # rest)"
  using token_quoted [of "[]" v "[]"] token_quoted [of "[]" v "CHR '','' # rest"]
  by (simp_all add: tokenize_string_def quoted_value_def token_char_def token_end_def)

lemma parse_pairs_rule:
  "list_all (plain_key \<circ> fst) kvs \<Longrightarrow> parse_pairs (rule_text kvs) kv = fold (\<lambda>(k, v) acc. dict_set acc k v) kvs kv"
proof (induction kvs arbitrary: kv)
  case Nil
  then show ?case by (simp add: rule_text_def parse_pairs.simps)
next
  case (Cons p kvs)
  obtain k v where p: "p = (k, v)" by (cases p)
  have k: "plain_key k" using Cons.prems by (simp add: p)
  show ?case
  proof (cases kvs)
    case Nil
    then have "rule_text (p # kvs) = k @ CHR ''='' # quoted_value v"
      by (simp add: rule_text_def p)
    then show ?thesis
      by (simp add: Nil p parse_pairs.simps [of "k @ CHR ''='' # quoted_value v"] tokenize_key [OF k] tokenize_value parse_pairs.simps [of "[]"])
  next
    case (Cons q qs)
    have "rule_text (p # kvs) = k @ CHR ''='' # quoted_value v @ CHR '','' # rule_text kvs"
      by (simp add: rule_text_def p local.Cons join_Cons)
    then show ?thesis
      using Cons.IH Cons.prems
      by (simp add: p parse_pairs.simps [of "k @ CHR ''='' # quoted_value v @ CHR '','' # rule_text kvs"] tokenize_key [OF k] tokenize_value)
  qed
qed

lemma fold_dict_set_distinct:
  "distinct (map fst kvs) \<Longrightarrow> set (map fst kvs) \<inter> set (dict_keys d) = {} \<Longrightarrow> fold (\<lambda>(k, v) acc. dict_set acc k v) kvs d = d @ kvs"
proof (induction kvs arbitrary: d)
  case (Cons p kvs)
  obtain k v where p: "p = (k, v)" by (cases p)
  have "dict_set d k v = d @ [(k, v)]"
    using Cons.prems(2) by (induction d) (auto simp: p dict_keys_def)
  then show ?case
    using Cons by (auto simp: p dict_keys_def)
qed simp

text \<open>C40. A match rule that is written with its values quoted is parsed back to exactly its pairs, whatever characters, commas and apostrophes included, the values have.\<close>

theorem match_rule_roundtrip:
  assumes "distinct (map fst kvs)" and "list_all (plain_key \<circ> fst) kvs"
  shows "parse_string (rule_text kvs) = kvs"
  using assms by (simp add: parse_string_def parse_pairs_rule fold_dict_set_distinct dict_keys_def)

theorem match_rule_roundtrip_witness:
  "parse_string (rule_text [(''member'', ''it's, ok''), (''path'', ''/a'')]) = [(''member'', ''it's, ok''), (''path'', ''/a'')]"
  by (rule match_rule_roundtrip) (simp_all add: plain_key_def)

text \<open>A namespace that is the root matches no object below it.\<close>

text \<open>Connecting an object does not mark it as connected, so that the next use introspects it again.\<close>

lemma objects_never_count_as_connected: "bo_connected (snd (snd (obj_connect env (st, ob)))) = bo_connected ob"
  by (auto simp: obj_connect_def Let_def split: prod.split sum.split option.split)

lemma invalidated_without_reading: "do_cb False call_get iface (h, prop, None) = Inl AssertionError"
  by (simp add: do_cb_def)

lemma root_namespace_matches_nothing:
  assumes "mr_path_namespace rule = Some ''/''" and "msg_path msg = Some (CHR ''/'' # c # p)" and "c \<noteq> CHR ''/''"
  shows "\<not> matches rule msg"
  using assms by (simp add: matches_def)

section \<open>Signatures are complete types\<close>

text \<open>The types of D-Bus that occur, and a reader of signatures: the first complete type of a text, and
  what is left. The fuel is a bound on the length.\<close>

datatype dtype = TInt | TDouble | TBool | TString | TVariant | TArray dtype | TDict dtype dtype | TStruct "dtype list"

fun read_type :: "nat \<Rightarrow> string \<Rightarrow> (dtype \<times> string) option"
  and read_types :: "nat \<Rightarrow> string \<Rightarrow> (dtype list \<times> string) option" where
  "read_type (Suc n) (c # s) =
     (if c = CHR ''i'' then Some (TInt, s) else if c = CHR ''d'' then Some (TDouble, s)
      else if c = CHR ''b'' then Some (TBool, s) else if c = CHR ''s'' then Some (TString, s)
      else if c = CHR ''v'' then Some (TVariant, s)
      else if c = CHR ''('' then map_option (\<lambda>(ts, r). (TStruct ts, r)) (read_types n s)
      else if c = CHR ''a'' then
        (if s \<noteq> [] \<and> hd s = CHR ''{''
         then (case read_type n (tl s) of
             None \<Rightarrow> None
           | Some (k, r) \<Rightarrow> (case read_type n r of
               Some (v, e # r') \<Rightarrow> (if e = CHR ''}'' then Some (TDict k v, r') else None)
             | _ \<Rightarrow> None))
         else map_option (\<lambda>(t, r). (TArray t, r)) (read_type n s))
      else None)"
| "read_type _ _ = None"
| "read_types (Suc n) s =
     (if s \<noteq> [] \<and> hd s = CHR '')'' then Some ([], tl s)
      else (case read_type n s of
          None \<Rightarrow> None
        | Some (t, r) \<Rightarrow> map_option (\<lambda>(ts, r'). (t # ts, r')) (read_types n r)))"
| "read_types 0 s = None"

fun dtype_of :: "pytype \<Rightarrow> dtype" where
  "dtype_of PyInt = TInt"
| "dtype_of PyFloat = TDouble"
| "dtype_of PyBool = TBool"
| "dtype_of PyStr = TString"
| "dtype_of (PyMapping (k # v # ts)) = TDict (dtype_of k) (dtype_of v)"
| "dtype_of (PyTuple ts) = TStruct (map dtype_of ts)"
| "dtype_of (PySequence (t # ts)) = TArray (dtype_of t)"
| "dtype_of _ = TVariant"

lemma signature_head:
  "signature t = Inr s \<Longrightarrow> s \<noteq> [] \<and> hd s \<noteq> CHR '')'' \<and> hd s \<noteq> CHR ''{''"
  by (cases t rule: signature.cases) (auto split: sum.splits)

lemma read_signature:
  "signature t = Inr s \<Longrightarrow> length s \<le> n \<Longrightarrow> read_type n (s @ rest) = Some (dtype_of t, rest)"
  "signatures ts = Inr ss \<Longrightarrow> length (concat ss) < n \<Longrightarrow> read_types n (concat ss @ CHR '')'' # rest) = Some (map dtype_of ts, rest)"
proof (induction t and ts arbitrary: s n rest and ss n rest rule: signature_signatures.induct)
  case (6 k v ts)
  obtain a b where ab: "signature k = Inr a" "signature v = Inr b" "s = ''a{'' @ a @ b @ ''}''"
    using 6(3) by (auto split: sum.splits)
  then obtain m where n: "n = Suc m" "length a \<le> m" "length b \<le> m"
    using 6(4) by (cases n) auto
  show ?case
    using 6(1) [OF ab(1) n(2)] 6(2) [OF ab(1,2) n(3)] by (simp add: ab(3) n(1))
next
  case (9 ts)
  obtain ss where ss: "signatures ts = Inr ss" "s = ''('' @ concat ss @ '')''"
    using 9(2) by (auto split: sum.splits)
  then obtain m where n: "n = Suc m" "length (concat ss) < m"
    using 9(3) by (cases n) auto
  show ?case
    using 9(1) [OF ss(1) n(2)] by (simp add: ss(2) n(1))
next
  case (10 t ts)
  obtain a where a: "signature t = Inr a" "s = CHR ''a'' # a"
    using 10(2) by (auto split: sum.splits)
  then obtain m where n: "n = Suc m" "length a \<le> m"
    using 10(3) by (cases n) auto
  show ?case
    using 10(1) [OF a(1) n(2)] signature_head [OF a(1)] by (simp add: a(2) n(1) hd_append)
next
  case (14 t ts)
  obtain a ss' where a: "signature t = Inr a" "signatures ts = Inr ss'" "ss = a # ss'"
    using 14(3) by (auto split: sum.splits)
  then obtain m where n: "n = Suc m" "length a \<le> m" "length (concat ss') < m"
    using 14(4) signature_head [OF a(1)] by (cases n; cases a) auto
  show ?case
    using 14(1) [OF a(1) n(2)] 14(2) [OF a(1,2) n(3)] signature_head [OF a(1)] by (simp add: a(3) n(1) hd_append)
qed (auto simp: Suc_le_eq gr0_conv_Suc split: sum.splits)



end
