(* ===== verification/Earlyoom.thy ===== *)
theory Earlyoom imports Dbus Submits Helper_Files begin

text \<open>
  How early OOM events reach the pending logs (\<^verbatim>\<open>helpers/earlyoom.py\<close>): the match rule the helper
  installs when it starts, and the handler that writes a log for every message the rule lets through.
\<close>

section \<open>The handler\<close>

definition earlyoom_rule :: string where
  "earlyoom_rule = ''type='signal',interface='com.steampowered.HoloEarlyoom',path='/com/steampowered/HoloEarlyoom',member='ProcessKilled'' @ [CHR 0x27]"

text \<open>\<^verbatim>\<open>startup\<close>: a rule that is not accepted is only logged.\<close>

definition earlyoom_startup :: "reply option result \<Rightarrow> 'h \<Rightarrow> (match_rule \<times> 'h) list \<Rightarrow> unit result \<times> (match_rule \<times> 'h) list" where
  "earlyoom_startup reply handle_log handlers =
     (case add_match_rule reply (new_match_rule earlyoom_rule) handle_log handlers of
        (Inl e, hs) \<Rightarrow> (Inl e, hs) | (Inr _, hs) \<Rightarrow> (Inr (), hs))"

text \<open>
  \<^verbatim>\<open>handle_log\<close> at a time in nanoseconds. A name with a slash is a path to another directory, where the
  file is opened or not; the files there are not modelled.
\<close>

definition earlyoom_handle_log :: "(json \<Rightarrow> string) \<Rightarrow> (json \<Rightarrow> string) \<Rightarrow> (string \<Rightarrow> unit result) \<Rightarrow> int \<Rightarrow> message
    \<Rightarrow> 'x world_scheme \<Rightarrow> unit result \<times> 'x world_scheme" where
  "earlyoom_handle_log str dumps elsewhere ts msg w = (case msg_body msg of
       [] \<Rightarrow> (Inl IndexError, w)
     | log # _ \<Rightarrow>
        (let fname = earlyoom_name str log ts in
         if CHR ''/'' \<in> set fname then (elsewhere fname, w)
         else (case pend_dir w ''earlyoom'' of
             None \<Rightarrow> (Inl FileNotFoundError, w)
           | Some d \<Rightarrow> (Inr (), set_pend ''earlyoom'' (dict_set d fname
               \<lparr>lf_text = dumps (JObj log), lf_mtime = ts div 1000000, lf_readable = True, lf_stat = True\<rparr>) w))))"

section \<open>Properties\<close>

lemma earlyoom_rule_text:
  "earlyoom_rule = rule_text [(''type'', ''signal''), (''interface'', ''com.steampowered.HoloEarlyoom''),
     (''path'', ''/com/steampowered/HoloEarlyoom''), (''member'', ''ProcessKilled'')]"
  by (simp add: earlyoom_rule_def rule_text_def quoted_value_def quote_char_def)

text \<open>The rule lets through exactly the messages of the object, interface and member of early OOM, whoever sends them.\<close>

lemma earlyoom_rule_matches:
  "matches (new_match_rule earlyoom_rule) msg \<longleftrightarrow>
     msg_interface msg = Some ''com.steampowered.HoloEarlyoom'' \<and> msg_path msg = Some ''/com/steampowered/HoloEarlyoom''
     \<and> msg_member msg = Some ''ProcessKilled''"
proof -
  have "parse_string earlyoom_rule = [(''type'', ''signal''), (''interface'', ''com.steampowered.HoloEarlyoom''),
     (''path'', ''/com/steampowered/HoloEarlyoom''), (''member'', ''ProcessKilled'')]"
    unfolding earlyoom_rule_text
    by (simp add: parse_string_def parse_pairs_rule plain_key_def dict_keys_def)
  then show ?thesis
    by (auto simp: new_match_rule_def matches_def other_than_def Let_def)
qed

text \<open>An event for a process is kept as a pending log that its submission reads back: once the rule is accepted, a matching message puts one more log into the directory, and submitting that log reports the process by name.\<close>

theorem earlyoom_event_is_submitted:
  assumes "earlyoom_startup (Inr (Some MethodReturn)) () handlers = (Inr (), handlers')"
    and "msg_interface msg = Some ''com.steampowered.HoloEarlyoom''" and "msg_path msg = Some ''/com/steampowered/HoloEarlyoom''"
    and "msg_member msg = Some ''ProcessKilled''" and "msg_body msg = log # args"
    and "dict_get log ''comm'' = Some (JStr (c # comm))" and "CHR ''/'' \<notin> set (c # comm)"
    and "se_str (le_sentry le) (JStr (c # comm)) = c # comm" and "le_loads le (dumps (JObj log)) = Inr (JObj log)"
    and "obj_get log ''steamappid'' = JNull" and "pend_dir w ''earlyoom'' = Some d"
  shows "() \<in> set (message_handlers handlers' msg)
    \<and> (\<exists>w' d' f ev. earlyoom_handle_log (se_str (le_sentry le)) dumps elsewhere ts msg w = (Inr (), w')
        \<and> pend_dir w' ''earlyoom'' = Some d'
        \<and> dict_get d' ((c # comm) @ '' '' @ show_int ts @ ''.json'') = Some f
        \<and> earlyoom_prepare le (Inr url) fname (Inr (lf_text f)) = Send ev
        \<and> ev_message ev = JStr (c # comm) \<and> ev_fingerprint ev = [''comm:'' @ c # comm])"
proof -
  have "matches (new_match_rule earlyoom_rule) msg"
    using assms(2-4) earlyoom_rule_matches by blast
  then have "() \<in> set (message_handlers handlers' msg)"
    using assms(1) by (auto simp: earlyoom_startup_def add_match_rule_def message_handlers_def)
  moreover have comm: "obj_get log ''comm'' = JStr (c # comm)"
    using assms(6) by (simp add: obj_get_def dict_getd_def)
  have name: "earlyoom_name (se_str (le_sentry le)) log ts = (c # comm) @ '' '' @ show_int ts @ ''.json''"
    using assms(8) by (simp add: earlyoom_name_def comm)
  have "CHR ''/'' \<notin> set (show_int ts)"
    by (simp add: show_int_def)
  ultimately show ?thesis
    using assms(5,7-11) name dict_get_set
    by (simp add: earlyoom_handle_log_def Let_def pend_dir_def set_pend_def earlyoom_prepare_def comm earlyoom_message_def)
qed

definition oom_message :: message where
  "oom_message = \<lparr>msg_destination = None, msg_sender = Some '':1.7'', msg_path = Some ''/com/steampowered/HoloEarlyoom'',
     msg_interface = Some ''com.steampowered.HoloEarlyoom'', msg_member = Some ''ProcessKilled'',
     msg_body = [[(''comm'', JStr ''game''), (''uid'', JInt 1000)]]\<rparr>"

definition oom_logs :: logs_env where
  "oom_logs = sample_logs\<lparr>le_sentry := sample_env\<lparr>se_str := (\<lambda>v. case v of JStr s \<Rightarrow> s | _ \<Rightarrow> [])\<rparr>,
     le_loads := (\<lambda>_. Inr (JObj [(''comm'', JStr ''game''), (''uid'', JInt 1000)]))\<rparr>"

theorem earlyoom_event_is_submitted_witness:
  "\<exists>w' d' f ev. earlyoom_handle_log (se_str (le_sentry oom_logs)) (\<lambda>_. ''{}'') (\<lambda>_. Inl OSError) 5 oom_message
      (gpu_world\<lparr>pend := [(''earlyoom'', [])]\<rparr>) = (Inr (), w')
    \<and> pend_dir w' ''earlyoom'' = Some d' \<and> dict_get d' (''game'' @ '' '' @ show_int 5 @ ''.json'') = Some f
    \<and> earlyoom_prepare oom_logs (Inr ''https://k@h/5'') ''p/x.json'' (Inr (lf_text f)) = Send ev
    \<and> ev_message ev = JStr ''game'' \<and> ev_fingerprint ev = [''comm:game'']"
proof -
  have "earlyoom_startup (Inr (Some MethodReturn)) () [] = (Inr (), [(new_match_rule earlyoom_rule, ())])"
    by (simp add: earlyoom_startup_def add_match_rule_def)
  from earlyoom_event_is_submitted [OF this, of oom_message "[(''comm'', JStr ''game''), (''uid'', JInt 1000)]" "[]" "CHR ''g''" "''ame''"
      oom_logs "\<lambda>_. ''{}''" "gpu_world\<lparr>pend := [(''earlyoom'', [])]\<rparr>" "[]" "\<lambda>_. Inl OSError" 5 "''https://k@h/5''" "''p/x.json''"]
  show ?thesis
    by (simp add: oom_message_def oom_logs_def obj_get_def dict_getd_def pend_dir_def)
qed

end
