(* ===== verification/Logging.thy ===== *)
theory Logging imports Helper_Files begin

text \<open>
  \<^verbatim>\<open>steamos_log_submitter/logging.py\<close> and the log level of the daemon (\<^verbatim>\<open>log_level\<close> and
  \<^verbatim>\<open>set_log_level\<close> of \<^verbatim>\<open>daemon.py\<close>): level names, the handlers of the root logger, the records a hook
  keeps until it has sent them to the daemon. Formatting and writing records is the library's.
\<close>

section \<open>Levels\<close>

text \<open>The level constants of the library's logging module, and its one other attribute in capitals.\<close>

definition level_constants :: "(string, int) dict" where
  "level_constants = [(''CRITICAL'', 50), (''FATAL'', 50), (''ERROR'', 40), (''WARNING'', 30), (''WARN'', 30),
     (''INFO'', 20), (''DEBUG'', 10), (''NOTSET'', 0)]"

definition logging_attr :: "string \<Rightarrow> json result" where
  "logging_attr name = (case dict_get level_constants name of
       Some n \<Rightarrow> Inr (JInt n)
     | None \<Rightarrow> (if name = ''BASIC_FORMAT'' then Inr (JStr ''%(levelname)s:%(name)s:%(message)s'') else Inl AttributeError))"

definition level_names :: "string list" where
  "level_names = [''DEBUG'', ''INFO'', ''WARNING'', ''ERROR'', ''CRITICAL'']"

definition valid_level_name :: "string \<Rightarrow> bool" where
  "valid_level_name level = (py_upper level \<in> set level_names)"

definition valid_level_number :: "int \<Rightarrow> bool" where
  "valid_level_number level = (level \<in> set [10, 20, 30, 40, 50])"

text \<open>\<^verbatim>\<open>logging.getLevelName\<close> of a number.\<close>

definition get_level_name :: "int \<Rightarrow> string" where
  "get_level_name n = (if n = 50 then ''CRITICAL'' else if n = 40 then ''ERROR'' else if n = 30 then ''WARNING''
     else if n = 20 then ''INFO'' else if n = 10 then ''DEBUG'' else if n = 0 then ''NOTSET'' else ''Level '' @ show_int n)"

section \<open>Reconfiguring\<close>

datatype handler_kind = StreamHandler | FileHandler string | RemoteHandler

record log_state =
  root_handlers :: "(handler_kind \<times> int) list"
  root_level :: int
  asyncio_level :: "int option"

definition add_handler :: "handler_kind \<Rightarrow> int \<Rightarrow> log_state \<Rightarrow> log_state" where
  "add_handler h level st = st\<lparr>root_handlers := root_handlers st @ [(h, level)]\<rparr>"

definition truthy_text :: "string option \<Rightarrow> bool" where
  "truthy_text v = (case v of None \<Rightarrow> False | Some s \<Rightarrow> s \<noteq> [])"

text \<open>\<^verbatim>\<open>level or config.get('level') or 'WARNING'\<close>, in capitals.\<close>

definition chosen_level :: "cfg \<Rightarrow> string option \<Rightarrow> string result" where
  "chosen_level c level =
     (if truthy_text level then Inr (py_upper (the level))
      else (case sec_get c ''logging'' [] ''level'' None of
          Inl e \<Rightarrow> Inl e
        | Inr v \<Rightarrow> Inr (py_upper (if truthy_text v then the v else ''WARNING''))))"

definition level_number :: "string \<Rightarrow> int" where
  "level_number level = (if valid_level_name level
     then (case dict_get level_constants level of Some n \<Rightarrow> n | None \<Rightarrow> 30) else 30)"

text \<open>The log file is opened, or not: then there is no file handler.\<close>

definition reconfigure_logging :: "cfg \<Rightarrow> (string \<Rightarrow> unit result) \<Rightarrow> string option \<Rightarrow> string option \<Rightarrow> bool \<Rightarrow> log_state
    \<Rightarrow> unit result \<times> log_state" where
  "reconfigure_logging c open_log path level remote st = (case chosen_level c level of
       Inl e \<Rightarrow> (Inl e, st)
     | Inr lv \<Rightarrow>
        (let n = level_number lv;
             st1 = add_handler StreamHandler n (st\<lparr>root_handlers := []\<rparr>);
             fin = (\<lambda>st2. let st3 = (if remote then add_handler RemoteHandler n st2 else st2)\<lparr>root_level := n\<rparr>
                    in (Inr (), if n < 20 then st3\<lparr>asyncio_level := Some 20\<rparr> else st3))
         in if truthy_text path
            then (case open_log (the path) of
                Inr _ \<Rightarrow> fin (add_handler (FileHandler (the path)) n st1)
              | Inl e \<Rightarrow> (if is_OSError e then fin st1 else (Inl e, st1)))
            else fin st1))"

section \<open>Records kept for the daemon\<close>

text \<open>
  \<^verbatim>\<open>RemoteHandler\<close>: records are kept, and \<^verbatim>\<open>drain\<close> sends all of them at once. \<open>meanwhile\<close> are the records
  that are emitted while it waits for the daemon.
\<close>

definition remote_emit :: "'r \<Rightarrow> 'r list \<Rightarrow> 'r list" where
  "remote_emit rec tasks = tasks @ [rec]"

fun first_failure :: "unit result list \<Rightarrow> exn option" where
  "first_failure [] = None"
| "first_failure (Inr u # rs) = first_failure rs"
| "first_failure (Inl e # rs) = Some e"

definition drain :: "('r \<Rightarrow> unit result) \<Rightarrow> 'r list \<Rightarrow> 'r list \<Rightarrow> unit result \<times> 'r list \<times> 'r list" where
  "drain send meanwhile tasks =
     (let tasks' = fold remote_emit meanwhile tasks in
      case first_failure (map send tasks) of
        Some e \<Rightarrow> (Inl e, tasks, tasks')
      | None \<Rightarrow> (Inr (), tasks, []))"

section \<open>The daemon's log level\<close>

definition log_level :: "cfg \<Rightarrow> json result" where
  "log_level c = (case sec_get c ''logging'' [] ''level'' None of
       Inl e \<Rightarrow> Inl e
     | Inr v \<Rightarrow> logging_attr (py_upper (if truthy_text v then the v else ''WARNING'')))"

text \<open>\<^verbatim>\<open>set_log_level\<close>; the D-Bus error of an invalid level carries it.\<close>

definition set_log_level :: "(string \<Rightarrow> unit result) \<Rightarrow> int \<Rightarrow> 'x world_scheme \<times> log_state \<Rightarrow> unit result \<times> 'x world_scheme \<times> log_state" where
  "set_log_level open_log level wl = (case wl of (w, st) \<Rightarrow>
     (if \<not> valid_level_number level then (Inl InvalidArgumentsError, w, st)
      else (case migrate_key (conf w) ''logging'' ''level'' of
          (Inl e, c1) \<Rightarrow> (Inl e, w\<lparr>conf := c1\<rparr>, st)
        | (Inr _, c1) \<Rightarrow> (case sec_setitem c1 ''logging'' ''level'' (get_level_name level) of
            (Inl e, c2) \<Rightarrow> (Inl e, w\<lparr>conf := c2\<rparr>, st)
          | (Inr _, c2) \<Rightarrow> (case write_config c2 of
              (Inl e, c3) \<Rightarrow> (Inl e, w\<lparr>conf := c3\<rparr>, st)
            | (Inr _, c3) \<Rightarrow> (case sec_get c3 ''logging'' [] ''path'' None of
                Inl e \<Rightarrow> (Inl e, w\<lparr>conf := c3\<rparr>, st)
              | Inr path \<Rightarrow> (case reconfigure_logging c3 open_log path None False st of
                  (Inl e, st') \<Rightarrow> (Inl e, w\<lparr>conf := c3\<rparr>, st')
                | (Inr _, st') \<Rightarrow> (Inr (), emit (SigChanged ''manager'' ''LogLevel'' (JInt level)) (w\<lparr>conf := c3\<rparr>), st'))))))))"

section \<open>Properties\<close>

lemma level_name_value:
  "valid_level_number n \<Longrightarrow> py_upper (get_level_name n) = get_level_name n \<and> valid_level_name (get_level_name n)
     \<and> dict_get level_constants (get_level_name n) = Some n \<and> get_level_name n \<noteq> [] \<and> CHR ''$'' \<notin> set (get_level_name n)"
proof -
  have "list_all (\<lambda>n. py_upper (get_level_name n) = get_level_name n \<and> valid_level_name (get_level_name n)
     \<and> dict_get level_constants (get_level_name n) = Some n \<and> get_level_name n \<noteq> [] \<and> CHR ''$'' \<notin> set (get_level_name n))
     [10, 20, 30, 40, 50]"
    by code_simp
  moreover assume "valid_level_number n"
  ultimately show ?thesis
    by (auto simp: valid_level_number_def)
qed

lemma reconfigure_logging_ok:
  assumes "reconfigure_logging c open_log path level remote st = (Inr (), st')" and "chosen_level c level = Inr lv"
  shows "root_level st' = level_number lv \<and> (\<forall>(h, n) \<in> set (root_handlers st'). n = level_number lv)"
  using assms by (auto simp: reconfigure_logging_def add_handler_def Let_def split: if_splits sum.splits)

text \<open>A level that was set is the level the daemon reports and the one the root logger and every handler have, and it is announced.\<close>

theorem set_log_level_roundtrip:
  assumes "store_ok (snd (migrate_key (conf w) ''logging'' ''level''))"
    and "set_log_level open_log level (w, st) = (Inr (), w', st')"
  shows "log_level (conf w') = Inr (JInt level) \<and> root_level st' = level
    \<and> (\<forall>(h, n) \<in> set (root_handlers st'). n = level)
    \<and> signals w' = signals w @ [SigChanged ''manager'' ''LogLevel'' (JInt level)]"
proof -
  have valid: "valid_level_number level"
    using assms(2) by (auto simp: set_log_level_def split: if_splits)
  obtain b c1 c2 c3 path where
    m: "migrate_key (conf w) ''logging'' ''level'' = (Inr b, c1)" and
    s: "sec_setitem c1 ''logging'' ''level'' (get_level_name level) = (Inr (), c2)" and
    wr: "write_config c2 = (Inr (), c3)" and
    r: "reconfigure_logging c3 open_log path None False st = (Inr (), st')" and
    w': "w' = emit (SigChanged ''manager'' ''LogLevel'' (JInt level)) (w\<lparr>conf := c3\<rparr>)"
    using assms(2) valid by (auto simp: set_log_level_def split: prod.splits sum.splits)
  note name = level_name_value [OF valid]
  have "sec_getitem c2 ''logging'' [] ''level'' = Inr (get_level_name level)"
    using sec_setitem_reads [of c1 "get_level_name level" "''logging''" "''level''"] assms(1) name
    by (auto simp: m s)
  then have get: "sec_get c3 ''logging'' [] ''level'' None = Inr (Some (get_level_name level))"
    using wr by (auto simp: sec_get_def sec_getitem_eq write_config_def save_cfg_def split: sum.splits option.splits if_splits)
  have "chosen_level c3 None = Inr (get_level_name level)" "level_number (get_level_name level) = level"
    using get name by (simp_all add: chosen_level_def truthy_text_def level_number_def split: list.split)
  then have "root_level st' = level \<and> (\<forall>(h, n) \<in> set (root_handlers st'). n = level)"
    using reconfigure_logging_ok [OF r] by simp
  moreover have "log_level (conf w') = Inr (JInt level)"
    using get name by (simp add: w' log_level_def emit_def truthy_text_def logging_attr_def split: list.split)
  ultimately show ?thesis
    by (simp add: w' emit_def)
qed

text \<open>With a level in the configuration that is none, logging falls back to WARNING, but asking the daemon for its level fails.\<close>

theorem unknown_level_fails:
  assumes "sec_get c ''logging'' [] ''level'' None = Inr (Some level)" and "level \<noteq> []"
    and "dict_get level_constants (py_upper level) = None" and "py_upper level \<noteq> ''BASIC_FORMAT''"
  shows "log_level c = Inl AttributeError
    \<and> (\<exists>lv. chosen_level c None = Inr lv \<and> level_number lv = 30)"
  using assms by (auto simp: log_level_def truthy_text_def logging_attr_def chosen_level_def level_number_def)

section \<open>Witnesses\<close>

definition logging_world :: world where
  "logging_world = gpu_world\<lparr>conf := run_cfg, signals := []\<rparr>"

definition quiet_log :: log_state where
  "quiet_log = \<lparr>root_handlers = [], root_level = 30, asyncio_level = None\<rparr>"

lemma logging_world_ok: "store_ok (snd (migrate_key (conf logging_world) ''logging'' ''level''))"
  by code_simp

lemma logging_run: "fst (set_log_level (\<lambda>_. Inr ()) 10 (logging_world, quiet_log)) = Inr ()"
  by code_simp

theorem set_log_level_roundtrip_witness:
  "\<exists>w' st'. set_log_level (\<lambda>_. Inr ()) 10 (logging_world, quiet_log) = (Inr (), w', st')
    \<and> log_level (conf w') = Inr (JInt 10) \<and> root_level st' = 10"
  using set_log_level_roundtrip [OF logging_world_ok] logging_run by (metis prod.collapse)

theorem unknown_level_fails_witness:
  "log_level (run_cfg\<lparr>main_cfg := \<lparr>sections = [(''logging'', [(''level'', ''verbose'')])], dflts = []\<rparr>\<rparr>) = Inl AttributeError"
proof -
  let ?c = "run_cfg\<lparr>main_cfg := \<lparr>sections = [(''logging'', [(''level'', ''verbose'')])], dflts = []\<rparr>\<rparr>"
  have "sec_get ?c ''logging'' [] ''level'' None = Inr (Some ''verbose'')"
    "dict_get level_constants (py_upper ''verbose'') = None" "py_upper ''verbose'' \<noteq> ''BASIC_FORMAT''"
    by code_simp+
  then show ?thesis
    using unknown_level_fails [of ?c "''verbose''"] by simp
qed

end
