(* ===== verification/Json.thy ===== *)
theory Json imports Unit_Names begin

text \<open>
  The texts that \<^verbatim>\<open>json.dumps\<close> writes and \<^verbatim>\<open>json.loads\<close> reads, as far as the program uses them: the
  default separators, non-ASCII and control characters escaped, no indentation. A text holds no
  character beyond the first 256, so an escape of a higher one is not read; nor are \<^verbatim>\<open>NaN\<close> and
  \<^verbatim>\<open>Infinity\<close>. How a float is written is a locale, instantiated with a plain decimal fraction.
\<close>

section \<open>Strings\<close>

definition cons_to :: "'a \<Rightarrow> ('a list \<times> 'b) option \<Rightarrow> ('a list \<times> 'b) option" where
  "cons_to x r = map_option (\<lambda>(xs, b). (x # xs, b)) r"

lemma cons_to_simps [simp]: "cons_to x (Some (xs, b)) = Some (x # xs, b)" "cons_to x None = None"
  by (simp_all add: cons_to_def)

definition json_escape :: "char \<Rightarrow> string" where
  "json_escape c =
     (if c = CHR 0x22 then [CHR 0x5C, c]
      else if c = CHR 0x5C then [CHR 0x5C, c]
      else if c = CHR 0x0A then [CHR 0x5C, CHR ''n'']
      else if c = CHR 0x0D then [CHR 0x5C, CHR ''r'']
      else if c = CHR 0x09 then [CHR 0x5C, CHR ''t'']
      else if c = CHR 0x0C then [CHR 0x5C, CHR ''f'']
      else if c = CHR 0x08 then [CHR 0x5C, CHR ''b'']
      else if code c < 32 \<or> 126 < code c
        then [CHR 0x5C, CHR ''u'', CHR ''0'', CHR ''0'', hex_digit (code c div 16), hex_digit (code c mod 16)]
      else [c])"

definition json_string :: "string \<Rightarrow> string" where
  "json_string s = CHR 0x22 # concat (map json_escape s) @ [CHR 0x22]"

definition short_escape :: "char \<Rightarrow> char option" where
  "short_escape e =
     (if e = CHR 0x22 \<or> e = CHR 0x5C \<or> e = CHR ''/'' then Some e
      else if e = CHR ''n'' then Some (CHR 0x0A)
      else if e = CHR ''r'' then Some (CHR 0x0D)
      else if e = CHR ''t'' then Some (CHR 0x09)
      else if e = CHR ''f'' then Some (CHR 0x0C)
      else if e = CHR ''b'' then Some (CHR 0x08)
      else None)"

definition hex_code :: "char list \<Rightarrow> nat option" where
  "hex_code ds = (if list_all (\<lambda>d. hex_value d \<noteq> None) ds \<and> length ds = 4
     then Some (foldl (\<lambda>n d. 16 * n + the (hex_value d)) 0 ds) else None)"

text \<open>The characters up to the closing quote, and what follows it.\<close>

fun read_chars :: "string \<Rightarrow> (string \<times> string) option" where
  "read_chars [] = None"
| "read_chars (c # s) =
     (if c = CHR 0x22 then Some ([], s)
      else if c = CHR 0x5C then (case s of
          [] \<Rightarrow> None
        | e # s1 \<Rightarrow>
           (if e = CHR ''u'' then (case hex_code (take 4 s1) of
                None \<Rightarrow> None
              | Some n \<Rightarrow> (if n < 256 then cons_to (char_of n) (read_chars (drop 4 s1)) else None))
            else (case short_escape e of None \<Rightarrow> None | Some x \<Rightarrow> cons_to x (read_chars s1))))
      else if code c < 32 then None
      else cons_to c (read_chars s))"

lemma read_escape: "read_chars (json_escape c @ s) = cons_to c (read_chars s)"
proof -
  have "hex_value (hex_digit (code c div 16)) = Some (code c div 16)" "hex_value (hex_digit (code c mod 16)) = Some (code c mod 16)"
    using code_less [of c] by (simp_all add: less_mult_imp_div_less)
  moreover have "hex_value (CHR ''0'') = Some 0" by (simp add: hex_value_def is_digit_def code_def)
  ultimately have h: "hex_code (CHR ''0'' # CHR ''0'' # hex_digit (code c div 16) # [hex_digit (code c mod 16)]) = Some (code c)"
    by (simp add: hex_code_def)
  show ?thesis by (auto simp: json_escape_def short_escape_def h)
qed

lemma read_json_string: "read_chars (concat (map json_escape s) @ CHR 0x22 # rest) = Some (s, rest)"
  by (induction s) (simp_all add: read_escape)

section \<open>Values\<close>

definition number_char :: "char \<Rightarrow> bool" where
  "number_char c = (is_digit c \<or> c \<in> set ''+-.eE'')"

definition json_space :: "char \<Rightarrow> bool" where
  "json_space c = (code c \<in> {9, 10, 13, 32})"

definition skip :: "string \<Rightarrow> string" where
  "skip s = dropWhile json_space s"

definition json_nat :: "string \<Rightarrow> nat option" where
  "json_nat s = (if s \<noteq> [] \<and> list_all is_digit s \<and> (hd s = CHR ''0'' \<longrightarrow> tl s = []) then Some (digits_value s) else None)"

definition json_int_text :: "string \<Rightarrow> int option" where
  "json_int_text s = (case s of [] \<Rightarrow> None
     | c # cs \<Rightarrow> (if c = CHR ''-'' then map_option (\<lambda>n. - int n) (json_nat cs) else map_option int (json_nat s)))"

fun json_dumps :: "(int \<Rightarrow> string) \<Rightarrow> json \<Rightarrow> string" where
  "json_dumps fl JNull = ''null''"
| "json_dumps fl (JBool b) = (if b then ''true'' else ''false'')"
| "json_dumps fl (JInt n) = show_int n"
| "json_dumps fl (JFloat f) = fl f"
| "json_dumps fl (JStr s) = json_string s"
| "json_dumps fl (JList vs) = CHR ''['' # join '', '' (map (json_dumps fl) vs) @ '']''"
| "json_dumps fl (JObj d) = CHR ''{'' # join '', '' (map (\<lambda>(k, v). json_string k @ '': '' @ json_dumps fl v) d) @ ''}''"

definition read_number :: "(string \<Rightarrow> int option) \<Rightarrow> string \<Rightarrow> (json \<times> string) option" where
  "read_number rf s = (let t = takeWhile number_char s; r = dropWhile number_char s in
     if t = [] then None
     else if list_ex (\<lambda>c. c \<in> set ''.eE'') t then map_option (\<lambda>f. (JFloat f, r)) (rf t)
     else map_option (\<lambda>n. (JInt n, r)) (json_int_text t))"

text \<open>The next character after white space, if it is \<open>c\<close>: what follows it.\<close>

definition expect :: "char \<Rightarrow> string \<Rightarrow> string option" where
  "expect c s = (case skip s of [] \<Rightarrow> None | x # r \<Rightarrow> if x = c then Some r else None)"

text \<open>The recursive descent; every call gets a smaller first argument, which bounds its depth.\<close>

fun read_value :: "(string \<Rightarrow> int option) \<Rightarrow> nat \<Rightarrow> string \<Rightarrow> (json \<times> string) option"
  and read_elements :: "(string \<Rightarrow> int option) \<Rightarrow> nat \<Rightarrow> string \<Rightarrow> (json list \<times> string) option"
  and read_members :: "(string \<Rightarrow> int option) \<Rightarrow> nat \<Rightarrow> string \<Rightarrow> ((string \<times> json) list \<times> string) option" where
  "read_value rf 0 s = None"
| "read_value rf (Suc n) s =
     (if prefix [CHR 0x22] s then map_option (\<lambda>(t, r). (JStr t, r)) (read_chars (drop 1 s))
      else if prefix ''{'' s then (case expect (CHR ''}'') (drop 1 s) of
          Some r \<Rightarrow> Some (JObj [], r)
        | None \<Rightarrow> map_option (\<lambda>(kvs, r). (JObj (dict_update [] kvs), r)) (read_members rf n (skip (drop 1 s))))
      else if prefix ''['' s then (case expect (CHR '']'') (drop 1 s) of
          Some r \<Rightarrow> Some (JList [], r)
        | None \<Rightarrow> map_option (\<lambda>(vs, r). (JList vs, r)) (read_elements rf n (skip (drop 1 s))))
      else if prefix ''null'' s then Some (JNull, drop 4 s)
      else if prefix ''true'' s then Some (JBool True, drop 4 s)
      else if prefix ''false'' s then Some (JBool False, drop 5 s)
      else read_number rf s)"
| "read_elements rf 0 s = None"
| "read_elements rf (Suc n) s = (case read_value rf n s of
       None \<Rightarrow> None
     | Some (v, r) \<Rightarrow> (case expect (CHR '']'') r of
         Some r1 \<Rightarrow> Some ([v], r1)
       | None \<Rightarrow> (case expect (CHR '','') r of
           None \<Rightarrow> None
         | Some r1 \<Rightarrow> cons_to v (read_elements rf n (skip r1)))))"
| "read_members rf 0 s = None"
| "read_members rf (Suc n) s = (if \<not> prefix [CHR 0x22] s then None
     else (case read_chars (drop 1 s) of
       None \<Rightarrow> None
     | Some (k, r) \<Rightarrow> (case expect (CHR '':'') r of
         None \<Rightarrow> None
       | Some r1 \<Rightarrow> (case read_value rf n (skip r1) of
           None \<Rightarrow> None
         | Some (v, r2) \<Rightarrow> (case expect (CHR ''}'') r2 of
             Some r3 \<Rightarrow> Some ([(k, v)], r3)
           | None \<Rightarrow> (case expect (CHR '','') r2 of
               None \<Rightarrow> None
             | Some r3 \<Rightarrow> cons_to (k, v) (read_members rf n (skip r3))))))))"

definition json_loads :: "(string \<Rightarrow> int option) \<Rightarrow> string \<Rightarrow> json result" where
  "json_loads rf s = (case read_value rf (Suc (length s)) (skip s) of
       Some (v, r) \<Rightarrow> (if skip r = [] then Inr v else Inl JSONDecodeError)
     | None \<Rightarrow> Inl JSONDecodeError)"

section \<open>What was written is read back\<close>

text \<open>Values as a Python dictionary holds them: no key twice.\<close>

fun wf_json :: "json \<Rightarrow> bool" where
  "wf_json (JList vs) = (\<forall>v \<in> set vs. wf_json v)"
| "wf_json (JObj d) = (distinct (map fst d) \<and> (\<forall>kv \<in> set d. wf_json (snd kv)))"
| "wf_json _ = True"

lemma dict_update_distinct: "distinct (map fst e) \<Longrightarrow> set (map fst e) \<inter> set (map fst d) = {} \<Longrightarrow> dict_update d e = d @ e"
proof (induction e arbitrary: d)
  case Nil
  then show ?case by (simp add: dict_update_def)
next
  case (Cons kv e)
  obtain k v where kv: "kv = (k, v)" by fastforce
  have "dict_set d k v = d @ [(k, v)]" using Cons.prems(2)
    by (induction d) (auto simp: kv dict_set_def)
  with Cons kv show ?case by (simp add: dict_update_def)
qed

lemma expect_Cons [simp]: "\<not> json_space c \<Longrightarrow> expect x (c # s) = (if c = x then Some s else None)"
  by (simp add: expect_def skip_def)

lemma skip_Cons [simp]: "\<not> json_space c \<Longrightarrow> skip (c # s) = c # s"
  by (simp add: skip_def)

lemma skip_space [simp]: "skip (CHR '' '' # s) = skip s"
  by (simp add: skip_def json_space_def code_def)

lemma punctuation [simp]:
  "\<not> json_space (CHR 0x22)" "\<not> json_space (CHR ''{'')" "\<not> json_space (CHR ''}'')" "\<not> json_space (CHR ''['')"
  "\<not> json_space (CHR '']'')" "\<not> json_space (CHR '','')" "\<not> json_space (CHR '':'')" "\<not> json_space (CHR ''n'')"
  "\<not> json_space (CHR ''t'')" "\<not> json_space (CHR ''f'')"
  by (simp_all add: json_space_def code_def)

definition stops :: "string \<Rightarrow> bool" where
  "stops rest = (rest = [] \<or> \<not> number_char (hd rest))"

lemma stops_punctuation [simp]: "stops []" "stops (CHR '','' # s)" "stops (CHR '']'' # s)" "stops (CHR ''}'' # s)"
  by (simp_all add: stops_def number_char_def is_digit_def code_def)

lemma number_not_space: "number_char c \<Longrightarrow> \<not> json_space c"
  by (auto simp: number_char_def json_space_def is_digit_def code_def)

lemma number_not_mark: "number_char c \<Longrightarrow> c \<notin> set ''{}[],:ntf'' \<and> c \<noteq> CHR 0x22"
  by (auto simp: number_char_def is_digit_def code_def)

lemma take_number:
  assumes "list_all number_char t" and "stops rest"
  shows "takeWhile number_char (t @ rest) = t" "dropWhile number_char (t @ rest) = rest"
proof -
  have t: "\<forall>c \<in> set t. number_char c" using assms(1) by (simp add: list_all_iff)
  have "takeWhile number_char rest = []" "dropWhile number_char rest = rest"
    using assms(2) by (cases rest; simp add: stops_def)+
  with t show "takeWhile number_char (t @ rest) = t" "dropWhile number_char (t @ rest) = rest"
    by (simp_all add: takeWhile_append2 dropWhile_append2)
qed

lemma show_nat_head: "hd (show_nat n) = CHR ''0'' \<longleftrightarrow> n = 0"
proof (induction n rule: show_nat.induct)
  case (1 n)
  have d: "digit_char m = CHR ''0'' \<longleftrightarrow> m = 0" if "m < 10" for m
    using that by (simp flip: code_eq_iff) (simp add: code_def)
  show ?case
  proof (cases "n < 10")
    case True
    then show ?thesis by (simp add: show_nat.simps [of n] d)
  next
    case False
    with 1 show ?thesis by (simp add: show_nat.simps [of n] hd_append div_greater_zero_iff)
  qed
qed

lemma json_nat_show: "json_nat (show_nat n) = Some n"
proof -
  have "list_all is_digit (show_nat n)" by (auto simp: list_all_iff dest: show_nat_digits)
  moreover have "hd (show_nat n) = CHR ''0'' \<Longrightarrow> tl (show_nat n) = []"
    by (simp add: show_nat_head show_nat.simps [of 0])
  ultimately show ?thesis by (simp add: json_nat_def)
qed

lemma show_int_text:
  "list_all number_char (show_int n)" "\<not> list_ex (\<lambda>c. c \<in> set ''.eE'') (show_int n)" "json_int_text (show_int n) = Some n" "show_int n \<noteq> []"
proof -
  have d: "is_digit c \<Longrightarrow> c \<noteq> CHR ''-'' \<and> c \<notin> set ''.eE''" for c by (auto simp: is_digit_def code_def)
  have m: "c \<in> set (show_nat k) \<Longrightarrow> number_char c \<and> c \<noteq> CHR ''-'' \<and> c \<notin> set ''.eE''" for c k
    using show_nat_digits d by (auto simp: number_char_def)
  show "list_all number_char (show_int n)" "\<not> list_ex (\<lambda>c. c \<in> set ''.eE'') (show_int n)"
    using m by (auto simp: show_int_def list_all_iff list_ex_iff number_char_def)
  have "hd (show_nat k) \<noteq> CHR ''-''" for k using m [of "hd (show_nat k)" k] by simp
  then have "show_nat k = c # cs \<Longrightarrow> c \<noteq> CHR ''-''" for k c cs by (metis list.sel(1))
  then have "json_int_text (show_nat k) = map_option int (json_nat (show_nat k))" for k
    by (cases "show_nat k") (auto simp: json_int_text_def)
  then show "json_int_text (show_int n) = Some n"
    by (simp add: show_int_def) (simp add: json_int_text_def json_nat_show)
  show "show_int n \<noteq> []" by (simp add: show_int_def)
qed

locale float_text =
  fixes show_float :: "int \<Rightarrow> string" and read_float :: "string \<Rightarrow> int option"
  assumes read_show: "read_float (show_float f) = Some f"
    and float_chars: "list_all number_char (show_float f)"
    and float_mark: "list_ex (\<lambda>c. c \<in> set ''.eE'') (show_float f)"
begin

abbreviation written :: "json \<Rightarrow> string" where "written v \<equiv> json_dumps show_float v"

lemma read_number_int: "stops rest \<Longrightarrow> read_number read_float (show_int n @ rest) = Some (JInt n, rest)"
  using show_int_text [of n] take_number [of "show_int n" rest] by (simp add: read_number_def)

lemma read_number_float: "stops rest \<Longrightarrow> read_number read_float (show_float f @ rest) = Some (JFloat f, rest)"
  using float_chars [of f] float_mark [of f] read_show [of f] take_number [of "show_float f" rest] by (auto simp: read_number_def Let_def)

lemma number_head:
  assumes "list_all number_char t" and "t \<noteq> []"
  shows "\<exists>c s. t = c # s \<and> number_char c"
  using assms by (cases t) auto

lemma float_not_Nil: "show_float f \<noteq> []"
  using float_mark [of f] by auto

text \<open>A text begins with a character that is neither white space nor the end of a list or an object.\<close>

lemma written_head: "\<exists>c s. written v = c # s \<and> \<not> json_space c \<and> c \<noteq> CHR '']'' \<and> c \<noteq> CHR ''}''"
proof (cases v)
  case (JInt n)
  with number_head [of "show_int n"] show_int_text [of n] number_not_space number_not_mark show ?thesis by fastforce
next
  case (JFloat f)
  with number_head [OF float_chars [of f] float_not_Nil] number_not_space number_not_mark show ?thesis by fastforce
qed (auto simp: json_string_def)

lemma skip_written [simp]: "skip (written v @ rest) = written v @ rest"
  using written_head [of v] by auto

lemma number_value:
  assumes "number_char c"
  shows "read_value rf (Suc n) (c # s) = read_number rf (c # s)"
  using number_not_mark [OF assms] by auto

definition reads :: "json \<Rightarrow> bool" where
  "reads v = (\<forall>n rest. stops rest \<longrightarrow> length (written v) \<le> n \<longrightarrow> read_value read_float n (written v @ rest) = Some (v, rest))"

lemma readsD: "reads v \<Longrightarrow> stops rest \<Longrightarrow> length (written v) \<le> n \<Longrightarrow> read_value read_float n (written v @ rest) = Some (v, rest)"
  by (simp add: reads_def)

lemma read_elements_written:
  "list_all reads vs \<Longrightarrow> vs \<noteq> [] \<Longrightarrow> length (join '', '' (map written vs)) < n \<Longrightarrow>
     read_elements read_float n (join '', '' (map written vs) @ CHR '']'' # rest) = Some (vs, rest)"
proof (induction vs arbitrary: n)
  case Nil
  then show ?case by simp
next
  case (Cons v vs)
  obtain m where n: "n = Suc m" using Cons.prems(3) by (cases n) auto
  show ?case
  proof (cases "vs = []")
    case True
    with Cons.prems n readsD [of v "CHR '']'' # rest" m] show ?thesis by simp
  next
    case False
    let ?more = "join '', '' (map written vs) @ CHR '']'' # rest"
    have l: "length (written v) \<le> m" "length (join '', '' (map written vs)) < m"
      using Cons.prems(3) False by (simp_all add: n join_Cons)
    have v: "read_value read_float m (written v @ CHR '','' # CHR '' '' # ?more) = Some (v, CHR '','' # CHR '' '' # ?more)"
      using readsD [of v "CHR '','' # CHR '' '' # ?more" m] Cons.prems(1) l(1) by simp
    obtain u us where us: "vs = u # us" using False by (cases vs) auto
    have "skip ?more = ?more"
      using skip_written [of u] by (cases us) (simp_all add: us)
    with v Cons.IH [of m] Cons.prems(1) False l(2) show ?thesis
      by (simp add: n join_Cons)
  qed
qed

definition written_members :: "(string \<times> json) list \<Rightarrow> string" where
  "written_members d = join '', '' (map (\<lambda>(k, v). json_string k @ '': '' @ written v) d)"

lemma read_member:
  "reads v \<Longrightarrow> stops rest \<Longrightarrow> length (written v) \<le> m \<Longrightarrow>
   read_members read_float (Suc m) (json_string k @ '': '' @ written v @ rest) =
     (case expect (CHR ''}'') rest of Some r \<Rightarrow> Some ([(k, v)], r)
      | None \<Rightarrow> (case expect (CHR '','') rest of None \<Rightarrow> None
          | Some r \<Rightarrow> cons_to (k, v) (read_members read_float m (skip r))))"
  using read_json_string [of k "'': '' @ written v @ rest"] readsD [of v rest m]
  by (simp add: json_string_def)

lemma read_members_written:
  "list_all (\<lambda>kv. reads (snd kv)) d \<Longrightarrow> d \<noteq> [] \<Longrightarrow> length (written_members d) < n \<Longrightarrow>
     read_members read_float n (written_members d @ CHR ''}'' # rest) = Some (d, rest)"
proof (induction d arbitrary: n)
  case Nil
  then show ?case by simp
next
  case (Cons kv d)
  obtain k v where kv: "kv = (k, v)" by fastforce
  obtain m where n: "n = Suc m" using Cons.prems(3) by (cases n) auto
  show ?case
  proof (cases "d = []")
    case True
    have "length (written v) \<le> m" using Cons.prems(3) by (simp add: written_members_def True kv n json_string_def)
    with Cons.prems(1) read_member [of v "CHR ''}'' # rest" m k] show ?thesis
      by (simp add: True kv n written_members_def)
  next
    case False
    let ?more = "written_members d @ CHR ''}'' # rest"
    have t: "written_members (kv # d) = json_string k @ '': '' @ written v @ '', '' @ written_members d"
      using False by (simp add: written_members_def kv join_Cons)
    then have l: "length (written v) \<le> m" "length (written_members d) < m"
      using Cons.prems(3) by (simp_all add: n)
    obtain k' v' d' where d: "d = (k', v') # d'" using False by (cases d) auto
    have "skip ?more = ?more" by (cases d') (simp_all add: d written_members_def json_string_def)
    moreover have "read_members read_float m ?more = Some (d, rest)"
      using Cons.IH [of m] Cons.prems(1) False l(2) by simp
    ultimately show ?thesis
      using read_member [of v "CHR '','' # CHR '' '' # ?more" m k] Cons.prems(1) l(1)
      by (simp add: n t [unfolded kv] kv del: read_members.simps)
  qed
qed

lemma reads_intro:
  "(\<And>n rest. stops rest \<Longrightarrow> length (written v) \<le> Suc n \<Longrightarrow> read_value read_float (Suc n) (written v @ rest) = Some (v, rest)) \<Longrightarrow> reads v"
  unfolding reads_def using written_head [of v] by (metis Suc_le_D length_Cons)

lemma written_reads: "wf_json v \<Longrightarrow> reads v"
proof (induction v)
  case (JInt n)
  obtain c s where c: "show_int n = c # s" "number_char c" using number_head [of "show_int n"] show_int_text [of n] by auto
  show ?case by (rule reads_intro) (use c number_value [OF c(2)] read_number_int [of _ n] in \<open>simp del: read_value.simps\<close>)
next
  case (JFloat f)
  obtain c s where c: "show_float f = c # s" "number_char c" using number_head [OF float_chars float_not_Nil] by blast
  show ?case by (rule reads_intro) (use c number_value [OF c(2)] read_number_float [of _ f] in \<open>simp del: read_value.simps\<close>)
next
  case (JStr s)
  show ?case by (rule reads_intro) (simp add: json_string_def read_json_string)
next
  case (JList vs)
  then have r: "list_all reads vs" by (simp add: list_all_iff)
  show ?case
  proof (rule reads_intro)
    fix n rest assume l: "length (written (JList vs)) \<le> Suc n"
    show "read_value read_float (Suc n) (written (JList vs) @ rest) = Some (JList vs, rest)"
    proof (cases vs)
      case Nil
      then show ?thesis by simp
    next
      case (Cons u us)
      let ?all = "join '', '' (map written vs) @ CHR '']'' # rest"
      obtain c s where c: "?all = c # s" "\<not> json_space c" "c \<noteq> CHR '']''"
        using written_head [of u] by (cases us) (auto simp: Cons)
      have "read_elements read_float n ?all = Some (vs, rest)"
        using l by (intro read_elements_written r) (simp_all add: Cons)
      with c show ?thesis by simp
    qed
  qed
next
  case (JObj d)
  then have r: "list_all (\<lambda>kv. reads (snd kv)) d" by (fastforce simp: list_all_iff snds.simps)
  show ?case
  proof (rule reads_intro)
    fix n rest assume l: "length (written (JObj d)) \<le> Suc n"
    have w: "written (JObj d) = CHR ''{'' # written_members d @ ''}''" by (simp add: written_members_def)
    show "read_value read_float (Suc n) (written (JObj d) @ rest) = Some (JObj d, rest)"
    proof (cases d)
      case Nil
      then show ?thesis by simp
    next
      case (Cons kv d')
      let ?all = "written_members d @ CHR ''}'' # rest"
      obtain s where c: "?all = CHR 0x22 # s"
        by (cases kv; cases d') (auto simp: Cons written_members_def json_string_def)
      have "read_members read_float n ?all = Some (d, rest)"
        using l unfolding w by (intro read_members_written r) (simp_all add: Cons)
      moreover have "dict_update [] d = d" using JObj.prems by (simp add: dict_update_distinct)
      ultimately show ?thesis using c by (simp add: w del: json_dumps.simps)
    qed
  qed
qed (auto intro!: reads_intro)

lemma loads_written: "wf_json v \<Longrightarrow> json_loads read_float (written v) = Inr v"
  using readsD [OF written_reads, of v "[]" "Suc (length (written v))"] skip_written [of v "[]"]
  by (simp add: json_loads_def skip_def)

text \<open>A text is one line.\<close>

lemma join_avoids: "c \<notin> set sep \<Longrightarrow> (\<And>x. x \<in> set xs \<Longrightarrow> c \<notin> set x) \<Longrightarrow> c \<notin> set (join sep xs)"
  by (induction sep xs rule: join.induct) auto

lemma string_one_line: "CHR 0x0A \<notin> set (json_string s)"
proof -
  have h: "hex_digit (code c div 16) \<noteq> CHR 0x0A" "hex_digit (code c mod 16) \<noteq> CHR 0x0A" for c
    using hex_digit_class(1) [of "code c div 16"] hex_digit_class(1) [of "code c mod 16"] less_mult_imp_div_less [of "code c" 16 16]
    by (auto simp: is_space_def code_def)
  have "CHR 0x0A \<notin> set (json_escape c)" for c
    using h [of c] by (auto simp: json_escape_def)
  then show ?thesis by (auto simp: json_string_def)
qed

lemma one_line: "CHR 0x0A \<notin> set (written v)"
proof (induction v)
  case (JInt n)
  have "\<not> number_char (CHR 0x0A)" by (simp add: number_char_def is_digit_def code_def)
  with show_int_text(1) [of n] show ?case by (auto simp: list_all_iff)
next
  case (JFloat f)
  have "\<not> number_char (CHR 0x0A)" by (simp add: number_char_def is_digit_def code_def)
  with float_chars [of f] show ?case by (auto simp: list_all_iff)
next
  case (JStr s)
  show ?case by (simp add: string_one_line)
next
  case (JList vs)
  then have "CHR 0x0A \<notin> set (join '', '' (map written vs))" by (intro join_avoids) auto
  then show ?case by simp
next
  case (JObj d)
  have "CHR 0x0A \<notin> set (join '', '' (map (\<lambda>(k, v). json_string k @ '': '' @ written v) d))"
    using JObj string_one_line by (intro join_avoids) (fastforce simp: snds.simps)+
  then show ?case by simp
qed simp_all

end

section \<open>Decimal fractions\<close>

text \<open>A float in units of 1e-9, written with all of its nine places.\<close>

definition places :: "nat \<Rightarrow> string" where
  "places n = replicate (9 - length (show_nat n)) (CHR ''0'') @ show_nat n"

definition show_decimal :: "int \<Rightarrow> string" where
  "show_decimal f = (if f < 0 then ''-'' else []) @ show_nat (nat \<bar>f\<bar> div 1000000000) @ ''.'' @ places (nat \<bar>f\<bar> mod 1000000000)"

definition read_decimal :: "string \<Rightarrow> int option" where
  "read_decimal t =
     (let neg = prefix ''-'' t; u = (if neg then drop 1 t else t); a = before (CHR ''.'') u; b = after (CHR ''.'') u in
      if json_nat a = None \<or> b = [] \<or> \<not> list_all is_digit b then None
      else let n = int (the (json_nat a)) * 1000000000 + int (digits_value (take 9 (b @ replicate 9 (CHR ''0'')))) in
        Some (if neg then - n else n))"

lemma digits_value_zeros: "digits_value (replicate k (CHR ''0'') @ s) = digits_value s"
  by (induction k) (simp_all add: digits_value_def is_digit_def code_def)

lemma show_nat_length: "n < 10 ^ Suc k \<Longrightarrow> length (show_nat n) \<le> Suc k"
proof (induction k arbitrary: n)
  case 0
  then show ?case by (simp add: show_nat.simps [of n])
next
  case (Suc k)
  then have "n div 10 < 10 ^ Suc k" by (simp add: less_mult_imp_div_less)
  with Suc.IH show ?case by (auto simp: show_nat.simps [of n])
qed

lemma places_facts:
  assumes "n < 1000000000"
  shows "length (places n) = 9" "list_all is_digit (places n)" "digits_value (places n) = n"
proof -
  have "length (show_nat n) \<le> 9" using show_nat_length [of n 8] assms by simp
  then show "length (places n) = 9" by (simp add: places_def)
  show "list_all is_digit (places n)"
    by (auto simp: places_def list_all_iff is_digit_def code_def dest!: show_nat_digits [unfolded is_digit_def code_def])
  show "digits_value (places n) = n" by (simp add: places_def digits_value_zeros)
qed

lemma digit_not_mark: "is_digit c \<Longrightarrow> c \<noteq> CHR ''.'' \<and> c \<noteq> CHR ''-'' \<and> number_char c"
  by (auto simp: number_char_def is_digit_def code_def)

lemma show_nat_chars: "c \<in> set (show_nat k) \<Longrightarrow> c \<noteq> CHR ''.'' \<and> c \<noteq> CHR ''-'' \<and> number_char c"
  using show_nat_digits digit_not_mark by blast

lemma read_decimal_text:
  assumes "length b = 9" and "list_all is_digit b"
  shows "read_decimal (show_nat m @ CHR ''.'' # b) = Some (int m * 1000000000 + int (digits_value b))"
    and "read_decimal (CHR ''-'' # show_nat m @ CHR ''.'' # b) = Some (- (int m * 1000000000 + int (digits_value b)))"
proof -
  have "CHR ''.'' \<notin> set (show_nat m)" using show_nat_chars by blast
  then have b: "before (CHR ''.'') (show_nat m @ CHR ''.'' # b) = show_nat m" "after (CHR ''.'') (show_nat m @ CHR ''.'' # b) = b"
    by (simp_all add: before_append after_append)
  have h: "\<not> prefix ''-'' (show_nat m @ r)" for r
    using show_nat_chars [of _ m] by (cases "show_nat m") auto
  have "b \<noteq> []" using assms(1) by auto
  then show "read_decimal (show_nat m @ CHR ''.'' # b) = Some (int m * 1000000000 + int (digits_value b))"
    "read_decimal (CHR ''-'' # show_nat m @ CHR ''.'' # b) = Some (- (int m * 1000000000 + int (digits_value b)))"
    using assms b h by (simp_all add: read_decimal_def json_nat_show Let_def)
qed

lemma read_show_decimal: "read_decimal (show_decimal f) = Some f"
proof -
  define n where "n = nat \<bar>f\<bar>"
  have p: "length (places (n mod 1000000000)) = 9" "list_all is_digit (places (n mod 1000000000))"
    "digits_value (places (n mod 1000000000)) = n mod 1000000000"
    by (rule places_facts; simp)+
  have n: "int (n div 1000000000) * 1000000000 + int (n mod 1000000000) = int n"
    by (metis div_mult_mod_eq of_nat_add of_nat_mult of_nat_numeral)
  have "show_decimal f = (if f < 0 then ''-'' else []) @ show_nat (n div 1000000000) @ CHR ''.'' # places (n mod 1000000000)"
    by (simp add: show_decimal_def n_def)
  moreover have "read_decimal (show_nat (n div 1000000000) @ CHR ''.'' # places (n mod 1000000000)) = Some (int n)"
    "read_decimal (CHR ''-'' # show_nat (n div 1000000000) @ CHR ''.'' # places (n mod 1000000000)) = Some (- int n)"
    using read_decimal_text [OF p(1,2), of "n div 1000000000"] unfolding p(3) n by simp_all
  moreover have "int n = (if f < 0 then - f else f)" by (simp add: n_def)
  ultimately show ?thesis by simp
qed

interpretation decimal: float_text show_decimal read_decimal
proof
  fix f
  show "read_decimal (show_decimal f) = Some f" by (rule read_show_decimal)
  have "list_all is_digit (places (nat \<bar>f\<bar> mod 1000000000))" by (rule places_facts) simp
  then have "list_all number_char (places (nat \<bar>f\<bar> mod 1000000000))"
    using digit_not_mark by (auto simp: list_all_iff)
  moreover have "list_all number_char (show_nat k)" for k using show_nat_chars by (auto simp: list_all_iff)
  moreover have "number_char (CHR ''.'')" "number_char (CHR ''-'')" by (simp_all add: number_char_def)
  ultimately show "list_all number_char (show_decimal f)" by (simp add: show_decimal_def)
  show "list_ex (\<lambda>c. c \<in> set ''.eE'') (show_decimal f)" by (simp add: show_decimal_def)
qed

end
