(* ===== verification/Errors.thy ===== *)
theory Errors imports Logging Json begin

text \<open>
  Errors on their way over the bus: the error classes of \<^verbatim>\<open>exceptions.py\<close> and of \<^verbatim>\<open>helpers/__init__.py\<close>,
  \<^verbatim>\<open>_reraise\<close> and the wrappers of \<^verbatim>\<open>daemon.py\<close>, which make D-Bus errors of them, and \<^verbatim>\<open>Client._rethrow\<close>,
  which makes them errors again. \<^verbatim>\<open>json.dumps\<close> and \<^verbatim>\<open>json.loads\<close> are arguments.
\<close>

section \<open>Classes\<close>

definition DBUS_NAME :: string where "DBUS_NAME = ''com.steampowered.SteamOSLogSubmitter''"
definition DBUS_ROOT :: string where "DBUS_ROOT = ''/com/steampowered/SteamOSLogSubmitter''"

definition error_name :: "string \<Rightarrow> string" where
  "error_name cls = DBUS_NAME @ ''.Error.'' @ cls"

text \<open>\<^verbatim>\<open>__init_subclass__\<close>: a class is registered under its plain and under its bus name.\<close>

definition register_class :: "string \<Rightarrow> (string, string) dict \<Rightarrow> (string, string) dict" where
  "register_class cls m = dict_set (dict_set m cls cls) (error_name cls) cls"

definition error_classes :: "string list" where
  "error_classes = [''UnknownError'', ''InvalidArgumentsError'', ''LockHeldError'', ''LockNotHeldError'', ''RateLimitingError'']"

definition error_map :: "(string, string) dict" where
  "error_map = fold register_class error_classes []"

definition helper_error_classes :: "string list" where
  "helper_error_classes = [''TransientError'', ''PermanentError'', ''ClassError'']"

definition helper_error_map :: "(string, string) dict" where
  "helper_error_map = fold register_class helper_error_classes []"

text \<open>
  What can be raised: an \<^verbatim>\<open>Error\<close> with its class and data (JNull for None), a \<^verbatim>\<open>HelperError\<close> with its
  class and text, any other DBusError with its type and text, or some other exception.
\<close>

datatype raised = SlsError string json | HelperErr string string | BusError string string | Other exn

definition default_text :: "string \<Rightarrow> string" where
  "default_text cls = (if cls = ''TransientError'' then ''A transient error occurred''
     else if cls = ''PermanentError'' then ''A permanent error occurred''
     else ''A classwide error occurred'')"

definition helper_error :: "string \<Rightarrow> string option \<Rightarrow> raised" where
  "helper_error cls text = HelperErr cls (case text of
       None \<Rightarrow> default_text cls | Some t \<Rightarrow> if t = [] then default_text cls else t)"

section \<open>In the daemon\<close>

definition reraise :: "(json \<Rightarrow> string) \<Rightarrow> string \<Rightarrow> json \<Rightarrow> raised" where
  "reraise dumps cls data = BusError (error_name cls) (dumps data)"

definition exc_wrap :: "(json \<Rightarrow> string) \<Rightarrow> raised + 'a \<Rightarrow> raised + 'a" where
  "exc_wrap dumps r = (case r of Inl (SlsError cls data) \<Rightarrow> Inl (reraise dumps cls data) | _ \<Rightarrow> r)"

definition exc_awrap :: "(json \<Rightarrow> string) \<Rightarrow> raised + 'a \<Rightarrow> raised + 'a" where
  "exc_awrap dumps r = (case r of Inl (SlsError cls data) \<Rightarrow> Inl (reraise dumps cls data) | _ \<Rightarrow> r)"

text \<open>
  The type and text of the error reply: a DBusError's own; of any other exception the library makes
  one with its own type, the argument \<open>service_error\<close>.
\<close>

definition on_the_wire :: "(raised \<Rightarrow> string \<times> string) \<Rightarrow> raised \<Rightarrow> string \<times> string" where
  "on_the_wire service_error r = (case r of
       BusError type text \<Rightarrow> (type, text)
     | HelperErr cls text \<Rightarrow> (error_name cls, text)
     | _ \<Rightarrow> service_error r)"

section \<open>In the client\<close>

text \<open>The type and text of what is a DBusError.\<close>

fun as_dbus_error :: "raised \<Rightarrow> (string \<times> string) option" where
  "as_dbus_error (BusError type text) = Some (type, text)"
| "as_dbus_error (HelperErr cls text) = Some (error_name cls, text)"
| "as_dbus_error _ = None"

definition rethrow :: "(string \<Rightarrow> json result) \<Rightarrow> raised \<Rightarrow> raised" where
  "rethrow loads exc = (case as_dbus_error exc of
       None \<Rightarrow> exc
     | Some (type, text) \<Rightarrow> (case dict_get error_map type of
         Some cls \<Rightarrow> (case loads text of Inl e \<Rightarrow> Other e | Inr data \<Rightarrow> SlsError cls data)
       | None \<Rightarrow> (case dict_get helper_error_map type of
           Some cls \<Rightarrow> helper_error cls (Some text)
         | None \<Rightarrow> SlsError ''UnknownError'' (JObj [(''text'', JStr text)]))))"

section \<open>Properties\<close>

lemma error_map_names: "cls \<in> set error_classes \<Longrightarrow> dict_get error_map (error_name cls) = Some cls"
proof -
  have "list_all (\<lambda>cls. dict_get error_map (error_name cls) = Some cls) error_classes" by code_simp
  then show "cls \<in> set error_classes \<Longrightarrow> ?thesis" by (simp add: list_all_iff)
qed

lemma helper_error_map_names:
  "cls \<in> set helper_error_classes \<Longrightarrow>
     dict_get error_map (error_name cls) = None \<and> dict_get helper_error_map (error_name cls) = Some cls"
proof -
  have "list_all (\<lambda>cls. dict_get error_map (error_name cls) = None
      \<and> dict_get helper_error_map (error_name cls) = Some cls) helper_error_classes"
    by code_simp
  then show "cls \<in> set helper_error_classes \<Longrightarrow> ?thesis" by (simp add: list_all_iff)
qed

lemma helper_error_map_classes: "dict_get helper_error_map type = Some cls \<Longrightarrow> cls \<in> set helper_error_classes"
proof -
  have "list_all (\<lambda>(k, c). c \<in> set helper_error_classes) helper_error_map" by code_simp
  then show "dict_get helper_error_map type = Some cls \<Longrightarrow> ?thesis"
    by (auto simp: list_all_iff dict_get_def dest: map_of_SomeD)
qed

lemma helper_error_text: "text \<noteq> [] \<Longrightarrow> helper_error cls (Some text) = HelperErr cls text"
  by (simp add: helper_error_def)

lemma helper_error_not_empty: "helper_error cls text = HelperErr cls' t \<Longrightarrow> t \<noteq> []"
  by (auto simp: helper_error_def default_text_def split: option.splits if_splits)

text \<open>Commands of the client call each other; handling an error once more changes nothing.\<close>

lemma rethrow_idem: "rethrow loads (rethrow loads exc) = rethrow loads exc"
proof (cases "as_dbus_error exc")
  case None
  then show ?thesis by (simp add: rethrow_def)
next
  case (Some p)
  obtain type msg where p: "p = (type, msg)" by (cases p)
  show ?thesis
  proof (cases "dict_get error_map type")
    case (Some cls)
    then show ?thesis using \<open>as_dbus_error exc = Some p\<close> by (auto simp: rethrow_def p split: sum.split)
  next
    case none: None
    show ?thesis
    proof (cases "dict_get helper_error_map type")
      case None
      then show ?thesis using none \<open>as_dbus_error exc = Some p\<close> by (simp add: rethrow_def p)
    next
      case (Some cls)
      obtain t where t: "helper_error cls (Some msg) = HelperErr cls t" by (simp add: helper_error_def)
      have eq: "rethrow loads exc = HelperErr cls t"
        using none Some \<open>as_dbus_error exc = Some p\<close> t by (simp add: rethrow_def p)
      show ?thesis
        using helper_error_map_names [OF helper_error_map_classes [OF Some]] helper_error_not_empty [OF t]
        by (simp add: eq) (simp add: rethrow_def helper_error_text)
    qed
  qed
qed

text \<open>C8. An error of the daemon arrives in the client as the same error, with all of its data, through the JSON text that the bus carries; a helper's error arrives as itself, with its text; any other error of the bus becomes an UnknownError that carries its text.\<close>

theorem error_crosses_the_bus:
  assumes "cls \<in> set error_classes" and "wf_json data"
    and "hcls \<in> set helper_error_classes" and "as_dbus_error exc = Some (type, other)"
    and "dict_get error_map type = None" and "dict_get helper_error_map type = None"
  shows "((case exc_wrap (json_dumps show_decimal) (Inl (SlsError cls data) :: raised + unit) of
       Inl e \<Rightarrow> rethrow (json_loads read_decimal) (case_prod BusError (on_the_wire service_error e)) | Inr _ \<Rightarrow> Other OtherException)
       = SlsError cls data)
    \<and> rethrow loads (case_prod BusError (on_the_wire service_error (helper_error hcls text))) = helper_error hcls text
    \<and> rethrow loads exc = SlsError ''UnknownError'' (JObj [(''text'', JStr other)])"
proof (intro conjI)
  show "(case exc_wrap (json_dumps show_decimal) (Inl (SlsError cls data) :: raised + unit) of
       Inl e \<Rightarrow> rethrow (json_loads read_decimal) (case_prod BusError (on_the_wire service_error e)) | Inr _ \<Rightarrow> Other OtherException)
       = SlsError cls data"
    using error_map_names [OF assms(1)] decimal.loads_written [OF assms(2)]
    by (simp add: exc_wrap_def reraise_def on_the_wire_def rethrow_def)
  obtain t where t: "helper_error hcls text = HelperErr hcls t" by (simp add: helper_error_def)
  show "rethrow loads (case_prod BusError (on_the_wire service_error (helper_error hcls text))) = helper_error hcls text"
    using helper_error_map_names [OF assms(3)] helper_error_not_empty [OF t]
    by (simp add: t on_the_wire_def rethrow_def helper_error_text)
  show "rethrow loads exc = SlsError ''UnknownError'' (JObj [(''text'', JStr other)])"
    using assms(4-6) by (simp add: rethrow_def)
qed

theorem error_crosses_the_bus_witness:
  "(case exc_wrap (json_dumps show_decimal) (Inl (SlsError ''InvalidArgumentsError'' (JObj [(''level'', JInt 7)])) :: raised + unit) of
       Inl e \<Rightarrow> rethrow (json_loads read_decimal) (case_prod BusError (on_the_wire (\<lambda>_. ([], [])) e)) | Inr _ \<Rightarrow> Other OtherException)
       = SlsError ''InvalidArgumentsError'' (JObj [(''level'', JInt 7)])
   \<and> rethrow (json_loads read_decimal) (BusError ''org.freedesktop.DBus.Error.NoReply'' ''timeout'')
       = SlsError ''UnknownError'' (JObj [(''text'', JStr ''timeout'')])"
proof -
  have "''InvalidArgumentsError'' \<in> set error_classes" "wf_json (JObj [(''level'', JInt 7)])" "''ClassError'' \<in> set helper_error_classes"
    "as_dbus_error (BusError ''org.freedesktop.DBus.Error.NoReply'' ''timeout'') = Some (''org.freedesktop.DBus.Error.NoReply'', ''timeout'')"
    "dict_get error_map ''org.freedesktop.DBus.Error.NoReply'' = None"
    "dict_get helper_error_map ''org.freedesktop.DBus.Error.NoReply'' = None"
    by code_simp+
  from error_crosses_the_bus [OF this, of "\<lambda>_. ([], [])" "json_loads read_decimal"]
  show ?thesis by blast
qed

end
