(* ===== verification/Interfaces.thy ===== *)
theory Interfaces imports Errors Runner_All Util_Names begin

text \<open>
  What the daemon offers on the bus: \<^verbatim>\<open>HelperInterface\<close> of \<^verbatim>\<open>helpers/__init__.py\<close> and \<^verbatim>\<open>DaemonInterface\<close> of
  \<^verbatim>\<open>daemon.py\<close>, the objects \<^verbatim>\<open>_setup_dbus\<close> exports and \<^verbatim>\<open>shutdown\<close> takes back. The methods that only call
  one of the daemon's coroutines (Trigger, TriggerAsync, Shutdown and the setters of Enabled and
  Inhibited) are the calls of theory Daemon.
\<close>

section \<open>Requests and values\<close>

datatype bvalue = BUnit | BBool bool | BInt int | BStr string | BStrs "string list" | BFd int

text \<open>
  A request to the daemon's bus name; the introspection that a proxy does before a request is part of it.
\<close>

datatype bus_request =
    Ping
  | Introspect string
  | Children string
  | GetProp string string string               \<comment> \<open>object, interface, property\<close>
  | SetProp string string string bvalue
  | Method string string string "bvalue list"

text \<open>The exceptions of the other theories, as they are raised.\<close>

definition lift_exn :: "exn \<Rightarrow> raised" where
  "lift_exn e = (case e of
       TransientError \<Rightarrow> helper_error ''TransientError'' None
     | PermanentError \<Rightarrow> helper_error ''PermanentError'' None
     | ClassError \<Rightarrow> helper_error ''ClassError'' None
     | LockHeldError \<Rightarrow> SlsError ''LockHeldError'' JNull
     | LockNotHeldError \<Rightarrow> SlsError ''LockNotHeldError'' JNull
     | InvalidArgumentsError \<Rightarrow> SlsError ''InvalidArgumentsError'' JNull
     | DBusError type msg \<Rightarrow> BusError type msg
     | _ \<Rightarrow> Other e)"

definition answer :: "('a \<Rightarrow> bvalue) \<Rightarrow> 'a result \<Rightarrow> raised + bvalue" where
  "answer f r = map_sum lift_exn f r"

definition no_such :: "string \<Rightarrow> raised" where
  "no_such what = BusError (''org.freedesktop.DBus.Error.'' @ what) []"

section \<open>Helpers\<close>

definition helper_get :: "helper \<Rightarrow> string \<Rightarrow> 'x world_scheme \<Rightarrow> raised + bvalue" where
  "helper_get h name w =
     (if name = ''Enabled'' then answer BBool (enabled w h)
      else if name = ''CollectEnabled'' then answer BBool (collect_enabled w h)
      else if name = ''SubmitEnabled'' then answer BBool (submit_enabled w h)
      else if name = ''LastCollected'' then answer BInt (last_collected_prop w h)
      else Inl (no_such ''UnknownProperty''))"

definition helper_set :: "helper \<Rightarrow> string \<Rightarrow> bvalue \<Rightarrow> 'x world_scheme \<Rightarrow> (raised + bvalue) \<times> 'x world_scheme" where
  "helper_set h name v w = (case v of
       BBool b \<Rightarrow>
         (if name = ''Enabled'' then map_prod (answer (\<lambda>_. BUnit)) id (enable h b w)
          else if name = ''CollectEnabled'' then map_prod (answer (\<lambda>_. BUnit)) id (enable_collect h b w)
          else if name = ''SubmitEnabled'' then map_prod (answer (\<lambda>_. BUnit)) id (enable_submit h b w)
          else (Inl (no_such ''UnknownProperty''), w))
     | _ \<Rightarrow> (Inl (no_such ''InvalidArgs''), w))"

definition extract_method :: "(string \<Rightarrow> int result) \<Rightarrow> string \<Rightarrow> helper \<Rightarrow> string \<Rightarrow> string \<Rightarrow> raised + bvalue" where
  "extract_method os_open base h filename type = (case extract_paths base h filename type of
       Inl PermanentError \<Rightarrow> Inl (helper_error ''PermanentError'' (Some ''Invalid filename''))
     | Inl e \<Rightarrow> Inl (lift_exn e)
     | Inr ps \<Rightarrow> (case first_open os_open ps of
         Inl PermanentError \<Rightarrow> Inl (helper_error ''PermanentError'' (Some ''Could not open file''))
       | r \<Rightarrow> answer BFd r))"

definition helper_method :: "(string \<Rightarrow> int result) \<Rightarrow> string \<Rightarrow> 'x world_scheme helper_ops \<Rightarrow> string \<Rightarrow> bvalue list
    \<Rightarrow> 'x world_scheme \<Rightarrow> (raised + bvalue) \<times> 'x world_scheme" where
  "helper_method os_open base ops name args w =
     (let h = op_helper ops in
      if name = ''Collect'' \<and> args = [] then map_prod (answer BStrs) id (op_collect ops w)
      else if name = ''ListFailed'' \<and> args = [] then (Inr (BStrs (list_failed w h)), w)
      else if name = ''ListPending'' \<and> args = [] then (Inr (BStrs (list_pending w h)), w)
      else if name = ''ListUploaded'' \<and> args = [] then (Inr (BStrs (list_uploaded w h)), w)
      else if name = ''Extract'' then (case args of
          [BStr filename, BStr type] \<Rightarrow> (extract_method os_open base h filename type, w)
        | _ \<Rightarrow> (Inl (no_such ''InvalidArgs''), w))
      else (Inl (no_such ''UnknownMethod''), w))"

section \<open>The manager\<close>

text \<open>CollectEnabled and SubmitEnabled are two keys of the base section.\<close>

definition base_flag :: "'x world_scheme \<Rightarrow> string \<Rightarrow> bool result" where
  "base_flag w name = map_sum id (\<lambda>v. v = Some ''on'') (base_get w name ''on'')"

text \<open>\<^verbatim>\<open>Daemon.enabled\<close> and \<^verbatim>\<open>Daemon.inhibited\<close>.\<close>

definition daemon_flag :: "'x world_scheme \<Rightarrow> string \<Rightarrow> bool result" where
  "daemon_flag w name = map_sum id (\<lambda>v. v = Some ''on'') (base_get w name ''off'')"

definition set_base_flag :: "string \<Rightarrow> bool \<Rightarrow> 'x world_scheme \<Rightarrow> unit result \<times> 'x world_scheme" where
  "set_base_flag name on w = (case sec_setitem (conf w) ''sls'' name (if on then ''on'' else ''off'') of
       (Inl e, c) \<Rightarrow> (Inl e, w\<lparr>conf := c\<rparr>)
     | (Inr _, c) \<Rightarrow> (case write_config c of (r, c') \<Rightarrow> (r, w\<lparr>conf := c'\<rparr>)))"

definition all_logs :: "('x world_scheme \<Rightarrow> tree) \<Rightarrow> 'x world_scheme registry \<Rightarrow> 'x world_scheme \<Rightarrow> string list" where
  "all_logs base reg w = concat (map (\<lambda>(name, m). case m of
       None \<Rightarrow> [] | Some ops \<Rightarrow> name_logs name (list_type (base w) (op_helper ops))) reg)"

fun newest_collected :: "'x world_scheme \<Rightarrow> 'x world_scheme registry \<Rightarrow> int option \<Rightarrow> int option result" where
  "newest_collected w [] newest = Inr newest"
| "newest_collected w ((name, None) # reg) newest = newest_collected w reg newest"
| "newest_collected w ((name, Some ops) # reg) newest = (case last_collected w (op_helper ops) of
       Inl e \<Rightarrow> Inl e
     | Inr None \<Rightarrow> newest_collected w reg newest
     | Inr (Some t) \<Rightarrow> newest_collected w reg (if later t newest then Some t else newest))"

definition daemon_last_collected :: "'x world_scheme registry \<Rightarrow> 'x world_scheme \<Rightarrow> int result" where
  "daemon_last_collected reg w = map_sum id (\<lambda>n. case n of None \<Rightarrow> 0 | Some t \<Rightarrow> whole_seconds t)
     (newest_collected w reg None)"

text \<open>\<^verbatim>\<open>Log\<close>: the record that is logged, with the time the caller gave.\<close>

definition log_method :: "int \<Rightarrow> string \<Rightarrow> int \<Rightarrow> string \<Rightarrow> raised + (string \<times> int \<times> string \<times> int)" where
  "log_method timestamp module level message =
     (if \<not> valid_level_number level then Inl (SlsError ''InvalidArgumentsError'' (JObj [(''level'', JInt level)]))
      else Inr (module, level, message, timestamp))"

text \<open>\<^verbatim>\<open>WrappedLogRecord.created\<close>: a time of 0 counts as none.\<close>

definition record_created :: "int option \<Rightarrow> int \<Rightarrow> int" where
  "record_created custom own = (case custom of None \<Rightarrow> own | Some t \<Rightarrow> if t = 0 then own else t)"

definition manager_get :: "(json \<Rightarrow> string) \<Rightarrow> string option \<Rightarrow> 'x world_scheme registry \<Rightarrow> string \<Rightarrow> 'x world_scheme
    \<Rightarrow> raised + bvalue" where
  "manager_get dumps unit_id reg name w =
     (if name = ''Version'' then Inr (BStr ''0.8.2'')
      else if name = ''Enabled'' then exc_wrap dumps (answer BBool (daemon_flag w ''enable''))
      else if name = ''Inhibited'' then exc_wrap dumps (answer BBool (daemon_flag w ''inhibit''))
      else if name = ''CollectEnabled'' then exc_wrap dumps (answer BBool (base_flag w ''collect''))
      else if name = ''SubmitEnabled'' then exc_wrap dumps (answer BBool (base_flag w ''submit''))
      else if name = ''LogLevel'' then exc_wrap dumps (case log_level (conf w) of
          Inl e \<Rightarrow> Inl (lift_exn e) | Inr (JInt n) \<Rightarrow> Inr (BInt n) | Inr _ \<Rightarrow> Inl (Other TypeError))
      else if name = ''UnitId'' then Inr (BStr (case unit_id of None \<Rightarrow> [] | Some u \<Rightarrow> u))
      else if name = ''LastCollected'' then answer BInt (daemon_last_collected reg w)
      else Inl (no_such ''UnknownProperty''))"

definition manager_set :: "(json \<Rightarrow> string) \<Rightarrow> string \<Rightarrow> bvalue \<Rightarrow> 'x world_scheme \<Rightarrow> (raised + bvalue) \<times> 'x world_scheme" where
  "manager_set dumps name v w = (case v of
       BBool b \<Rightarrow>
         (if name = ''CollectEnabled'' then map_prod (exc_wrap dumps \<circ> answer (\<lambda>_. BUnit)) id (set_base_flag ''collect'' b w)
          else if name = ''SubmitEnabled'' then map_prod (exc_wrap dumps \<circ> answer (\<lambda>_. BUnit)) id (set_base_flag ''submit'' b w)
          else (Inl (no_such ''UnknownProperty''), w))
     | _ \<Rightarrow> (Inl (no_such ''InvalidArgs''), w))"

definition manager_method :: "(json \<Rightarrow> string) \<Rightarrow> 'x world_scheme registry \<Rightarrow> string \<Rightarrow> bvalue list \<Rightarrow> 'x world_scheme
    \<Rightarrow> raised + bvalue" where
  "manager_method dumps reg name args w =
     (if name = ''ListFailed'' \<and> args = [] then exc_wrap dumps (Inr (BStrs (all_logs fail reg w)))
      else if name = ''ListPending'' \<and> args = [] then exc_wrap dumps (Inr (BStrs (all_logs pend reg w)))
      else if name = ''ListUploaded'' \<and> args = [] then exc_wrap dumps (Inr (BStrs (all_logs upl reg w)))
      else if name = ''Log'' then (case args of
          [BInt ts, BStr module, BInt level, BStr message] \<Rightarrow>
            exc_awrap dumps (map_sum id (\<lambda>_. BUnit) (log_method ts module level message))
        | _ \<Rightarrow> Inl (no_such ''InvalidArgs''))
      else Inl (no_such ''UnknownMethod''))"

section \<open>Exported objects\<close>

text \<open>A helper's interfaces: its own, the further ones, and its child services by name.\<close>

record exported_helper =
  ex_name :: string
  ex_iface :: bool                              \<comment> \<open>helper\_module.iface is set\<close>
  ex_extra :: "string list"
  ex_children :: "(string \<times> string) list"

definition manager_path :: string where "manager_path = DBUS_ROOT @ ''/Manager''"
definition helpers_path :: string where "helpers_path = DBUS_ROOT @ ''/helpers''"
definition helper_path :: "string \<Rightarrow> string" where "helper_path name = helpers_path @ ''/'' @ camel_case name"

definition manager_iface :: string where "manager_iface = DBUS_NAME @ ''.Manager''"
definition helper_iface :: string where "helper_iface = DBUS_NAME @ ''.Helper''"

text \<open>The interfaces exported on the bus, by path and name.\<close>

type_synonym exports = "(string \<times> string) list"

definition export :: "string \<times> string \<Rightarrow> exports \<Rightarrow> exports" where
  "export e es = es @ [e]"

definition unexport :: "string \<times> string \<Rightarrow> exports \<Rightarrow> exports" where
  "unexport e es = filter (\<lambda>x. x \<noteq> e) es"

fun setup_helpers :: "exported_helper option list \<Rightarrow> exports \<Rightarrow> exports" where
  "setup_helpers [] es = es"
| "setup_helpers (None # hs) es = setup_helpers hs es"
| "setup_helpers (Some h # hs) es =
     (if \<not> ex_iface h then setup_helpers hs es
      else (let path = helper_path (ex_name h);
                es1 = export (path, helper_iface) es;
                es2 = fold (\<lambda>i. export (path, i)) (ex_extra h) es1;
                es3 = fold (\<lambda>(service, i). export (path @ ''/'' @ service, i)) (ex_children h) es2
            in setup_helpers hs es3))"

definition setup_dbus :: "exported_helper option list \<Rightarrow> exports \<Rightarrow> exports" where
  "setup_dbus hs es = setup_helpers hs (export (manager_path, manager_iface) es)"

fun shutdown_helpers :: "exported_helper option list \<Rightarrow> exports \<Rightarrow> exports" where
  "shutdown_helpers [] es = es"
| "shutdown_helpers (None # hs) es = shutdown_helpers hs es"
| "shutdown_helpers (Some h # hs) es =
     (if \<not> ex_iface h then shutdown_helpers hs es
      else (let path = helper_path (ex_name h);
                es1 = unexport (path, helper_iface) es;
                es2 = fold (\<lambda>i. unexport (path, i)) (ex_extra h) es1;
                es3 = fold (\<lambda>(service, i). unexport (path @ ''/'' @ service, i)) (ex_children h) es2
            in shutdown_helpers hs es3))"

definition shutdown_dbus :: "exported_helper option list \<Rightarrow> exports \<Rightarrow> exports" where
  "shutdown_dbus hs es = shutdown_helpers hs (unexport (manager_path, manager_iface) es)"

text \<open>The child objects introspection reports: the next component of every path below, once.\<close>

definition child_paths :: "string \<Rightarrow> exports \<Rightarrow> string list" where
  "child_paths path es = remdups (map (\<lambda>p. path @ ''/'' @ before (CHR ''/'') (drop (Suc (length path)) p))
     (filter (\<lambda>p. prefix (path @ ''/'') p) (map fst es)))"

section \<open>The daemon's answers\<close>

record 'w server =
  sv_reg :: "'w registry"
  sv_exports :: exports
  sv_open :: "string \<Rightarrow> int result"
  sv_base :: string
  sv_unit :: "string option"
  sv_dumps :: "json \<Rightarrow> string"
  sv_error :: "raised \<Rightarrow> string \<times> string"       \<comment> \<open>the library's reply to other exceptions\<close>

definition object_of :: "'x world_scheme server \<Rightarrow> string \<Rightarrow> 'x world_scheme helper_ops option" where
  "object_of sv path = (if (path, helper_iface) \<in> set (sv_exports sv)
     then find (\<lambda>ops. helper_path (h_name (op_helper ops)) = path) (List.map_filter snd (sv_reg sv)) else None)"

definition handle :: "'x world_scheme server \<Rightarrow> bus_request \<Rightarrow> 'x world_scheme \<Rightarrow> (raised + bvalue) \<times> 'x world_scheme" where
  "handle sv rq w = (case rq of
       Ping \<Rightarrow> (Inr BUnit, w)
     | Introspect path \<Rightarrow> (Inr BUnit, w)
     | Children path \<Rightarrow> (Inr (BStrs (child_paths path (sv_exports sv))), w)
     | GetProp path iface name \<Rightarrow>
         (if path = manager_path \<and> iface = manager_iface
          then (manager_get (sv_dumps sv) (sv_unit sv) (sv_reg sv) name w, w)
          else (case object_of sv path of
              Some ops \<Rightarrow> (if iface = helper_iface then (helper_get (op_helper ops) name w, w)
                 else (Inl (no_such ''UnknownInterface''), w))
            | None \<Rightarrow> (Inl (no_such ''UnknownObject''), w)))
     | SetProp path iface name v \<Rightarrow>
         (if path = manager_path \<and> iface = manager_iface then manager_set (sv_dumps sv) name v w
          else (case object_of sv path of
              Some ops \<Rightarrow> (if iface = helper_iface then helper_set (op_helper ops) name v w
                 else (Inl (no_such ''UnknownInterface''), w))
            | None \<Rightarrow> (Inl (no_such ''UnknownObject''), w)))
     | Method path iface name args \<Rightarrow>
         (if path = manager_path \<and> iface = manager_iface
          then (manager_method (sv_dumps sv) (sv_reg sv) name args w, w)
          else (case object_of sv path of
              Some ops \<Rightarrow> (if iface = helper_iface then helper_method (sv_open sv) (sv_base sv) ops name args w
                 else (Inl (no_such ''UnknownInterface''), w))
            | None \<Rightarrow> (Inl (no_such ''UnknownObject''), w))))"

definition serve :: "'x world_scheme server \<Rightarrow> bus_request \<Rightarrow> 'x world_scheme \<Rightarrow> (raised + bvalue) \<times> 'x world_scheme" where
  "serve sv rq w = (case handle sv rq w of
       (Inl e, w') \<Rightarrow> (Inl (case_prod BusError (on_the_wire (sv_error sv) e)), w')
     | (Inr v, w') \<Rightarrow> (Inr v, w'))"

section \<open>What is exported is taken back\<close>

definition helper_exports :: "exported_helper \<Rightarrow> exports" where
  "helper_exports h = (let path = helper_path (ex_name h) in
     (path, helper_iface) # map (Pair path) (ex_extra h) @ map (\<lambda>(service, i). (path @ ''/'' @ service, i)) (ex_children h))"

definition daemon_exports :: "exported_helper option list \<Rightarrow> exports" where
  "daemon_exports hs = (manager_path, manager_iface)
     # concat (map helper_exports (filter ex_iface (List.map_filter id hs)))"

lemma fold_export: "fold (\<lambda>x. export (f x)) xs es = es @ map f xs"
  by (induction xs arbitrary: es) (simp_all add: export_def)

lemma fold_unexport: "fold (\<lambda>x. unexport (f x)) xs es = filter (\<lambda>e. e \<notin> f ` set xs) es"
  by (induction xs arbitrary: es) (auto simp: unexport_def intro: filter_cong)

lemma fold_export_pairs: "fold (\<lambda>(a, b). export (f a, b)) xs es = es @ map (\<lambda>(a, b). (f a, b)) xs"
  by (induction xs arbitrary: es) (auto simp: export_def)

lemma fold_unexport_pairs:
  "fold (\<lambda>(a, b). unexport (f a, b)) xs es = filter (\<lambda>e. e \<notin> set (map (\<lambda>(a, b). (f a, b)) xs)) es"
  by (induction xs arbitrary: es) (auto simp: unexport_def intro: filter_cong)

lemma setup_helpers_eq:
  "setup_helpers hs es = es @ concat (map helper_exports (filter ex_iface (List.map_filter id hs)))"
proof (induction hs arbitrary: es)
  case (Cons h hs)
  show ?case
    by (cases h) (simp_all add: Cons.IH List.map_filter_simps Let_def fold_export fold_export_pairs helper_exports_def export_def)
qed (simp add: List.map_filter_simps)

lemma setup_dbus_eq: "setup_dbus hs es = es @ daemon_exports hs"
  by (simp add: setup_dbus_def daemon_exports_def setup_helpers_eq export_def)

lemma shutdown_helpers_eq:
  "shutdown_helpers hs es
     = filter (\<lambda>e. e \<notin> set (concat (map helper_exports (filter ex_iface (List.map_filter id hs))))) es"
proof (induction hs arbitrary: es)
  case (Cons h hs)
  show ?case
    by (cases h) (auto simp: Cons.IH List.map_filter_simps Let_def fold_unexport fold_unexport_pairs helper_exports_def unexport_def
        intro!: filter_cong)
qed (simp add: List.map_filter_simps)

lemma shutdown_dbus_eq: "shutdown_dbus hs es = filter (\<lambda>e. e \<notin> set (daemon_exports hs)) es"
  by (auto simp: shutdown_dbus_def daemon_exports_def shutdown_helpers_eq unexport_def intro: filter_cong)

text \<open>Shutting down takes back everything that was exported, and nothing else, when the bus had none of the daemon's exports before.\<close>

theorem shutdown_takes_back_exports:
  assumes "set es \<inter> set (daemon_exports hs) = {}"
  shows "shutdown_dbus hs (setup_dbus hs es) = es"
  using assms by (auto simp: shutdown_dbus_eq setup_dbus_eq filter_empty_conv intro: filter_True)

theorem shutdown_takes_back_exports_witness:
  "shutdown_dbus [Some \<lparr>ex_name = ''sysinfo'', ex_iface = True, ex_extra = [''X''], ex_children = [(''Usb'', ''T'')]\<rparr>, None]
     (setup_dbus [Some \<lparr>ex_name = ''sysinfo'', ex_iface = True, ex_extra = [''X''], ex_children = [(''Usb'', ''T'')]\<rparr>, None] [(''/x'', ''y'')])
   = [(''/x'', ''y'')]"
proof -
  have "set [(''/x'', ''y'')] \<inter> set (daemon_exports
      [Some \<lparr>ex_name = ''sysinfo'', ex_iface = True, ex_extra = [''X''], ex_children = [(''Usb'', ''T'')]\<rparr>, None]) = {}"
    by code_simp
  from shutdown_takes_back_exports [OF this] show ?thesis .
qed

section \<open>Helpers are found under their paths\<close>

definition helper_id :: "string \<Rightarrow> bool" where
  "helper_id n = list_all name_word (split_on (CHR ''_'') n)"

lemma snake_camel_id: "helper_id n \<Longrightarrow> snake_case (camel_case n) = n"
  using snake_camel_case [of "split_on (CHR ''_'') n"] by (simp add: helper_id_def list_all_iff join_split_on)

lemma camel_rest_chars: "c \<in> set (camel_rest s) \<Longrightarrow> \<not> is_upper c \<Longrightarrow> c \<in> set s"
proof (induction s rule: camel_rest.induct)
  case (2 a cs)
  show ?case
  proof (cases cs)
    case Nil
    then show ?thesis using 2 by (auto split: if_splits)
  next
    case (Cons d ds)
    have "c \<in> set (if a = CHR ''_'' then (if is_lower d then upper_char d # camel_rest ds else camel_rest cs)
        else a # camel_rest cs)"
      using "2.prems"(1) camel_rest.simps(2) [of a cs] by (simp add: Cons del: camel_rest.simps split: if_splits)
    then show ?thesis
      using 2 by (auto simp: Cons simp del: camel_rest.simps split: if_splits)
  qed
qed simp

lemma camel_case_chars: "c \<in> set (camel_case s) \<Longrightarrow> \<not> is_upper c \<Longrightarrow> c \<in> set s"
  using camel_rest_chars [of c s] camel_rest_chars [of c "tl s"]
  by (cases s) (auto simp: camel_case_def simp del: camel_rest.simps split: if_splits)

lemma name_word_chars: "name_word w \<Longrightarrow> c \<in> set w \<Longrightarrow> is_lower c \<or> is_digit c"
  by (auto simp: name_word_def list_all_iff split: list.splits)

lemma slash_class: "\<not> is_upper (CHR ''/'')" "\<not> is_lower (CHR ''/'')" "\<not> is_digit (CHR ''/'')"
  by code_simp+

lemma set_join: "c \<in> set (join sep ps) \<Longrightarrow> c \<in> set sep \<or> (\<exists>p \<in> set ps. c \<in> set p)"
  by (induction sep ps rule: join.induct) auto

lemma helper_id_no_slash: "helper_id n \<Longrightarrow> CHR ''/'' \<notin> set n"
proof
  assume n: "helper_id n" and "CHR ''/'' \<in> set n"
  then have "CHR ''/'' \<in> set (join ''_'' (split_on (CHR ''_'') n))" by (simp add: join_split_on)
  then obtain w where "w \<in> set (split_on (CHR ''_'') n)" "CHR ''/'' \<in> set w"
    by (auto dest: set_join)
  then show False using n name_word_chars slash_class by (auto simp: helper_id_def list_all_iff)
qed

lemma camel_no_slash: "helper_id n \<Longrightarrow> CHR ''/'' \<notin> set (camel_case n)"
  using camel_case_chars helper_id_no_slash slash_class by blast

lemma helper_path_inj: "helper_id m \<Longrightarrow> helper_id n \<Longrightarrow> helper_path m = helper_path n \<Longrightarrow> m = n"
  using snake_camel_id by (metis append_same_eq helper_path_def same_append_eq)

text \<open>The names a registry's helpers are served under, and that the exports are theirs.\<close>

definition helper_names :: "'w registry \<Rightarrow> string list" where
  "helper_names reg = List.map_filter (\<lambda>(n, m). map_option (\<lambda>_. n) m) reg"

definition served :: "exported_helper option list \<Rightarrow> 'x world_scheme server \<Rightarrow> bool" where
  "served hs sv = (sv_exports sv = setup_dbus hs []
     \<and> list_all (\<lambda>(n, m). case m of None \<Rightarrow> True | Some ops \<Rightarrow> h_name (op_helper ops) = n \<and> helper_id n) (sv_reg sv)
     \<and> distinct (helper_names (sv_reg sv))
     \<and> list_all ex_iface (List.map_filter id hs)
     \<and> map ex_name (List.map_filter id hs) = helper_names (sv_reg sv))"

lemma helper_names_in: "n \<in> set (helper_names reg) \<longleftrightarrow> (\<exists>ops. (n, Some ops) \<in> set reg)"
  by (force simp: helper_names_def set_map_filter)

lemma served_ops: "served hs sv \<Longrightarrow> (n, Some ops) \<in> set (sv_reg sv) \<Longrightarrow> h_name (op_helper ops) = n \<and> helper_id n"
  by (fastforce simp: served_def list_all_iff)

lemma served_id: "served hs sv \<Longrightarrow> n \<in> set (helper_names (sv_reg sv)) \<Longrightarrow> helper_id n"
  using served_ops by (auto simp: helper_names_in)

lemma served_unique:
  "served hs sv \<Longrightarrow> (n, Some ops) \<in> set (sv_reg sv) \<Longrightarrow> (n, Some ops') \<in> set (sv_reg sv) \<Longrightarrow> ops = ops'"
proof -
  have "distinct (helper_names reg) \<Longrightarrow> (n, Some ops) \<in> set reg \<Longrightarrow> (n, Some ops') \<in> set reg \<Longrightarrow> ops = ops'" for reg
    by (induction reg) (auto simp: helper_names_def List.map_filter_simps set_map_filter split: option.splits)
  then show "served hs sv \<Longrightarrow> (n, Some ops) \<in> set (sv_reg sv) \<Longrightarrow> (n, Some ops') \<in> set (sv_reg sv) \<Longrightarrow> ops = ops'"
    by (auto simp: served_def)
qed

lemma served_exports:
  "served hs sv \<Longrightarrow> (n, Some ops) \<in> set (sv_reg sv) \<Longrightarrow> (helper_path n, helper_iface) \<in> set (sv_exports sv)"
proof -
  assume sv: "served hs sv" and "(n, Some ops) \<in> set (sv_reg sv)"
  then have "n \<in> set (map ex_name (List.map_filter id hs))"
    by (auto simp: served_def helper_names_in)
  then obtain h where "h \<in> set (List.map_filter id hs)" "ex_name h = n" by auto
  moreover from this have "ex_iface h" using sv by (auto simp: served_def list_all_iff)
  ultimately show ?thesis using sv
    by (auto simp: served_def setup_dbus_eq daemon_exports_def helper_exports_def Let_def intro!: bexI [of _ h])
qed

lemma object_of_helper:
  assumes "served hs sv" and "(n, Some ops) \<in> set (sv_reg sv)"
  shows "object_of sv (helper_path n) = Some ops"
proof -
  let ?P = "\<lambda>ops. helper_path (h_name (op_helper ops)) = helper_path n"
  have in_ops: "ops \<in> set (List.map_filter snd (sv_reg sv))"
    using assms(2) by (force simp: set_map_filter)
  have n: "h_name (op_helper ops) = n" "helper_id n" using served_ops [OF assms] by auto
  have "find ?P (List.map_filter snd (sv_reg sv)) \<noteq> None"
    using in_ops n by (auto simp: find_None_iff)
  then obtain ops' where f: "find ?P (List.map_filter snd (sv_reg sv)) = Some ops'" by auto
  then have ops': "ops' \<in> set (List.map_filter snd (sv_reg sv))" "helper_path (h_name (op_helper ops')) = helper_path n"
    by (auto simp: find_Some_iff)
  then obtain m where m: "(m, Some ops') \<in> set (sv_reg sv)"
    by (auto simp: set_map_filter)
  then have "m = n" using served_ops [OF assms(1) m] ops'(2) n(2) helper_path_inj by auto
  then have "ops' = ops" using served_unique [OF assms(1)] m assms(2) by blast
  then show ?thesis using f served_exports [OF assms] by (simp add: object_of_def)
qed

lemma paths_differ: "helper_path n \<noteq> manager_path" "\<not> prefix (helpers_path @ ''/'') manager_path"
  by (simp_all add: helper_path_def manager_path_def helpers_path_def DBUS_ROOT_def)

lemma Collect_insert_out: "A = insert m U \<Longrightarrow> \<not> P m \<Longrightarrow> (\<And>p. p \<in> U \<Longrightarrow> P p) \<Longrightarrow> {p \<in> A. P p} = U"
  by auto

lemma child_paths_helpers:
  assumes "served hs sv"
  shows "set (child_paths helpers_path (sv_exports sv)) = helper_path ` set (helper_names (sv_reg sv))"
proof -
  define child where "child p = helpers_path @ ''/'' @ before (CHR ''/'') (drop (Suc (length helpers_path)) p)" for p
  have names: "set (helper_names (sv_reg sv)) = ex_name ` set (List.map_filter id hs)"
    using assms by (metis list.set_map served_def)
  have child: "child (helper_path n) = helper_path n \<and> child (helper_path n @ ''/'' @ s) = helper_path n"
    if "helper_id n" for n s
    using camel_no_slash [OF that] by (simp add: child_def helper_path_def)
  define U where "U = (\<Union>h \<in> set (List.map_filter id hs). fst ` set (helper_exports h))"
  have pre: "prefix (helpers_path @ ''/'') p" if "p \<in> U" for p
    using that by (auto simp: U_def helper_exports_def Let_def helper_path_def)
  have "filter ex_iface (List.map_filter id hs) = List.map_filter id hs"
    using assms by (simp add: served_def list_all_iff)
  then have "fst ` set (daemon_exports hs) = insert manager_path U"
    unfolding daemon_exports_def U_def by (simp add: image_Un image_UN)
  from Collect_insert_out [of _ _ _ "prefix (helpers_path @ ''/'')", OF this paths_differ(2) pre]
  have "{p \<in> fst ` set (daemon_exports hs). prefix (helpers_path @ ''/'') p} = U" .
  moreover have "child_paths helpers_path es = remdups (map child (filter (prefix (helpers_path @ ''/'')) (map fst es)))" for es
    unfolding child_paths_def child_def [abs_def] by (rule refl)
  moreover have "sv_exports sv = daemon_exports hs"
    using assms by (simp add: served_def setup_dbus_eq)
  ultimately have "set (child_paths helpers_path (sv_exports sv)) = child ` U"
    by (simp only: set_remdups set_map set_filter)
  also have "\<dots> = (\<Union>h \<in> set (List.map_filter id hs). child ` fst ` set (helper_exports h))"
    unfolding U_def by (rule image_UN)
  also have "\<dots> = (\<Union>h \<in> set (List.map_filter id hs). {helper_path (ex_name h)})"
  proof (rule SUP_cong [OF refl])
    fix h assume "h \<in> set (List.map_filter id hs)"
    then have "helper_id (ex_name h)" using served_id [OF assms] names by auto
    then have "child p = helper_path (ex_name h)" if "p \<in> fst ` set (helper_exports h)" for p
      using that child by (auto simp: helper_exports_def Let_def)
    moreover have "helper_exports h \<noteq> []" by (simp add: helper_exports_def Let_def)
    ultimately show "child ` fst ` set (helper_exports h) = {helper_path (ex_name h)}"
      by (cases "helper_exports h") auto
  qed
  finally show ?thesis using names by auto
qed

section \<open>Switches and times of the manager\<close>

definition base_defaults :: options where
  "base_defaults = [(''enable'', ''off''), (''base'', ''/var/lib/steamos-log-submitter'')]"

lemma set_base_flag_reads:
  assumes "store_ok (conf w)" and "set_base_flag name on w = (Inr (), w')"
  shows "base_flag w' name = Inr on \<and> base_get w' name dflt = Inr (Some (if on then ''on'' else ''off''))"
proof -
  let ?v = "if on then ''on'' else ''off''"
  have "CHR ''$'' \<notin> set ?v" by simp
  from sec_setitem_reads [OF assms(1) this, of "''sls''" name base_defaults] obtain c where
    c: "sec_setitem (conf w) ''sls'' name ?v = (Inr (), c)"
    and g: "\<And>s n. sec_getitem c s base_defaults n
       = (if s = ''sls'' \<and> optionxform n = optionxform name then Inr ?v else sec_getitem (conf w) s base_defaults n)"
    by blast
  obtain c' where wr: "write_config c = (Inr (), c')" and w': "w' = w\<lparr>conf := c'\<rparr>"
    using assms(2) c by (auto simp: set_base_flag_def split: prod.splits)
  have "sec_getitem c' ''sls'' base_defaults name = Inr ?v"
    using g [of "''sls''" name] wr by (auto simp: write_config_def save_cfg_def sec_getitem_def split: option.splits if_splits)
  then show ?thesis by (simp add: base_flag_def base_get_def sec_get_def w' base_defaults_def)
qed

lemma exc_wrap_Inr [simp]: "exc_wrap dumps r = Inr v \<longleftrightarrow> r = Inr v"
  by (auto simp: exc_wrap_def split: sum.splits raised.splits)

lemma answer_simps [simp]: "answer f (Inr x) = Inr (f x)" "answer f r = Inr v \<longleftrightarrow> (\<exists>x. r = Inr x \<and> v = f x)"
  by (cases r; auto simp: answer_def)+

lemma serve_Inr: "serve sv rq w = (Inr v, w') \<longleftrightarrow> handle sv rq w = (Inr v, w')"
  by (auto simp: serve_def split: prod.splits sum.splits)

text \<open>Once collection has been switched off over the bus, the runner collects nothing and changes nothing, whatever the helpers' own flags say, and the property reads false.\<close>

theorem switched_off_collects_nothing:
  assumes "store_ok (conf w)"
    and "serve sv (SetProp manager_path manager_iface ''CollectEnabled'' (BBool False)) w = (Inr v, w')"
  shows "collect arrange reg w' = (Inr [], w')
     \<and> serve sv (GetProp manager_path manager_iface ''CollectEnabled'') w' = (Inr (BBool False), w')"
proof -
  have "set_base_flag ''collect'' False w = (Inr (), w')"
    using assms(2) by (cases "set_base_flag ''collect'' False w") (auto simp: serve_Inr handle_def manager_set_def)
  from set_base_flag_reads [OF assms(1) this] show ?thesis
    by (simp add: collect_def serve_Inr handle_def manager_get_def)
qed

lemma newest_collected_eq:
  assumes "list_all (\<lambda>(n, m). case m of None \<Rightarrow> True | Some ops \<Rightarrow> (case last_collected w (op_helper ops) of Inl _ \<Rightarrow> False | Inr _ \<Rightarrow> True)) reg"
  shows "newest_collected w reg newest = Inr (newest_of (List.map_filter (\<lambda>(n, m). case m of None \<Rightarrow> None
      | Some ops \<Rightarrow> (case last_collected w (op_helper ops) of Inl _ \<Rightarrow> None | Inr t \<Rightarrow> t)) reg) newest)"
  using assms
proof (induction reg arbitrary: newest)
  case Nil
  then show ?case by (simp add: List.map_filter_simps newest_of_def)
next
  case (Cons p reg)
  obtain n m where p: "p = (n, m)" by (cases p)
  show ?case
    using Cons by (cases m) (auto simp: p List.map_filter_simps newest_of_def split: sum.splits option.splits)
qed

definition collected_times :: "'x world_scheme \<Rightarrow> 'x world_scheme registry \<Rightarrow> int list" where
  "collected_times w reg = List.map_filter (\<lambda>(n, m). case m of None \<Rightarrow> None
      | Some ops \<Rightarrow> (case last_collected w (op_helper ops) of Inl _ \<Rightarrow> None | Inr t \<Rightarrow> t)) reg"

text \<open>The manager's time of the last collection is the latest of its helpers' in whole seconds, helpers without a usable time left out, and 0 when there is none.\<close>

theorem daemon_last_collected_spec:
  assumes "list_all (\<lambda>(n, m). case m of None \<Rightarrow> True | Some ops \<Rightarrow> (case last_collected w (op_helper ops) of Inl _ \<Rightarrow> False | Inr _ \<Rightarrow> True)) reg"
  shows "daemon_last_collected reg w = Inr (if collected_times w reg = [] then 0 else whole_seconds (Max (set (collected_times w reg))))"
  using newest_collected_eq [OF assms, of None]
  by (simp add: daemon_last_collected_def newest_of_None flip: collected_times_def)

section \<open>Witnesses\<close>

definition kdump_ops :: "world helper_ops" where
  "kdump_ops = text_ops\<lparr>op_helper := \<lparr>h_name = ''kdump'', h_exts = []\<rparr>\<rparr>"

definition bus_registry :: "world registry" where
  "bus_registry = [(''kdump'', Some kdump_ops), (''gone'', None), (''gpu'', Some text_ops)]"

definition bus_helpers :: "exported_helper option list" where
  "bus_helpers = [Some \<lparr>ex_name = ''kdump'', ex_iface = True, ex_extra = [], ex_children = []\<rparr>, None,
     Some \<lparr>ex_name = ''gpu'', ex_iface = True, ex_extra = [''x.Gpu''], ex_children = [(''Card'', ''x.Card'')]\<rparr>]"

definition bus_server :: "world server" where
  "bus_server = \<lparr>sv_reg = bus_registry, sv_exports = setup_dbus bus_helpers [], sv_open = sample_open, sv_base = ''/var'',
     sv_unit = None, sv_dumps = (\<lambda>_. ''{}''), sv_error = (\<lambda>_. (''x.Failed'', []))\<rparr>"

definition bus_world :: world where
  "bus_world = gpu_world\<lparr>pend := (''kdump'', [(''1.zip'', \<lparr>lf_text = [], lf_mtime = 9, lf_readable = True, lf_stat = True\<rparr>)]) # pend gpu_world\<rparr>"

lemma bus_served: "served bus_helpers bus_server"
  by code_simp

lemma bus_store: "store_ok (conf bus_world)"
  by code_simp

lemma bus_switch: "fst (serve bus_server (SetProp manager_path manager_iface ''CollectEnabled'' (BBool False)) bus_world) = Inr BUnit"
  by code_simp

theorem switched_off_collects_nothing_witness:
  "\<exists>w'. serve bus_server (SetProp manager_path manager_iface ''CollectEnabled'' (BBool False)) bus_world = (Inr BUnit, w')
     \<and> collect (\<lambda>rs. rs) bus_registry w' = (Inr [], w')"
  using switched_off_collects_nothing [OF bus_store, of bus_server BUnit] bus_switch
  by (metis prod.collapse)

lemma bus_times: "collected_times bus_world bus_registry = [1500]"
  by code_simp

theorem daemon_last_collected_spec_witness: "daemon_last_collected bus_registry bus_world = Inr 1"
proof -
  have "list_all (\<lambda>(n, m). case m of None \<Rightarrow> True | Some ops \<Rightarrow>
      (case last_collected bus_world (op_helper ops) of Inl _ \<Rightarrow> False | Inr _ \<Rightarrow> True)) bus_registry"
    by code_simp
  from daemon_last_collected_spec [OF this] show ?thesis
    by (simp add: bus_times whole_seconds_def)
qed

end
