(* ===== verification/Client.thy ===== *)
theory Client imports Interfaces "HOL-Library.Multiset" begin

text \<open>
  \<^verbatim>\<open>steamos_log_submitter/client.py\<close>: the client of the daemon's bus interfaces. The bus is an argument:
  a function from a request and the state of the world to a reply and the next state, which the
  server of theory Interfaces provides. The client's own state is whether it has connected.
\<close>

section \<open>Programs that talk to the bus\<close>

type_synonym ('a, 's) prog = "'s \<Rightarrow> (raised + 'a) \<times> 's"

definition give :: "'a \<Rightarrow> ('a, 's) prog" where
  "give a s = (Inr a, s)"

definition fails :: "raised \<Rightarrow> ('a, 's) prog" where
  "fails e s = (Inl e, s)"

definition andthen :: "('a, 's) prog \<Rightarrow> ('a \<Rightarrow> ('b, 's) prog) \<Rightarrow> ('b, 's) prog" where
  "andthen m f s = (case m s of (Inl e, s1) \<Rightarrow> (Inl e, s1) | (Inr a, s1) \<Rightarrow> f a s1)"

fun for_each :: "('a \<Rightarrow> ('b, 's) prog) \<Rightarrow> 'a list \<Rightarrow> ('b list, 's) prog" where
  "for_each f [] = give []"
| "for_each f (x # xs) = andthen (f x) (\<lambda>y. andthen (for_each f xs) (\<lambda>ys. give (y # ys)))"

type_synonym 'w bus = "bus_request \<Rightarrow> 'w \<Rightarrow> (raised + bvalue) \<times> 'w"

record 'w client =
  cl_bus :: "'w bus"
  cl_loads :: "string \<Rightarrow> json result"

definition ask :: "'w client \<Rightarrow> bus_request \<Rightarrow> (bvalue, bool \<times> 'w) prog" where
  "ask cl rq s = (case cl_bus cl rq (snd s) of (r, w) \<Rightarrow> (r, (fst s, w)))"

section \<open>Connecting and commands\<close>

definition not_there :: "raised \<Rightarrow> bool" where
  "not_there e = (as_dbus_error e \<noteq> None \<or> e = Other InterfaceNotFoundError)"

definition client_connect :: "'w client \<Rightarrow> (unit, bool \<times> 'w) prog" where
  "client_connect cl s =
     (if fst s then (Inr (), s)
      else (case ask cl Ping s of
          (Inl e, s1) \<Rightarrow> (Inl (if not_there e then Other ConnectionRefusedError else e), s1)
        | (Inr _, s1) \<Rightarrow> (case ask cl (Introspect manager_path) s1 of
            (Inl e, s2) \<Rightarrow> (Inl e, s2)
          | (Inr _, s2) \<Rightarrow> (Inr (), (True, snd s2)))))"

definition client_command :: "'w client \<Rightarrow> ('a, bool \<times> 'w) prog \<Rightarrow> ('a, bool \<times> 'w) prog" where
  "client_command cl fn s = (case client_connect cl s of
       (Inl e, s1) \<Rightarrow> (Inl e, s1)
     | (Inr _, s1) \<Rightarrow> (case fn s1 of
         (Inl e, s2) \<Rightarrow> (Inl (rethrow (cl_loads cl) e), s2)
       | (Inr a, s2) \<Rightarrow> (Inr a, s2)))"

section \<open>Helpers\<close>

definition strings_of :: "bvalue \<Rightarrow> (string list, 's) prog" where
  "strings_of v = (case v of BStrs ss \<Rightarrow> give ss | _ \<Rightarrow> fails (Other TypeError))"

definition client_list :: "'w client \<Rightarrow> (string list, bool \<times> 'w) prog" where
  "client_list cl = client_command cl (andthen (andthen (ask cl (Children helpers_path)) strings_of)
     (\<lambda>children. give (map (\<lambda>child. snake_case (last_part (CHR ''/'') child)) children)))"

definition client_validate :: "'w client \<Rightarrow> string list \<Rightarrow> (string list \<times> string list, bool \<times> 'w) prog" where
  "client_validate cl requested = andthen (client_list cl)
     (\<lambda>valid. give (sorted_list_of_set (set valid \<inter> set requested), sorted_list_of_set (set requested - set valid)))"

text \<open>\<^verbatim>\<open>_helper_objects\<close>: the helpers a command goes through, with their object paths.\<close>

definition helper_objects :: "'w client \<Rightarrow> string list option \<Rightarrow> ((string \<times> string) list, bool \<times> 'w) prog" where
  "helper_objects cl helpers = andthen
     (case helpers of
        None \<Rightarrow> client_list cl
      | Some hs \<Rightarrow> andthen (client_validate cl hs) (\<lambda>(valid, invalid).
          if invalid \<noteq> [] then fails (SlsError ''InvalidArgumentsError'' (JObj [(''invalid-helper'', JList (map JStr invalid))]))
          else give valid))
     (\<lambda>valid. give (map (\<lambda>h. (h, helpers_path @ ''/'' @ camel_case h)) valid))"

section \<open>Commands\<close>

definition client_enable :: "'w client \<Rightarrow> bool \<Rightarrow> (bvalue, bool \<times> 'w) prog" where
  "client_enable cl on = client_command cl (ask cl (SetProp manager_path manager_iface ''Enabled'' (BBool on)))"

definition client_disable :: "'w client \<Rightarrow> (bvalue, bool \<times> 'w) prog" where
  "client_disable cl = client_enable cl False"

definition set_helpers_enabled :: "'w client \<Rightarrow> (string, bool) dict \<Rightarrow> (bvalue list, bool \<times> 'w) prog" where
  "set_helpers_enabled cl helpers = client_command cl (andthen (helper_objects cl (Some (dict_keys helpers)))
     (for_each (\<lambda>(helper, path). case dict_get helpers helper of
          None \<Rightarrow> fails (Other (KeyError helper))
        | Some on \<Rightarrow> ask cl (SetProp path helper_iface ''Enabled'' (BBool on)))))"

definition client_enable_helpers :: "'w client \<Rightarrow> string list \<Rightarrow> (bvalue list, bool \<times> 'w) prog" where
  "client_enable_helpers cl helpers = client_command cl
     (set_helpers_enabled cl (fold (\<lambda>h d. dict_set d h True) helpers []))"

definition client_disable_helpers :: "'w client \<Rightarrow> string list \<Rightarrow> (bvalue list, bool \<times> 'w) prog" where
  "client_disable_helpers cl helpers = set_helpers_enabled cl (fold (\<lambda>h d. dict_set d h False) helpers [])"

fun truthy_bvalue :: "bvalue \<Rightarrow> bool" where
  "truthy_bvalue BUnit = False"
| "truthy_bvalue (BBool b) = b"
| "truthy_bvalue (BInt n) = (n \<noteq> 0)"
| "truthy_bvalue (BStr s) = (s \<noteq> [])"
| "truthy_bvalue (BStrs ss) = (ss \<noteq> [])"
| "truthy_bvalue (BFd n) = (n \<noteq> 0)"

definition client_status :: "'w client \<Rightarrow> (bool, bool \<times> 'w) prog" where
  "client_status cl = client_command cl (andthen (ask cl (GetProp manager_path manager_iface ''Enabled''))
     (\<lambda>v. give (truthy_bvalue v)))"

record helper_flags =
  hf_enabled :: bvalue
  hf_collection :: bvalue
  hf_submission :: bvalue

definition one_status :: "'w client \<Rightarrow> string \<times> string \<Rightarrow> (string \<times> helper_flags, bool \<times> 'w) prog" where
  "one_status cl hp = (case hp of (helper, path) \<Rightarrow>
     andthen (ask cl (GetProp path helper_iface ''Enabled'')) (\<lambda>e.
     andthen (ask cl (GetProp path helper_iface ''CollectEnabled'')) (\<lambda>c.
     andthen (ask cl (GetProp path helper_iface ''SubmitEnabled'')) (\<lambda>b.
     give (helper, \<lparr>hf_enabled = e, hf_collection = c, hf_submission = b\<rparr>)))))"

definition client_helper_status :: "'w client \<Rightarrow> string list option \<Rightarrow> ((string, helper_flags) dict, bool \<times> 'w) prog" where
  "client_helper_status cl helpers = client_command cl (andthen (helper_objects cl helpers) (\<lambda>hps.
     andthen (for_each (one_status cl) hps) (\<lambda>sts. give (fold (\<lambda>(h, st) d. dict_set d h st) sts []))))"

text \<open>\<^verbatim>\<open>getattr(iface, f'list_{type}')()\<close>; the proxies have a method for each of the three types.\<close>

definition call_list :: "'w client \<Rightarrow> string \<Rightarrow> string \<Rightarrow> string \<Rightarrow> (string list, bool \<times> 'w) prog" where
  "call_list cl path iface type =
     (if type \<notin> {''failed'', ''pending'', ''uploaded''} then fails (Other AttributeError)
      else andthen (ask cl (Method path iface (''List'' @ camel_case type) [])) strings_of)"

definition client_list_type :: "'w client \<Rightarrow> string \<Rightarrow> string list option \<Rightarrow> (string list, bool \<times> 'w) prog" where
  "client_list_type cl type helpers = client_command cl (case helpers of
       Some hs \<Rightarrow> andthen (helper_objects cl (Some hs)) (\<lambda>hps.
          andthen (for_each (\<lambda>(helper, path). andthen (call_list cl path helper_iface type)
              (\<lambda>logs. give (name_logs helper logs))) hps)
            (\<lambda>logss. give (sort (concat logss))))
     | None \<Rightarrow> andthen (call_list cl manager_path manager_iface type) (\<lambda>logs. give (sort logs)))"

definition client_list_failed :: "'w client \<Rightarrow> string list option \<Rightarrow> (string list, bool \<times> 'w) prog" where
  "client_list_failed cl helpers = client_command cl (client_list_type cl ''failed'' helpers)"

definition client_list_pending :: "'w client \<Rightarrow> string list option \<Rightarrow> (string list, bool \<times> 'w) prog" where
  "client_list_pending cl helpers = client_command cl (client_list_type cl ''pending'' helpers)"

definition client_list_uploaded :: "'w client \<Rightarrow> string list option \<Rightarrow> (string list, bool \<times> 'w) prog" where
  "client_list_uploaded cl helpers = client_command cl (client_list_type cl ''uploaded'' helpers)"

definition client_log_level :: "'w client \<Rightarrow> (bvalue, bool \<times> 'w) prog" where
  "client_log_level cl = client_command cl (ask cl (GetProp manager_path manager_iface ''LogLevel''))"

definition client_set_log_level :: "'w client \<Rightarrow> int \<Rightarrow> (bvalue, bool \<times> 'w) prog" where
  "client_set_log_level cl level = client_command cl (ask cl (SetProp manager_path manager_iface ''LogLevel'' (BInt level)))"

definition client_extract :: "'w client \<Rightarrow> string \<Rightarrow> string \<Rightarrow> string option \<Rightarrow> (int option, bool \<times> 'w) prog" where
  "client_extract cl helper filename type = client_command cl (andthen (helper_objects cl (Some [helper])) (\<lambda>hps.
     if hps = [] then give None
     else andthen (ask cl (Method (snd (last hps)) helper_iface ''Extract''
         [BStr filename, BStr (case type of None \<Rightarrow> [] | Some t \<Rightarrow> t)]))
       (\<lambda>v. case v of BFd fd \<Rightarrow> give (Some fd) | _ \<Rightarrow> fails (Other AssertionError))))"

definition client_unit_id :: "'w client \<Rightarrow> (bvalue, bool \<times> 'w) prog" where
  "client_unit_id cl = client_command cl (ask cl (GetProp manager_path manager_iface ''UnitId''))"

definition client_shutdown :: "'w client \<Rightarrow> (bvalue, bool \<times> 'w) prog" where
  "client_shutdown cl = client_command cl (ask cl (Method manager_path manager_iface ''Shutdown'' []))"

definition client_collect :: "'w client \<Rightarrow> string list option \<Rightarrow> (string list, bool \<times> 'w) prog" where
  "client_collect cl helpers = client_command cl (andthen (helper_objects cl helpers) (\<lambda>hps.
     andthen (for_each (\<lambda>(helper, path). andthen (andthen (ask cl (Method path helper_iface ''Collect'' [])) strings_of)
         (\<lambda>logs. give (name_logs helper logs))) hps)
       (\<lambda>logss. give (sort (concat logss)))))"

definition client_trigger :: "'w client \<Rightarrow> bool \<Rightarrow> (bvalue, bool \<times> 'w) prog" where
  "client_trigger cl wait = client_command cl (if wait
     then ask cl (Method manager_path manager_iface ''Trigger'' [])
     else ask cl (Method manager_path manager_iface ''TriggerAsync'' []))"

text \<open>\<open>now\<close> is the clock; a time of 0 counts as none.\<close>

definition client_log :: "'w client \<Rightarrow> int \<Rightarrow> string \<Rightarrow> int \<Rightarrow> string \<Rightarrow> int option \<Rightarrow> (bvalue, bool \<times> 'w) prog" where
  "client_log cl now module level message timestamp = client_command cl (ask cl (Method manager_path manager_iface ''Log''
     [BInt (case timestamp of None \<Rightarrow> now | Some t \<Rightarrow> if t = 0 then now else t), BStr module, BInt level, BStr message]))"

definition client_version :: "'w client \<Rightarrow> (bvalue, bool \<times> 'w) prog" where
  "client_version cl = client_command cl (ask cl (GetProp manager_path manager_iface ''Version''))"

section \<open>What the client relies on\<close>

lemma andthen_simps [simp]:
  "m s = (Inr a, s1) \<Longrightarrow> andthen m f s = f a s1"
  "m s = (Inl e, s1) \<Longrightarrow> andthen m f s = (Inl e, s1)"
  by (simp_all add: andthen_def)

lemma ask_eq [simp]: "ask \<lparr>cl_bus = b, cl_loads = loads\<rparr> rq (c, w) = (fst (b rq w), (c, snd (b rq w)))"
  by (simp add: ask_def split: prod.split)

lemma rethrow_sls [simp]: "rethrow loads (SlsError cls data) = SlsError cls data"
  by (simp add: rethrow_def)

text \<open>
  The contract of the daemon: it answers, introspection changes nothing, and the children of the
  helpers' object are the objects of the helpers. \<open>good\<close> are the servers that keep it.
\<close>

locale helper_bus =
  fixes serves :: "'v \<Rightarrow> 'w bus" and names :: "'v \<Rightarrow> string list" and good :: "'v \<Rightarrow> bool"
  assumes ping: "good v \<Longrightarrow> \<exists>x. serves v Ping w = (Inr x, w)"
    and introspect: "good v \<Longrightarrow> \<exists>x. serves v (Introspect path) w = (Inr x, w)"
    and children: "good v \<Longrightarrow> \<exists>cs. serves v (Children helpers_path) w = (Inr (BStrs cs), w)
      \<and> set cs = helper_path ` set (names v) \<and> distinct cs"
    and ids: "good v \<Longrightarrow> n \<in> set (names v) \<Longrightarrow> helper_id n"
begin

lemma connects: "good v \<Longrightarrow> client_connect \<lparr>cl_bus = serves v, cl_loads = loads\<rparr> (c, w) = (Inr (), (True, w))"
  using ping [of v w] introspect [of v manager_path w] by (auto simp: client_connect_def)

lemma commands:
  "good v \<Longrightarrow> client_command \<lparr>cl_bus = serves v, cl_loads = loads\<rparr> fn (c, w) = (case fn (True, w) of
       (Inl e, s) \<Rightarrow> (Inl (rethrow loads e), s) | (Inr a, s) \<Rightarrow> (Inr a, s))"
  by (simp add: client_command_def connects split: prod.split sum.split)

lemma lists:
  assumes "good v"
  shows "\<exists>ns. client_list \<lparr>cl_bus = serves v, cl_loads = loads\<rparr> (c, w) = (Inr ns, (True, w))
     \<and> set ns = set (names v) \<and> distinct ns"
proof -
  obtain cs where cs: "serves v (Children helpers_path) w = (Inr (BStrs cs), w)" "set cs = helper_path ` set (names v)"
      "distinct cs"
    using children [OF assms, of w] by blast
  let ?f = "\<lambda>child. snake_case (last_part (CHR ''/'') child)"
  have f: "?f (helper_path n) = n" if "n \<in> set (names v)" for n
    using camel_no_slash [OF ids [OF assms that]] snake_camel_id [OF ids [OF assms that]]
    by (simp add: helper_path_def)
  have "client_list \<lparr>cl_bus = serves v, cl_loads = loads\<rparr> (c, w) = (Inr (map ?f cs), (True, w))"
    by (simp add: client_list_def commands [OF assms] cs(1) strings_of_def give_def)
  moreover have "set (map ?f cs) = set (names v)" using f by (auto simp: cs(2) image_iff)
  moreover have "inj_on ?f (set cs)" using f by (auto simp: inj_on_def cs(2))
  ultimately show ?thesis using cs(3) by (auto simp: distinct_map)
qed

lemma validates:
  assumes "good v"
  shows "client_validate \<lparr>cl_bus = serves v, cl_loads = loads\<rparr> hs (c, w)
     = (Inr (sorted_list_of_set (set (names v) \<inter> set hs), sorted_list_of_set (set hs - set (names v))), (True, w))"
  using lists [OF assms, of loads c w] by (auto simp: client_validate_def give_def)

lemma objects:
  assumes "good v"
  shows "helper_objects \<lparr>cl_bus = serves v, cl_loads = loads\<rparr> (Some hs) (c, w) =
     (if set hs \<subseteq> set (names v) then (Inr (map (\<lambda>h. (h, helper_path h)) (sorted_list_of_set (set hs))), (True, w))
      else (Inl (SlsError ''InvalidArgumentsError''
        (JObj [(''invalid-helper'', JList (map JStr (sorted_list_of_set (set hs - set (names v)))))])), (True, w)))"
proof (cases "set hs \<subseteq> set (names v)")
  case True
  then have "set hs - set (names v) = {}" "set (names v) \<inter> set hs = set hs" by auto
  then show ?thesis using True
    by (simp add: helper_objects_def andthen_def validates [OF assms] give_def helper_path_def)
next
  case False
  then have "sorted_list_of_set (set hs - set (names v)) \<noteq> []" by auto
  then show ?thesis using False
    by (simp add: helper_objects_def andthen_def validates [OF assms] fails_def)
qed

end

interpretation daemon_bus: helper_bus serve "\<lambda>sv. helper_names (sv_reg sv)" "\<lambda>sv. \<exists>hs. served hs sv"
proof (unfold_locales, goal_cases)
  case (3 sv w)
  then obtain hs where "served hs sv" by blast
  then show ?case by (simp add: serve_def handle_def child_paths_helpers, simp add: child_paths_def)
next
  case (4 sv n)
  then show ?case using served_id by blast
qed (simp_all add: serve_def handle_def)

section \<open>Properties\<close>

definition daemon_client :: "'x world_scheme server \<Rightarrow> (string \<Rightarrow> json result) \<Rightarrow> 'x world_scheme client" where
  "daemon_client sv loads = \<lparr>cl_bus = serve sv, cl_loads = loads\<rparr>"

text \<open>The client lists exactly the helpers the daemon has exported, each once and under its own name.\<close>

theorem client_lists_helpers:
  assumes "served hs sv"
  shows "\<exists>ns. client_list (daemon_client sv loads) (c, w) = (Inr ns, (True, w))
     \<and> set ns = set (helper_names (sv_reg sv)) \<and> distinct ns"
  using daemon_bus.lists [of sv loads c w] assms by (auto simp: daemon_client_def)

text \<open>The world in which a setting can be saved.\<close>

definition can_save :: "'x world_scheme \<Rightarrow> bool" where
  "can_save w = (store_ok (conf w) \<and> (case local_path (conf w) of
       None \<Rightarrow> False | Some p \<Rightarrow> p \<notin> set (unwritable (conf w))))"

lemma enable_saves:
  assumes "can_save w"
  shows "\<exists>w'. enable h on w = (Inr (), w') \<and> can_save w'
     \<and> (\<forall>h' name. flag w' h' name
          = (if h_section h' = h_section h \<and> optionxform name = ''enable'' then Inr on else flag w h' name))"
proof -
  obtain p where p: "local_path (conf w) = Some p" "p \<notin> set (unwritable (conf w))"
    and ok: "store_ok (conf w)"
    using assms by (auto simp: can_save_def split: option.splits)
  obtain w' where w': "set_flag h ''enable'' ''Enabled'' on w = (Inr (), w')"
    "\<forall>h' name'. flag w' h' name'
          = (if h_section h' = h_section h \<and> optionxform name' = optionxform ''enable'' then Inr on else flag w h' name')"
    using set_flag_spec [OF ok, of h "''enable''" "''Enabled''" on] p by auto
  have "CHR ''$'' \<notin> set (if on then ''on'' else ''off'')" by simp
  from sec_setitem_reads [OF ok this, of "h_section h" "''enable''" "[]"] obtain c where
    c: "sec_setitem (conf w) (h_section h) ''enable'' (if on then ''on'' else ''off'') = (Inr (), c)" "store_ok c"
    by blast
  have "local_path c = Some p" "unwritable c = unwritable (conf w)"
    using sec_setitem_frame [OF c(1)] p by auto
  then have "can_save w'"
    using w'(1) c p write_config_ok [of c p]
    by (auto simp: set_flag_def set_and_write_def can_save_def store_ok_def)
  moreover have "optionxform ''enable'' = ''enable''" by code_simp
  ultimately show ?thesis using w' by (auto simp: enable_def)
qed

lemma set_enabled_request:
  assumes "served hs sv" and "(n, Some ops) \<in> set (sv_reg sv)" and "enable (op_helper ops) on w = (Inr (), w')"
  shows "serve sv (SetProp (helper_path n) helper_iface ''Enabled'' (BBool on)) w = (Inr BUnit, w')"
  using assms paths_differ(1) by (simp add: serve_Inr handle_def object_of_helper helper_set_def)

abbreviation enabling :: "'x world_scheme server \<Rightarrow> (string \<Rightarrow> json result) \<Rightarrow> (string, bool) dict
    \<Rightarrow> string \<times> string \<Rightarrow> (bvalue, bool \<times> 'x world_scheme) prog" where
  "enabling sv loads d \<equiv> \<lambda>(helper, path). case dict_get d helper of
          None \<Rightarrow> fails (Other (KeyError helper))
        | Some on \<Rightarrow> ask (daemon_client sv loads) (SetProp path helper_iface ''Enabled'' (BBool on))"

lemma h_section_eq: "h_section h = h_section h' \<longleftrightarrow> h_name h = h_name h'"
  by (simp add: h_section_def)

lemma enabling_all:
  assumes "served hs sv"
  shows "set ns \<subseteq> set (helper_names (sv_reg sv)) \<Longrightarrow> set ns \<subseteq> set (dict_keys d) \<Longrightarrow> can_save w \<Longrightarrow>
    \<exists>vs w'. for_each (enabling sv loads d) (map (\<lambda>h. (h, helper_path h)) ns) (True, w) = (Inr vs, (True, w'))
     \<and> (\<forall>h name. flag w' h name = (if h_name h \<in> set ns \<and> optionxform name = ''enable''
          then Inr (the (dict_get d (h_name h))) else flag w h name))"
proof (induction ns arbitrary: w)
  case Nil
  then show ?case by (simp add: give_def)
next
  case (Cons n ns)
  obtain ops where ops: "(n, Some ops) \<in> set (sv_reg sv)"
    using Cons.prems(1) by (auto simp: helper_names_in)
  have name: "h_name (op_helper ops) = n" using served_ops [OF assms ops] by simp
  obtain on where on: "dict_get d n = Some on"
    using Cons.prems(2) by (auto simp flip: dict_has_iff_keys simp: dict_has_def)
  obtain w1 where w1: "enable (op_helper ops) on w = (Inr (), w1)" "can_save w1"
     "\<forall>h' name. flag w1 h' name
          = (if h_section h' = h_section (op_helper ops) \<and> optionxform name = ''enable'' then Inr on else flag w h' name)"
    using enable_saves [OF Cons.prems(3)] by blast
  obtain vs w' where rest: "for_each (enabling sv loads d) (map (\<lambda>h. (h, helper_path h)) ns) (True, w1) = (Inr vs, (True, w'))"
     "\<forall>h name. flag w' h name = (if h_name h \<in> set ns \<and> optionxform name = ''enable''
          then Inr (the (dict_get d (h_name h))) else flag w1 h name)"
    using Cons.IH [OF _ _ w1(2)] Cons.prems by auto
  have step: "enabling sv loads d (n, helper_path n) (True, w) = (Inr BUnit, (True, w1))"
    using set_enabled_request [OF assms ops w1(1)] on by (simp add: daemon_client_def)
  then have "for_each (enabling sv loads d) (map (\<lambda>h. (h, helper_path h)) (n # ns)) (True, w) = (Inr (BUnit # vs), (True, w'))"
    using rest(1) by (simp add: give_def)
  moreover have "\<forall>h name. flag w' h name = (if h_name h \<in> set (n # ns) \<and> optionxform name = ''enable''
          then Inr (the (dict_get d (h_name h))) else flag w h name)"
    using rest(2) w1(3) on name by (simp add: h_section_eq)
  ultimately show ?case by blast
qed

lemma set_helpers_enabled_run:
  assumes "served hs sv" and "can_save w" and "set (dict_keys d) \<subseteq> set (helper_names (sv_reg sv))"
  shows "\<exists>vs w'. set_helpers_enabled (daemon_client sv loads) d (c, w) = (Inr vs, (True, w'))
     \<and> (\<forall>h name. flag w' h name = (case if optionxform name = ''enable'' then dict_get d (h_name h) else None of
          Some on \<Rightarrow> Inr on | None \<Rightarrow> flag w h name))"
proof -
  let ?cl = "daemon_client sv loads" and ?ns = "sorted_list_of_set (set (dict_keys d))"
  have good: "\<exists>hs. served hs sv" using assms(1) by blast
  obtain vs w' where run: "for_each (enabling sv loads d) (map (\<lambda>h. (h, helper_path h)) ?ns) (True, w) = (Inr vs, (True, w'))"
     "\<forall>h name. flag w' h name = (if h_name h \<in> set ?ns \<and> optionxform name = ''enable''
          then Inr (the (dict_get d (h_name h))) else flag w h name)"
    using enabling_all [OF assms(1), of ?ns d w loads] assms(2,3) by auto
  have "helper_objects ?cl (Some (dict_keys d)) (True, w) = (Inr (map (\<lambda>h. (h, helper_path h)) ?ns), (True, w))"
    using daemon_bus.objects [OF good, of loads "dict_keys d" True w] assms(3) by (simp add: daemon_client_def)
  then have "set_helpers_enabled ?cl d (c, w) = (Inr vs, (True, w'))"
    using run(1) [unfolded daemon_client_def]
    by (simp add: set_helpers_enabled_def daemon_client_def daemon_bus.commands [OF good])
  moreover have "\<forall>h name. flag w' h name = (case if optionxform name = ''enable'' then dict_get d (h_name h) else None of
          Some on \<Rightarrow> Inr on | None \<Rightarrow> flag w h name)"
    using run(2) by (auto simp flip: dict_has_iff_keys simp: dict_has_def split: option.splits)
  ultimately show ?thesis by blast
qed

text \<open>C6. Setting helpers on and off through the client sets exactly those flags in the daemon: each named helper's enable flag becomes its value, and no other flag of any helper changes.\<close>

theorem client_sets_helpers:
  assumes "served hs sv" and "can_save w" and "set (dict_keys d) \<subseteq> set (helper_names (sv_reg sv))"
  shows "\<exists>vs w'. set_helpers_enabled (daemon_client sv loads) d (c, w) = (Inr vs, (True, w'))
     \<and> (\<forall>h name. flag w' h name = (case if optionxform name = ''enable'' then dict_get d (h_name h) else None of
          Some on \<Rightarrow> Inr on | None \<Rightarrow> flag w h name))"
  using assms by (rule set_helpers_enabled_run)

text \<open>C19. When one of the named helpers is unknown the command fails with all the unknown names, before any helper is asked to change: the daemon's state is as before.\<close>

theorem unknown_helper_changes_nothing:
  assumes "served hs sv" and "\<not> set (dict_keys d) \<subseteq> set (helper_names (sv_reg sv))"
  shows "set_helpers_enabled (daemon_client sv loads) d (c, w)
     = (Inl (SlsError ''InvalidArgumentsError'' (JObj [(''invalid-helper'',
          JList (map JStr (sorted_list_of_set (set (dict_keys d) - set (helper_names (sv_reg sv))))))])), (True, w))"
proof -
  have good: "\<exists>hs. served hs sv" using assms(1) by blast
  show ?thesis
    using daemon_bus.objects [OF good, of loads "dict_keys d" True w] assms(2)
    by (simp add: set_helpers_enabled_def daemon_client_def daemon_bus.commands [OF good])
qed

section \<open>Two ways to list\<close>

lemma sort_mset: "mset xs = mset ys \<Longrightarrow> sort xs = sort ys"
  by (metis mset_sort properties_for_sort sorted_sort)

lemma mset_concat_map: "mset (concat (map f xs)) = (\<Sum>x \<in># mset xs. mset (f x))"
  by (induction xs) simp_all

text \<open>The tree of a type of logs, and the name of its listing method.\<close>

definition tree_of :: "string \<Rightarrow> 'x world_scheme \<Rightarrow> tree" where
  "tree_of type w = (if type = ''failed'' then fail w else if type = ''pending'' then pend w else upl w)"

lemma list_method_names:
  "camel_case ''failed'' = ''Failed''" "camel_case ''pending'' = ''Pending''" "camel_case ''uploaded'' = ''Uploaded''"
  by code_simp+

lemma manager_lists:
  assumes "type \<in> {''failed'', ''pending'', ''uploaded''}"
  shows "serve sv (Method manager_path manager_iface (''List'' @ camel_case type) []) w
     = (Inr (BStrs (all_logs (tree_of type) (sv_reg sv) w)), w)"
proof -
  have "manager_method dumps reg (''List'' @ camel_case type) [] w = Inr (BStrs (all_logs (tree_of type) reg w))" for dumps reg
    using assms
    by (elim insertE emptyE) (simp_all add: list_method_names manager_method_def exc_wrap_def tree_of_def [abs_def])
  then show ?thesis by (simp add: serve_Inr handle_def)
qed

lemma helper_lists:
  assumes "served hs sv" and "(n, Some ops) \<in> set (sv_reg sv)" and "type \<in> {''failed'', ''pending'', ''uploaded''}"
  shows "serve sv (Method (helper_path n) helper_iface (''List'' @ camel_case type) []) w
     = (Inr (BStrs (list_type (tree_of type w) (op_helper ops))), w)"
proof -
  have "helper_method op base ops (''List'' @ camel_case type) [] w = (Inr (BStrs (list_type (tree_of type w) (op_helper ops))), w)" for op base
    using assms(3)
    by (elim insertE emptyE)
      (simp_all add: list_method_names helper_method_def Let_def tree_of_def list_failed_def list_pending_def list_uploaded_def)
  then show ?thesis using object_of_helper [OF assms(1,2)] paths_differ(1) by (simp add: serve_Inr handle_def)
qed

lemma call_list_eq:
  assumes "type \<in> {''failed'', ''pending'', ''uploaded''}"
    and "serve sv (Method path iface (''List'' @ camel_case type) []) w = (Inr (BStrs logs), w)"
  shows "call_list (daemon_client sv loads) path iface type (c, w) = (Inr logs, (c, w))"
  using assms by (simp add: call_list_def daemon_client_def strings_of_def give_def)

text \<open>The logs of the helper of a name.\<close>

definition logs_of :: "'x world_scheme server \<Rightarrow> string \<Rightarrow> 'x world_scheme \<Rightarrow> string \<Rightarrow> string list" where
  "logs_of sv type w n = name_logs n (list_type (tree_of type w) (op_helper (the (object_of sv (helper_path n)))))"

lemma all_logs_eq:
  assumes "served hs sv"
  shows "all_logs (tree_of type) (sv_reg sv) w = concat (map (logs_of sv type w) (helper_names (sv_reg sv)))"
proof -
  have "set reg \<subseteq> set (sv_reg sv) \<Longrightarrow>
      all_logs (tree_of type) reg w = concat (map (logs_of sv type w) (helper_names reg))" for reg
    by (induction reg)
      (auto simp: all_logs_def helper_names_def List.map_filter_simps logs_of_def object_of_helper [OF assms] split: option.split)
  then show ?thesis by blast
qed

lemma for_each_pure: "(\<And>x. x \<in> set xs \<Longrightarrow> f x s = (Inr (g x), s)) \<Longrightarrow> for_each f xs s = (Inr (map g xs), s)"
  by (induction xs) (simp_all add: give_def)

text \<open>C20. Listing all logs of a type through the manager gives the same list as asking every helper in turn.\<close>

theorem listing_all_is_listing_each:
  assumes "served hs sv" and "type \<in> {''failed'', ''pending'', ''uploaded''}"
    and "set ns = set (helper_names (sv_reg sv))"
  shows "client_list_type (daemon_client sv loads) type None (c, w)
     = client_list_type (daemon_client sv loads) type (Some ns) (c, w)"
proof -
  let ?cl = "daemon_client sv loads" and ?names = "helper_names (sv_reg sv)" and ?logs = "logs_of sv type w"
  let ?sorted = "sorted_list_of_set (set ns)"
  have good: "\<exists>hs. served hs sv" using assms(1) by blast
  have "distinct ?names" using assms(1) by (simp add: served_def)
  then have "mset ?sorted = mset ?names"
    using assms(3) by (metis distinct_sorted_list_of_set finite_set set_eq_iff_mset_eq_distinct set_sorted_list_of_set)
  then have same: "sort (concat (map ?logs ?names)) = sort (concat (map ?logs ?sorted))"
    by (intro sort_mset) (simp only: mset_concat_map)
  have each: "call_list ?cl (helper_path n) helper_iface type (True, w)
      = (Inr (list_type (tree_of type w) (op_helper (the (object_of sv (helper_path n))))), (True, w))"
    if n: "n \<in> set ?sorted" for n
  proof -
    obtain ops where ops: "(n, Some ops) \<in> set (sv_reg sv)" using n assms(3) by (auto simp: helper_names_in)
    show ?thesis
      using call_list_eq [OF assms(2) helper_lists [OF assms(1) ops assms(2)]] object_of_helper [OF assms(1) ops] by simp
  qed
  have run: "for_each (\<lambda>(helper, path). andthen (call_list ?cl path helper_iface type)
      (\<lambda>logs. give (name_logs helper logs))) (map (\<lambda>h. (h, helper_path h)) ?sorted) (True, w)
      = (Inr (map (\<lambda>hp. ?logs (fst hp)) (map (\<lambda>h. (h, helper_path h)) ?sorted)), (True, w))"
    by (rule for_each_pure) (auto simp: each give_def logs_of_def)
  have objs: "helper_objects ?cl (Some ns) (True, w) = (Inr (map (\<lambda>h. (h, helper_path h)) ?sorted), (True, w))"
    using daemon_bus.objects [OF good, of loads ns True w] assms(3) by (simp add: daemon_client_def)
  have all: "call_list ?cl manager_path manager_iface type (True, w) = (Inr (concat (map ?logs ?names)), (True, w))"
    by (simp add: call_list_eq [OF assms(2) manager_lists [OF assms(2)]] all_logs_eq [OF assms(1)])
  have cmd: "client_command ?cl fn (c, w) = (Inr a, s)" if "fn (True, w) = (Inr a, s)" for fn :: "(string list, _) prog" and a s
    using that by (simp add: daemon_client_def daemon_bus.commands [OF good])
  have "client_list_type ?cl type None (c, w) = (Inr (sort (concat (map ?logs ?names))), (True, w))"
    unfolding client_list_type_def by (rule cmd) (simp add: all give_def)
  moreover have "client_list_type ?cl type (Some ns) (c, w) = (Inr (sort (concat (map ?logs ?sorted))), (True, w))"
    unfolding client_list_type_def by (rule cmd) (simp add: objs run give_def comp_def)
  ultimately show ?thesis using same by simp
qed

section \<open>Witnesses\<close>

definition no_json :: "string \<Rightarrow> json result" where
  "no_json s = Inl JSONDecodeError"

theorem client_lists_helpers_witness:
  "\<exists>ns. client_list (daemon_client bus_server no_json) (False, bus_world) = (Inr ns, (True, bus_world)) \<and> set ns = {''kdump'', ''gpu''}"
proof -
  have "set (helper_names (sv_reg bus_server)) = {''kdump'', ''gpu''}" by code_simp
  with client_lists_helpers [OF bus_served, of no_json False bus_world] show ?thesis by auto
qed

lemma bus_can_save: "can_save bus_world"
  by code_simp

theorem client_sets_helpers_witness:
  "\<exists>vs w'. set_helpers_enabled (daemon_client bus_server no_json) [(''gpu'', False)] (False, bus_world) = (Inr vs, (True, w'))
     \<and> enabled w' gpu_helper = Inr False \<and> enabled w' (op_helper kdump_ops) = enabled bus_world (op_helper kdump_ops)"
proof -
  have "list_all (\<lambda>k. k \<in> set (helper_names (sv_reg bus_server))) (dict_keys [(''gpu'', False)])" by code_simp
  then have k: "set (dict_keys [(''gpu'', False)]) \<subseteq> set (helper_names (sv_reg bus_server))"
    by (auto simp: list_all_iff)
  have "optionxform ''enable'' = ''enable''" "h_name gpu_helper = ''gpu''" "h_name (op_helper kdump_ops) = ''kdump''"
    by code_simp+
  with client_sets_helpers [OF bus_served bus_can_save k, of no_json False] show ?thesis
    by (auto simp: enabled_def)
qed

theorem unknown_helper_changes_nothing_witness:
  "set_helpers_enabled (daemon_client bus_server no_json) [(''gpu'', False), (''gqu'', True)] (False, bus_world)
   = (Inl (SlsError ''InvalidArgumentsError'' (JObj [(''invalid-helper'', JList [JStr ''gqu''])])), (True, bus_world))"
proof -
  have n: "set (helper_names (sv_reg bus_server)) = {''kdump'', ''gpu''}" by code_simp
  have k: "set (dict_keys [(''gpu'', False), (''gqu'', True)]) = {''gpu'', ''gqu''}" by code_simp
  have d: "{''gpu'', ''gqu''} - {''kdump'', ''gpu''} = {''gqu''}" by auto
  have "\<not> set (dict_keys [(''gpu'', False), (''gqu'', True)]) \<subseteq> set (helper_names (sv_reg bus_server))"
    by (simp add: n k)
  from unknown_helper_changes_nothing [OF bus_served this, of no_json False bus_world] show ?thesis
    by (simp add: n k d)
qed

theorem listing_all_is_listing_each_witness:
  "client_list_type (daemon_client bus_server no_json) ''pending'' None (False, bus_world)
   = client_list_type (daemon_client bus_server no_json) ''pending'' (Some [''gpu'', ''kdump'']) (False, bus_world)"
proof -
  have "set [''gpu'', ''kdump''] = set (helper_names (sv_reg bus_server))" by code_simp
  from listing_all_is_listing_each [OF bus_served _ this] show ?thesis by simp
qed

end
