(* ===== verification/Blocks.thy ===== *)
theory Blocks imports SLS_Prelude begin

text \<open>
  Copying loops: \<^verbatim>\<open>read(4096)\<close> until nothing comes, as \<^verbatim>\<open>cli.py\<close> and the hooks do it.
\<close>

text \<open>The blocks of a positive number of bytes, until there is nothing left.\<close>

function read_blocks :: "nat \<Rightarrow> string \<Rightarrow> string list" where
  "read_blocks n data = (let buffer = take n data in
     if n = 0 \<or> buffer = [] then [] else buffer # read_blocks n (drop n data))"
  by auto
termination by (relation "measure (\<lambda>(n, data). length data)") auto

declare read_blocks.simps [simp del]

lemma concat_read_blocks: "0 < n \<Longrightarrow> concat (read_blocks n data) = data"
  by (induction n data rule: read_blocks.induct) (auto simp: read_blocks.simps Let_def)

end
