(* ===== verification/Cli.thy ===== *)
theory Cli imports Client Blocks begin

text \<open>
  \<^verbatim>\<open>steamos_log_submitter/cli.py\<close>: the subcommands, run on a client of their own, with what they print and
  the file \<^verbatim>\<open>extract\<close> writes. Parsing the command line is argparse's; its result is a record here.
\<close>

section \<open>Output\<close>

record io =
  io_out :: string
  io_err :: string
  io_files :: "(string, string) dict"

definition nl :: string where "nl = [CHR 0x0A]"

type_synonym ('a, 'w) cli = "('a, (bool \<times> 'w) \<times> io) prog"

definition client_call :: "('a, bool \<times> 'w) prog \<Rightarrow> ('a, 'w) cli" where
  "client_call m s = (case m (fst s) of (r, s1) \<Rightarrow> (r, (s1, snd s)))"

definition print_out :: "string \<Rightarrow> (unit, 'w) cli" where
  "print_out line s = (Inr (), (fst s, (snd s)\<lparr>io_out := io_out (snd s) @ line @ nl\<rparr>))"

definition print_err :: "string \<Rightarrow> (unit, 'w) cli" where
  "print_err line s = (Inr (), (fst s, (snd s)\<lparr>io_err := io_err (snd s) @ line @ nl\<rparr>))"

definition ignore :: "('a, 'w) cli \<Rightarrow> (unit, 'w) cli" where
  "ignore m = andthen m (\<lambda>_. give ())"

text \<open>\<^verbatim>\<open>ClientWrapper\<close> and \<^verbatim>\<open>command\<close>: without a daemon nothing is run, and nothing raised.\<close>

definition client_enter :: "'w client \<Rightarrow> 'w \<Rightarrow> (raised + bool) \<times> (bool \<times> 'w)" where
  "client_enter cl w = (case client_connect cl (False, w) of
       (Inr _, s) \<Rightarrow> (Inr True, s)
     | (Inl e, s) \<Rightarrow> (if e = Other ConnectionRefusedError then (Inr False, s) else (Inl e, s)))"

definition cli_command :: "'w client \<Rightarrow> (unit, 'w) cli \<Rightarrow> 'w \<times> io \<Rightarrow> (raised + unit) \<times> 'w \<times> io" where
  "cli_command cl fn wio = (case client_enter cl (fst wio) of
       (Inl e, (_, w1)) \<Rightarrow> (Inl e, (w1, snd wio))
     | (Inr False, (_, w1)) \<Rightarrow> (Inr (), (w1, snd wio))
     | (Inr True, s1) \<Rightarrow> (case fn (s1, snd wio) of (r, ((_, w2), io)) \<Rightarrow> (r, (w2, io))))"

section \<open>Subcommands\<close>

definition set_enabled :: "'w client \<Rightarrow> bool \<Rightarrow> 'w \<times> io \<Rightarrow> (raised + unit) \<times> 'w \<times> io" where
  "set_enabled cl on = cli_command cl (ignore (client_call (client_enable cl on)))"

definition invalid_line :: "string list \<Rightarrow> string" where
  "invalid_line names = ''Invalid helpers: '' @ join '', '' names"

text \<open>\<open>known\<close> are the helper modules of the program that runs the command.\<close>

definition set_helper_enabled :: "'w client \<Rightarrow> string list \<Rightarrow> string list \<Rightarrow> bool \<Rightarrow> 'w \<times> io \<Rightarrow> (raised + unit) \<times> 'w \<times> io" where
  "set_helper_enabled cl known helpers on = cli_command cl
     (case validate_helpers known helpers of (valid, invalid) \<Rightarrow>
        andthen (if invalid \<noteq> [] then print_err (invalid_line invalid) else give ()) (\<lambda>_.
          if on then ignore (client_call (client_enable_helpers cl valid))
          else ignore (client_call (client_disable_helpers cl valid))))"

record cli_args =
  arg_debug :: bool
  arg_all :: bool
  arg_helper :: "string list"
  arg_wait :: bool
  arg_log :: string
  arg_out :: "string option"
  arg_failed :: bool
  arg_pending :: bool
  arg_uploaded :: bool
  arg_level :: "string option"

definition on_off :: "bool \<Rightarrow> string" where
  "on_off b = (if b then ''enabled'' else ''disabled'')"

definition print_statuses :: "(string, helper_flags) dict \<Rightarrow> (unit, 'w) cli" where
  "print_statuses sts = ignore (for_each (\<lambda>(helper, st).
     print_out (''Helper '' @ helper @ '' is currently '' @ on_off (truthy_bvalue (hf_enabled st)))) sts)"

definition do_status :: "'w client \<Rightarrow> cli_args \<Rightarrow> 'w \<times> io \<Rightarrow> (raised + unit) \<times> 'w \<times> io" where
  "do_status cl args = cli_command cl
     (andthen (client_call (client_status cl)) (\<lambda>status.
      andthen (if arg_all args then client_call (client_helper_status cl None)
               else if arg_helper args \<noteq> [] then
                 andthen (client_call (client_validate cl (arg_helper args))) (\<lambda>(valid, invalid).
                 andthen (if valid \<noteq> [] then client_call (client_helper_status cl (Some valid)) else give []) (\<lambda>sts.
                 andthen (if invalid \<noteq> [] then print_err (invalid_line invalid) else give ()) (\<lambda>_. give sts)))
               else give []) (\<lambda>sts.
      andthen (print_out (''Log submission is currently '' @ on_off status)) (\<lambda>_.
      if sts \<noteq> [] then print_statuses sts else give ()))))"

definition do_list :: "'w client \<Rightarrow> 'w \<times> io \<Rightarrow> (raised + unit) \<times> 'w \<times> io" where
  "do_list cl = cli_command cl (andthen (client_call (client_list cl)) (\<lambda>names. ignore (for_each print_out (sort names))))"

definition do_list_logs :: "'w client \<Rightarrow> string \<Rightarrow> cli_args \<Rightarrow> 'w \<times> io \<Rightarrow> (raised + unit) \<times> 'w \<times> io" where
  "do_list_logs cl type args = cli_command cl
     (andthen (if arg_helper args \<noteq> [] then
                 andthen (client_call (client_validate cl (arg_helper args))) (\<lambda>(valid, invalid).
                 andthen (if valid \<noteq> [] then client_call (client_list_type cl type (Some valid)) else give []) (\<lambda>logs.
                 andthen (if invalid \<noteq> [] then print_err (invalid_line invalid) else give ()) (\<lambda>_. give logs)))
               else client_call (client_list_type cl type None)) (\<lambda>logs.
      if logs \<noteq> [] then print_out (join nl logs) else give ()))"

text \<open>Which directories \<^verbatim>\<open>extract\<close> searches, and the two parts of its argument.\<close>

definition wanted_type :: "cli_args \<Rightarrow> string" where
  "wanted_type args = (if arg_pending args then ''pending'' else if arg_failed args then ''failed''
     else if arg_uploaded args then ''uploaded'' else [])"

definition log_parts :: "string \<Rightarrow> (string \<times> string) option" where
  "log_parts log = (if CHR ''/'' \<in> set log then Some (before (CHR ''/'') log, after (CHR ''/'') log) else None)"

text \<open>\<open>create\<close> is the outcome of opening the output file, \<open>read_fd\<close> what can be read from a descriptor.\<close>

definition open_out :: "(string \<Rightarrow> unit result) \<Rightarrow> string option \<Rightarrow> (unit, 'w) cli" where
  "open_out create path s = (case path of
       None \<Rightarrow> (Inr (), s)
     | Some p \<Rightarrow> (if p = [] then (Inr (), s) else (case create p of
         Inl e \<Rightarrow> (Inl (Other e), s)
       | Inr _ \<Rightarrow> (Inr (), (fst s, (snd s)\<lparr>io_files := dict_set (io_files (snd s)) p []\<rparr>)))))"

definition write_block :: "string option \<Rightarrow> string \<Rightarrow> (unit, 'w) cli" where
  "write_block path block s = (Inr (), (fst s, (case path of
       None \<Rightarrow> (snd s)\<lparr>io_out := io_out (snd s) @ block\<rparr>
     | Some p \<Rightarrow> (if p = [] then (snd s)\<lparr>io_out := io_out (snd s) @ block\<rparr>
         else (snd s)\<lparr>io_files := dict_set (io_files (snd s)) p (dict_getd (io_files (snd s)) p [] @ block)\<rparr>))))"

definition catch_dbus :: "('a option, 'w) cli \<Rightarrow> ('a option, 'w) cli" where
  "catch_dbus m s = (case m s of
       (Inl e, s1) \<Rightarrow> (case as_dbus_error e of
           Some (type, msg) \<Rightarrow> (case print_err msg s1 of (_, s2) \<Rightarrow> (Inr None, s2)) | None \<Rightarrow> (Inl e, s1))
     | (Inr a, s1) \<Rightarrow> (Inr a, s1))"

definition do_extract :: "'w client \<Rightarrow> (string \<Rightarrow> unit result) \<Rightarrow> (int \<Rightarrow> string) \<Rightarrow> cli_args \<Rightarrow> 'w \<times> io
    \<Rightarrow> (raised + unit) \<times> 'w \<times> io" where
  "do_extract cl create read_fd args = cli_command cl (case log_parts (arg_log args) of
       None \<Rightarrow> print_err ''extract requires a path of the form [helper]/[log]''
     | Some (helper, log) \<Rightarrow>
         andthen (open_out create (arg_out args)) (\<lambda>_.
         andthen (catch_dbus (client_call (client_extract cl helper log (Some (wanted_type args))))) (\<lambda>f. case f of
            None \<Rightarrow> give ()
          | Some fd \<Rightarrow> ignore (for_each (write_block (arg_out args)) (read_blocks 4096 (read_fd fd))))))"

text \<open>\<open>show\<close> is how a value prints.\<close>

definition do_unit_id :: "'w client \<Rightarrow> (bvalue \<Rightarrow> string) \<Rightarrow> 'w \<times> io \<Rightarrow> (raised + unit) \<times> 'w \<times> io" where
  "do_unit_id cl show = cli_command cl (andthen (client_call (client_unit_id cl)) (\<lambda>v. print_out (show v)))"

definition do_log_level :: "'w client \<Rightarrow> cli_args \<Rightarrow> 'w \<times> io \<Rightarrow> (raised + unit) \<times> 'w \<times> io" where
  "do_log_level cl args = cli_command cl (case arg_level args of
       None \<Rightarrow> andthen (client_call (client_log_level cl)) (\<lambda>v. case v of
           BInt n \<Rightarrow> print_out (get_level_name n) | _ \<Rightarrow> fails (Other TypeError))
     | Some level \<Rightarrow> (if valid_level_name level then
          (case dict_get level_constants (py_upper level) of
             Some n \<Rightarrow> ignore (client_call (client_set_log_level cl n)) | None \<Rightarrow> fails (Other AttributeError))
        else print_err ''Please specify a valid log level''))"

definition do_trigger :: "'w client \<Rightarrow> cli_args \<Rightarrow> 'w \<times> io \<Rightarrow> (raised + unit) \<times> 'w \<times> io" where
  "do_trigger cl args = cli_command cl (ignore (client_call (client_trigger cl (arg_wait args))))"

text \<open>\<^verbatim>\<open>do_version\<close>; what goes wrong after connecting is not told apart from having no daemon.\<close>

definition do_version :: "'w client \<Rightarrow> (bvalue \<Rightarrow> string) \<Rightarrow> 'w \<times> io \<Rightarrow> (raised + unit) \<times> 'w \<times> io" where
  "do_version cl show wio =
     (let say = (\<lambda>line io. io\<lparr>io_out := io_out io @ line @ nl\<rparr>);
          io1 = say ''Client 0.8.2'' (snd wio);
          lost = (\<lambda>w. (Inr (), (w, say ''Could not query daemon'' io1)))
      in case client_enter cl (fst wio) of
           (Inl e, (_, w1)) \<Rightarrow> (Inl e, (w1, io1))
         | (Inr False, (_, w1)) \<Rightarrow> lost w1
         | (Inr True, s1) \<Rightarrow> (case client_version cl s1 of
             (Inr v, (_, w2)) \<Rightarrow> (Inr (), (w2, say (''Daemon '' @ show v) io1))
           | (Inl e, (c2, w2)) \<Rightarrow> (if e = Other CancelledError then (Inl e, (w2, io1)) else lost w2)))"

text \<open>The subcommands by name.\<close>

definition dispatch :: "'w client \<Rightarrow> (string \<Rightarrow> unit result) \<Rightarrow> (int \<Rightarrow> string) \<Rightarrow> (bvalue \<Rightarrow> string) \<Rightarrow> string list
    \<Rightarrow> string \<Rightarrow> cli_args \<Rightarrow> ('w \<times> io \<Rightarrow> (raised + unit) \<times> 'w \<times> io) option" where
  "dispatch cl create read_fd show known cmd args = map_of
     [(''status'', do_status cl args), (''trigger'', do_trigger cl args),
      (''enable'', set_enabled cl True), (''disable'', set_enabled cl False),
      (''pending'', do_list_logs cl ''pending'' args), (''uploaded'', do_list_logs cl ''uploaded'' args),
      (''failed'', do_list_logs cl ''failed'' args), (''list'', do_list cl),
      (''extract'', do_extract cl create read_fd args),
      (''enable-helper'', set_helper_enabled cl known (arg_helper args) True),
      (''disable-helper'', set_helper_enabled cl known (arg_helper args) False),
      (''unit-id'', do_unit_id cl show), (''log-level'', do_log_level cl args), (''version'', do_version cl show)] cmd"

section \<open>Properties\<close>

lemma write_blocks:
  assumes "p \<noteq> []"
  shows "dict_get (io_files io) p = Some old \<Longrightarrow>
    \<exists>us io'. for_each (write_block (Some p)) bs (s, io) = (Inr us, (s, io'))
     \<and> dict_get (io_files io') p = Some (old @ concat bs) \<and> io_out io' = io_out io \<and> io_err io' = io_err io"
proof (induction bs arbitrary: io old)
  case Nil
  then show ?case by (simp add: give_def)
next
  case (Cons b bs)
  let ?io = "io\<lparr>io_files := dict_set (io_files io) p (old @ b)\<rparr>"
  have "write_block (Some p) b (s, io) = (Inr (), (s, ?io))"
    using assms Cons.prems by (simp add: write_block_def dict_getd_def)
  moreover obtain us io' where "for_each (write_block (Some p)) bs (s, ?io) = (Inr us, (s, io'))"
     "dict_get (io_files io') p = Some ((old @ b) @ concat bs)" "io_out io' = io_out io" "io_err io' = io_err io"
    using Cons.IH [of ?io "old @ b"] by auto
  ultimately show ?case by (simp add: give_def)
qed

text \<open>The output file of an extraction holds the log when the daemon gave it, block by block and complete; in every other case it is there and empty, whatever it held before.\<close>

theorem extract_output:
  assumes "client_connect cl (False, w) = (Inr (), s1)" and "log_parts (arg_log args) = Some (helper, log)"
    and "arg_out args = Some p" and "p \<noteq> []" and "create p = Inr ()"
    and "client_extract cl helper log (Some (wanted_type args)) s1 = (r, s2)"
    and "do_extract cl create read_fd args (w, io) = (res, (w', io'))"
  shows "dict_get (io_files io') p = Some (case r of Inr (Some fd) \<Rightarrow> read_fd fd | _ \<Rightarrow> []) \<and> io_out io' = io_out io"
proof -
  let ?io = "io\<lparr>io_files := dict_set (io_files io) p []\<rparr>"
  let ?run = "client_call (client_extract cl helper log (Some (wanted_type args)))"
  have enter: "client_enter cl w = (Inr True, s1)"
    using assms(1) by (simp add: client_enter_def)
  have opened: "open_out create (arg_out args) (s1, io) = (Inr (), (s1, ?io))"
    using assms(3-5) by (simp add: open_out_def)
  have run: "?run (s1, ?io) = (r, (s2, ?io))" using assms(6) by (simp add: client_call_def)
  show ?thesis
  proof (cases "\<exists>fd. r = Inr (Some fd)")
    case True
    then obtain fd where fd: "r = Inr (Some fd)" by blast
    then have "catch_dbus ?run (s1, ?io) = (Inr (Some fd), (s2, ?io))" using run by (simp add: catch_dbus_def)
    moreover obtain us io2 where io2: "for_each (write_block (arg_out args)) (read_blocks 4096 (read_fd fd)) (s2, ?io) = (Inr us, (s2, io2))"
      "dict_get (io_files io2) p = Some (read_fd fd)" "io_out io2 = io_out io"
      using write_blocks [OF assms(4), of ?io "[]" "read_blocks 4096 (read_fd fd)" s2] assms(3)
      by (auto simp: concat_read_blocks)
    ultimately show ?thesis
      using assms(7) enter opened
      by (auto simp: do_extract_def cli_command_def assms(2) ignore_def give_def fd split: prod.splits)
  next
    case False
    then have "\<exists>r2 io2. catch_dbus ?run (s1, ?io) = (r2, (s2, io2)) \<and> (r2 = Inr None \<or> (\<exists>e. r2 = Inl e))
        \<and> io_files io2 = io_files ?io \<and> io_out io2 = io_out io"
      using run by (auto simp: catch_dbus_def print_err_def split: sum.splits option.splits)
    then obtain r2 io2 where r2: "catch_dbus ?run (s1, ?io) = (r2, (s2, io2))" "r2 = Inr None \<or> (\<exists>e. r2 = Inl e)"
        "io_files io2 = io_files ?io" "io_out io2 = io_out io"
      by blast
    have "io_files io' = io_files ?io \<and> io_out io' = io_out io"
      using r2(2) assms(7) enter opened r2(1,3,4)
      by (auto simp: do_extract_def cli_command_def assms(2) give_def split: prod.splits)
    then show ?thesis using False by (auto split: sum.split option.split)
  qed
qed

lemma fold_all_same: "dict_get (fold (\<lambda>h d. dict_set d h v) ns d) n = (if n \<in> set ns then Some v else dict_get d n)"
  by (induction ns arbitrary: d) auto

lemma keys_all_same: "set (dict_keys (fold (\<lambda>h d. dict_set d h v) ns d)) = set ns \<union> set (dict_keys d)"
  by (induction ns arbitrary: d) auto

lemma client_switches:
  assumes "served hs sv" and "can_save w" and "set ns \<subseteq> set (helper_names (sv_reg sv))"
  shows "\<exists>vs w'. (if on then client_enable_helpers (daemon_client sv loads) ns (c, w)
       else client_disable_helpers (daemon_client sv loads) ns (c, w)) = (Inr vs, (True, w'))
     \<and> (\<forall>h name. flag w' h name = (if optionxform name = ''enable'' \<and> h_name h \<in> set ns then Inr on else flag w h name))"
proof -
  have good: "\<exists>hs. served hs sv" using assms(1) by blast
  have k: "set (dict_keys (fold (\<lambda>h d. dict_set d h on) ns [])) \<subseteq> set (helper_names (sv_reg sv))"
    using assms(3) by (simp add: keys_all_same) (simp add: dict_keys_def)
  have "\<exists>vs w'. set_helpers_enabled (daemon_client sv loads) (fold (\<lambda>h d. dict_set d h on) ns []) (c', w) = (Inr vs, (True, w'))
     \<and> (\<forall>h name. flag w' h name = (if optionxform name = ''enable'' \<and> h_name h \<in> set ns then Inr on else flag w h name))" for c'
    using set_helpers_enabled_run [OF assms(1,2) k, of loads c'] by (auto simp: fold_all_same)
  from this [of True] this [of c] show ?thesis
    by (cases on) (auto simp: client_enable_helpers_def client_disable_helpers_def daemon_client_def daemon_bus.commands [OF good])
qed

text \<open>C18. On the command line, helpers that the program knows are switched in the daemon and no other flag changes; the names it does not know are reported in one line and stop nothing.\<close>

theorem command_line_switches_helpers:
  assumes "served hs sv" and "can_save w" and "set known = set (helper_names (sv_reg sv))"
  shows "\<exists>w'. set_helper_enabled (daemon_client sv loads) known helpers on (w, io) = (Inr (), (w',
       (let invalid = sort (remdups (filter (\<lambda>h. h \<notin> set known) helpers))
        in if invalid = [] then io else io\<lparr>io_err := io_err io @ invalid_line invalid @ nl\<rparr>)))
     \<and> (\<forall>h name. flag w' h name =
          (if optionxform name = ''enable'' \<and> h_name h \<in> set known \<inter> set helpers then Inr on else flag w h name))"
proof -
  let ?cl = "daemon_client sv loads"
  let ?valid = "sort (remdups (filter (\<lambda>h. h \<in> set known) helpers))"
  let ?invalid = "sort (remdups (filter (\<lambda>h. h \<notin> set known) helpers))"
  have good: "\<exists>hs. served hs sv" using assms(1) by blast
  have v: "validate_helpers known helpers = (?valid, ?invalid)" by (simp add: validate_helpers_def)
  have "set ?valid \<subseteq> set (helper_names (sv_reg sv))" using assms(3) by auto
  from client_switches [OF assms(1,2) this, of on loads True] obtain vs w' where
    run: "(if on then client_enable_helpers ?cl ?valid (True, w) else client_disable_helpers ?cl ?valid (True, w)) = (Inr vs, (True, w'))"
    and flags: "\<forall>h name. flag w' h name = (if optionxform name = ''enable'' \<and> h_name h \<in> set ?valid then Inr on else flag w h name)"
    by blast
  have enter: "client_enter ?cl w = (Inr True, (True, w))"
    using daemon_bus.connects [OF good, of loads False w] by (simp add: client_enter_def daemon_client_def)
  have "set_helper_enabled ?cl known helpers on (w, io) = (Inr (), (w',
       (if ?invalid = [] then io else io\<lparr>io_err := io_err io @ invalid_line ?invalid @ nl\<rparr>)))"
    unfolding set_helper_enabled_def cli_command_def v
    using run by (cases on) (auto simp: enter ignore_def client_call_def give_def print_err_def andthen_def)
  then show ?thesis using flags by (auto simp: Let_def)
qed

section \<open>Witnesses\<close>

definition silent :: io where
  "silent = \<lparr>io_out = [], io_err = [], io_files = [(''log'', ''old'')]\<rparr>"

definition sample_args :: cli_args where
  "sample_args = \<lparr>arg_debug = False, arg_all = False, arg_helper = [], arg_wait = False, arg_log = ''gpu/a.zip'',
     arg_out = Some ''log'', arg_failed = True, arg_pending = False, arg_uploaded = False, arg_level = None\<rparr>"

definition deaf_client :: "nat client" where
  "deaf_client = \<lparr>cl_bus = (\<lambda>rq n. case rq of Method p i m args \<Rightarrow> (Inr (BFd 5), Suc n)
      | Children p \<Rightarrow> (Inr (BStrs [helper_path ''gpu'']), Suc n) | _ \<Rightarrow> (Inr BUnit, Suc n)), cl_loads = no_json\<rparr>"

lemma deaf_extract:
  "client_connect deaf_client (False, 0) = (Inr (), (True, 2))"
  "client_extract deaf_client ''gpu'' ''a.zip'' (Some (wanted_type sample_args)) (True, 2) = (Inr (Some 5), (True, 4))"
  "log_parts (arg_log sample_args) = Some (''gpu'', ''a.zip'')"
  by code_simp+

theorem extract_output_witness:
  "dict_get (io_files (snd (snd (do_extract deaf_client (\<lambda>_. Inr ()) (\<lambda>fd. if fd = 5 then ''crash'' else [])
     sample_args (0, silent))))) ''log'' = Some ''crash''"
proof -
  obtain res w' io' where run: "do_extract deaf_client (\<lambda>_. Inr ()) (\<lambda>fd. if fd = 5 then ''crash'' else [])
     sample_args (0, silent) = (res, (w', io'))" by (metis prod.exhaust)
  have "arg_out sample_args = Some ''log''" by (simp add: sample_args_def)
  from extract_output [OF deaf_extract(1,3) this _ _ deaf_extract(2) run] show ?thesis by (simp add: run)
qed

theorem command_line_switches_helpers_witness:
  "\<exists>w'. set_helper_enabled (daemon_client bus_server no_json) [''gpu'', ''kdump''] [''gqu'', ''gpu''] False (bus_world, silent)
     = (Inr (), (w', silent\<lparr>io_err := ''Invalid helpers: gqu'' @ nl\<rparr>)) \<and> enabled w' gpu_helper = Inr False"
proof -
  have k: "set [''gpu'', ''kdump''] = set (helper_names (sv_reg bus_server))" by code_simp
  have "(let invalid = sort (remdups (filter (\<lambda>h. h \<notin> set [''gpu'', ''kdump'']) [''gqu'', ''gpu'']))
        in if invalid = [] then silent else silent\<lparr>io_err := io_err silent @ invalid_line invalid @ nl\<rparr>)
        = silent\<lparr>io_err := ''Invalid helpers: gqu'' @ nl\<rparr>"
    "optionxform ''enable'' = ''enable''" "h_name gpu_helper = ''gpu''"
    by code_simp+
  with command_line_switches_helpers [OF bus_served bus_can_save k, of no_json "[''gqu'', ''gpu'']" False silent]
  show ?thesis by (auto simp: enabled_def)
qed

end
