(* ===== verification/Hooks.thy ===== *)
theory Hooks imports Blocks Minidump Submits Util_Proc Util_System Helper_Files begin

text \<open>
  The hooks that udev and the kernel start: \<^verbatim>\<open>hooks/coredump.py\<close> for core dumps of processes and
  \<^verbatim>\<open>hooks/devcoredump.py\<close> for those of devices, and \<^verbatim>\<open>hooks/__init__.py\<close>, which asks the daemon to collect.
  The programs they run and the files of \<^verbatim>\<open>/sys\<close> are arguments.
\<close>

section \<open>Sequencing\<close>

definition bind_run :: "('s \<Rightarrow> 'a result \<times> 's) \<Rightarrow> ('a \<Rightarrow> 's \<Rightarrow> 'b result \<times> 's) \<Rightarrow> 's \<Rightarrow> 'b result \<times> 's" where
  "bind_run m f s = (case m s of (Inl e, s1) \<Rightarrow> (Inl e, s1) | (Inr a, s1) \<Rightarrow> f a s1)"

definition lift_result :: "'a result \<Rightarrow> 's \<Rightarrow> 'a result \<times> 's" where
  "lift_result r s = (r, s)"

section \<open>Asking for a collection\<close>

text \<open>\<^verbatim>\<open>atrigger\<close>: every exception but a cancellation is logged and dropped.\<close>

definition atrigger :: "unit result \<Rightarrow> unit result \<Rightarrow> unit result" where
  "atrigger drained collected =
     (case (case drained of Inl e \<Rightarrow> Inl e | Inr _ \<Rightarrow> collected) of
        Inl e \<Rightarrow> (if is_Exception e then Inr () else Inl e) | Inr _ \<Rightarrow> Inr ())"

section \<open>tee\<close>

text \<open>A process that reads: whether it has a pipe, which of its blocks it takes, and what it got.\<close>

record reader =
  rd_pipe :: bool
  rd_takes :: "nat \<Rightarrow> bool"
  rd_seen :: nat
  rd_got :: string

definition feed :: "string \<Rightarrow> reader \<Rightarrow> reader" where
  "feed block r = (if \<not> rd_pipe r then r
     else r\<lparr>rd_seen := Suc (rd_seen r), rd_got := rd_got r @ (if rd_takes r (rd_seen r) then block else [])\<rparr>)"

definition tee :: "string \<Rightarrow> reader list \<Rightarrow> reader list" where
  "tee data procs = fold (\<lambda>block ps. map (feed block) ps) (read_blocks 4096 data) procs"

section \<open>Core dumps of processes\<close>

definition should_collect :: "string \<Rightarrow> bool" where
  "should_collect path =
     (if prefix ''/tmp/.mount_'' path then False
      else if prefix ''/app'' path then False
      else if sublist ''/.local/share/Steam/'' path then False
      else True)"

text \<open>The ten arguments of the hook, by their names in the core pattern.\<close>

record core_args =
  ca_P :: string  ca_e :: string  ca_u :: string  ca_g :: string  ca_s :: string
  ca_t :: string  ca_c :: string  ca_h :: string  ca_f :: string  ca_E :: string

text \<open>
  \<open>ce_systemd\<close> and \<open>ce_breakpad\<close>: starting the two handlers; breakpad's leaves a file or not.
\<close>

record core_env =
  ce_appid :: "int \<Rightarrow> int option result"                  \<comment> \<open>util.get\_appid\<close>
  ce_systemd :: "unit result"
  ce_breakpad :: "string option result"
  ce_setxattr :: "string \<Rightarrow> unit result"
  ce_build_id :: "string \<Rightarrow> string option result"         \<comment> \<open>util.get\_exe\_build\_id\<close>
  ce_package :: "string \<Rightarrow> (string \<times> string) option result" \<comment> \<open>util.get\_path\_package\<close>
  ce_chown :: "unit result"
  ce_now :: int

definition core_path :: "core_args \<Rightarrow> string" where
  "core_path a = map (\<lambda>c. if c = CHR ''!'' then CHR ''/'' else c) (ca_E a)"

definition core_appid :: "core_env \<Rightarrow> core_args \<Rightarrow> int option result" where
  "core_appid env a = (case py_int (ca_P a) of
       None \<Rightarrow> Inr None
     | Some p \<Rightarrow> (case ce_appid env p of
         Inl e \<Rightarrow> (if is_ValueError e then Inr None else Inl e) | Inr i \<Rightarrow> Inr i))"

definition minidump_name :: "core_args \<Rightarrow> int option \<Rightarrow> string" where
  "minidump_name a appid = ca_t a @ ''-'' @ ca_e a @ ''-'' @ ca_P a @ ''-''
     @ (case appid of None \<Rightarrow> ''None'' | Some n \<Rightarrow> show_int n) @ ''.dmp''"

definition staged_name :: "string \<Rightarrow> string" where
  "staged_name name = ''.staging-'' @ name"

text \<open>The extended attributes of the staged dump; the first failure ends the block.\<close>

definition put_xattr :: "core_env \<Rightarrow> bool \<Rightarrow> string \<Rightarrow> string \<Rightarrow> (string, string) dict \<Rightarrow> unit result \<times> (string, string) dict" where
  "put_xattr env there name v xs =
     (if \<not> there then (Inl FileNotFoundError, xs)
      else (case ce_setxattr env name of Inl e \<Rightarrow> (Inl e, xs) | Inr _ \<Rightarrow> (Inr (), dict_set xs name v)))"

definition annotate :: "core_env \<Rightarrow> core_args \<Rightarrow> bool \<Rightarrow> (string, string) dict \<Rightarrow> unit result \<times> (string, string) dict" where
  "annotate env a there =
     bind_run (put_xattr env there ''user.executable'' (ca_f a)) (\<lambda>_.
     bind_run (put_xattr env there ''user.comm'' (ca_e a)) (\<lambda>_.
     bind_run (put_xattr env there ''user.path'' (core_path a)) (\<lambda>_.
     bind_run (lift_result (ce_build_id env (core_path a))) (\<lambda>b.
     bind_run (case b of None \<Rightarrow> lift_result (Inr ()) | Some i \<Rightarrow> put_xattr env there ''user.build_id'' i) (\<lambda>_.
     bind_run (lift_result (ce_package env (core_path a))) (\<lambda>p. case p of
         None \<Rightarrow> lift_result (Inr ())
       | Some (n, v) \<Rightarrow> bind_run (put_xattr env there ''user.pkgname'' n) (\<lambda>_. put_xattr env there ''user.pkgver'' v)))))))"

text \<open>\<^verbatim>\<open>os.rename\<close> of the staged dump; its attributes go with it.\<close>

definition publish :: "string \<Rightarrow> 'x world_scheme \<Rightarrow> unit result \<times> 'x world_scheme" where
  "publish name w = (case pend_dir w ''minidump'' of
       None \<Rightarrow> (Inl FileNotFoundError, w)
     | Some d \<Rightarrow> (case dict_get d (staged_name name) of
         None \<Rightarrow> (Inl FileNotFoundError, w)
       | Some f \<Rightarrow> (Inr (), set_pend ''minidump'' (dict_set (dict_del d (staged_name name)) name f) w)))"

text \<open>The result, the world, and the attributes the dump ended up with.\<close>

definition coredump_run :: "core_env \<Rightarrow> core_args \<Rightarrow> 'x world_scheme \<Rightarrow> bool result \<times> 'x world_scheme \<times> (string, string) dict" where
  "coredump_run env a w = (case py_int (ca_t a) of
       None \<Rightarrow> (Inl ValueError, w, [])
     | Some _ \<Rightarrow> (case core_appid env a of
         Inl e \<Rightarrow> (Inl e, w, [])
       | Inr appid \<Rightarrow> (case ce_systemd env of
           Inl e \<Rightarrow> (Inl e, w, [])
         | Inr _ \<Rightarrow>
            (let name = minidump_name a appid in
             if \<not> should_collect (core_path a) then (Inr (should_collect (ca_E a)), w, [])
             else (case ce_breakpad env of
                 Inl e \<Rightarrow> (Inl e, w, [])
               | Inr dump \<Rightarrow>
                  (let w1 = (case (dump, pend_dir w ''minidump'') of
                         (Some text, Some d) \<Rightarrow> set_pend ''minidump'' (dict_set d (staged_name name)
                            \<lparr>lf_text = text, lf_mtime = ce_now env, lf_readable = True, lf_stat = True\<rparr>) w
                       | _ \<Rightarrow> w);
                       there = (case pend_dir w1 ''minidump'' of None \<Rightarrow> False | Some d \<Rightarrow> dict_has d (staged_name name))
                   in case annotate env a there [] of
                        (r, xs) \<Rightarrow>
                          (if (case r of Inl e \<Rightarrow> \<not> is_OSError e | Inr _ \<Rightarrow> False) then (map_sum id (\<lambda>_. False) r, w1, xs)
                           else if \<not> there then (Inl FileNotFoundError, w1, xs)
                           else (case ce_chown env of
                               Inl e \<Rightarrow> (Inl e, w1, xs)
                             | Inr _ \<Rightarrow> (case publish name w1 of
                                 (Inl e, w2) \<Rightarrow> (Inl e, w2, xs)
                               | (Inr _, w2) \<Rightarrow> (Inr (should_collect (ca_E a)), w2, xs))))))))))"

section \<open>Core dumps of devices\<close>

record devcd_env =
  dv_block :: "string list result"            \<comment> \<open>listing of devcd-block\<close>
  dv_clear :: "string list result"            \<comment> \<open>listing of devcd-clear\<close>
  dv_now :: int                               \<comment> \<open>time.time\_ns()\<close>
  dv_kernel :: string
  dv_branch :: "string option"                \<comment> \<open>util.get\_steamos\_branch\<close>
  dv_device :: "string result"                \<comment> \<open>readlink of failing\_device\<close>
  dv_abspath :: "string \<Rightarrow> string"
  dv_driver :: "string result"                \<comment> \<open>readlink of failing\_device/driver\<close>
  dv_exec :: "string list \<Rightarrow> json result list result"   \<comment> \<open>journalctl\<close>
  dv_dump :: "string result"                  \<comment> \<open>the file data\<close>
  dv_write :: "unit result"                   \<comment> \<open>opening data for writing\<close>
  dv_chown :: "unit result"
  dv_rnd :: string

definition not_hidden :: "string list \<Rightarrow> string list" where
  "not_hidden names = filter (\<lambda>d. \<not> prefix ''.'' d) names"

text \<open>A listing that fails with an OSError counts as empty.\<close>

definition driver_list :: "string list \<Rightarrow> string list result \<Rightarrow> string list result" where
  "driver_list base names = (case names of
       Inr ns \<Rightarrow> Inr (base @ not_hidden ns) | Inl e \<Rightarrow> (if is_OSError e then Inr base else Inl e))"

definition optional_link :: "string result \<Rightarrow> string option result" where
  "optional_link r = (case r of Inr l \<Rightarrow> Inr (Some l) | Inl e \<Rightarrow> (if is_OSError e then Inr None else Inl e))"

definition recent_kernel :: jquery where
  "recent_kernel = \<lparr>jq_unit = ''kernel'', jq_cursor = None, jq_current_boot = True, jq_start_ago_ms = Some 15000,
     jq_uid = None, jq_allow_system = True, jq_allow_user = False\<rparr>"

definition device_text :: "string \<Rightarrow> string" where
  "device_text dev = py_replace ''/'' ''_'' (removeprefix ''/'' (removeprefix ''/sys'' dev))"

definition devcd_filename :: "string option \<Rightarrow> string option \<Rightarrow> int \<Rightarrow> string" where
  "devcd_filename device driver ts = (case device of
       None \<Rightarrow> ''unknown-'' @ show_int ts @ ''.zip''
     | Some dev \<Rightarrow> (case driver of
         None \<Rightarrow> device_text dev @ ''-'' @ show_int ts @ ''.zip''
       | Some drv \<Rightarrow> drv @ ''-'' @ device_text dev @ ''-'' @ show_int ts @ ''.zip''))"

definition devcd_metadata :: "devcd_env \<Rightarrow> string option \<Rightarrow> string option \<Rightarrow> (string, json) dict list option \<Rightarrow> (string, json) dict" where
  "devcd_metadata env device driver journal =
     [(''timestamp'', JFloat (dv_now env)), (''kernel'', JStr (dv_kernel env)),
      (''branch'', case dv_branch env of None \<Rightarrow> JNull | Some b \<Rightarrow> JStr b)]
     @ (case device of None \<Rightarrow> [] | Some d \<Rightarrow> [(''failing_device'', JStr d)])
     @ (case driver of None \<Rightarrow> [] | Some d \<Rightarrow> [(''driver'', JStr d)])
     @ (case journal of None \<Rightarrow> [] | Some ls \<Rightarrow> [(''journal'',
          JList (List.map_filter (\<lambda>l. dict_get l ''MESSAGE'') ls))])"

text \<open>
  The staged archive: its members, and the exception with which the block ended, in which case
  \<^verbatim>\<open>StagingFile\<close> publishes what there is. \<open>zip_of\<close> makes the bytes.
\<close>

definition devcd_members :: "(json \<Rightarrow> string) \<Rightarrow> devcd_env \<Rightarrow> (string, json) dict \<Rightarrow> unit result \<times> (string, string) dict" where
  "devcd_members dumps env metadata = (case dv_dump env of
       Inl e \<Rightarrow> (Inl e, [(''metadata.json'', dumps (JObj metadata)), (''dump'', [])])
     | Inr data \<Rightarrow> (Inr (), [(''metadata.json'', dumps (JObj metadata)), (''dump'', concat (read_blocks 4096 data))]))"

text \<open>The result, whether the device's dump was cleared, and the world.\<close>

definition devcoredump_run :: "(json \<Rightarrow> string) \<Rightarrow> ((string, string) dict \<Rightarrow> string) \<Rightarrow> devcd_env \<Rightarrow> 'x world_scheme
    \<Rightarrow> bool result \<times> bool \<times> 'x world_scheme" where
  "devcoredump_run dumps zip_of env w =
     (case driver_list [''amdgpu''] (dv_block env) of Inl e \<Rightarrow> (Inl e, False, w) | Inr blocked \<Rightarrow>
     (case driver_list [] (dv_clear env) of Inl e \<Rightarrow> (Inl e, False, w) | Inr clears \<Rightarrow>
     (case optional_link (dv_device env) of Inl e \<Rightarrow> (Inl e, False, w) | Inr device0 \<Rightarrow>
     (case optional_link (dv_driver env) of Inl e \<Rightarrow> (Inl e, False, w) | Inr driver0 \<Rightarrow>
       (let device = map_option (dv_abspath env) device0; driver = map_option basename driver0 in
        if (case driver of None \<Rightarrow> False | Some d \<Rightarrow> d \<in> set blocked) then (Inr False, False, w)
        else (case (if driver = None then Inr (None, JNull) else read_journal (dv_exec env) recent_kernel) of
            Inl e \<Rightarrow> (Inl e, False, w)
          | Inr (journal, _) \<Rightarrow>
             (case devcd_members dumps env (devcd_metadata env device driver journal) of
                (ended, members) \<Rightarrow>
                  (case with_staging ''devcoredump'' (dv_rnd env) (devcd_filename device driver (dv_now env)) (dv_chown env)
                      (ended, \<lparr>lf_text = zip_of members, lf_mtime = dv_now env div 1000000, lf_readable = True, lf_stat = True\<rparr>) w of
                     (Inl e, w1) \<Rightarrow> (Inl e, False, w1)
                   | (Inr _, w1) \<Rightarrow>
                      (if (case driver of None \<Rightarrow> False | Some d \<Rightarrow> d \<in> set clears)
                       then (case dv_write env of Inl e \<Rightarrow> (Inl e, False, w1) | Inr _ \<Rightarrow> (Inr True, True, w1))
                       else (Inr True, False, w1))))))))))"

section \<open>Every reader gets the whole dump\<close>

lemma feed_blocks:
  "rd_pipe r \<Longrightarrow> (\<And>n. rd_takes r n) \<Longrightarrow> rd_got (fold feed bs r) = rd_got r @ concat bs"
  by (induction bs arbitrary: r) (simp_all add: feed_def)

lemma fold_map_feed: "fold (\<lambda>b ps. map (feed b) ps) bs procs = map (fold feed bs) procs"
  by (induction bs arbitrary: procs) simp_all


definition two_readers :: "reader list" where
  "two_readers = [\<lparr>rd_pipe = True, rd_takes = (\<lambda>_. False), rd_seen = 0, rd_got = []\<rparr>,
     \<lparr>rd_pipe = True, rd_takes = (\<lambda>_. True), rd_seen = 0, rd_got = []\<rparr>]"


section \<open>From a crash to its report\<close>

lemma staged_run:
  assumes "pend_dir w ''minidump'' = Some d" and "ce_breakpad env = Inr (Some dump)"
    and "should_collect (core_path a)" and "coredump_run env a w = (Inr b, w', xs)"
  shows "\<exists>appid r. core_appid env a = Inr appid \<and> annotate env a True [] = (r, xs)
     \<and> (case r of Inl e \<Rightarrow> is_OSError e | Inr _ \<Rightarrow> True)
     \<and> pend_dir w' ''minidump'' = Some (dict_set (dict_del (dict_set d (staged_name (minidump_name a appid))
          \<lparr>lf_text = dump, lf_mtime = ce_now env, lf_readable = True, lf_stat = True\<rparr>) (staged_name (minidump_name a appid)))
          (minidump_name a appid) \<lparr>lf_text = dump, lf_mtime = ce_now env, lf_readable = True, lf_stat = True\<rparr>)"
proof -
  obtain appid where appid: "core_appid env a = Inr appid"
    using assms(4) by (auto simp: coredump_run_def split: option.splits sum.splits)
  let ?f = "\<lparr>lf_text = dump, lf_mtime = ce_now env, lf_readable = True, lf_stat = True\<rparr>"
  let ?s = "staged_name (minidump_name a appid)"
  let ?w1 = "set_pend ''minidump'' (dict_set d ?s ?f) w"
  have p1: "pend_dir ?w1 ''minidump'' = Some (dict_set d ?s ?f)" by (simp add: pend_dir_def set_pend_def)
  obtain r xs' where an: "annotate env a True [] = (r, xs')" by fastforce
  have pub: "publish (minidump_name a appid) ?w1
      = (Inr (), set_pend ''minidump'' (dict_set (dict_del (dict_set d ?s ?f) ?s) (minidump_name a appid) ?f) ?w1)"
    by (simp add: publish_def p1)
  show ?thesis
    using assms(4) appid an pub
    by (auto simp: coredump_run_def Let_def assms(1-3) p1 split: option.splits sum.splits if_splits)
      (auto simp: pend_dir_def set_pend_def)
qed

lemma py_int_show_int: "0 \<le> n \<Longrightarrow> py_int (show_int n) = Some n"
  by (simp add: show_int_def)

lemma no_dash_number: "0 \<le> n \<Longrightarrow> CHR ''-'' \<notin> set (show_int n)"
  using show_nat_digits [of "CHR ''-''" "nat n"] by (auto simp: show_int_def is_digit_def code_def)

lemma splitext_dmp: "stem \<noteq> [] \<Longrightarrow> hd stem \<noteq> CHR ''.'' \<Longrightarrow> fst (splitext (stem @ ''.dmp'')) = stem"
proof -
  assume "stem \<noteq> []" "hd stem \<noteq> CHR ''.''"
  then have "\<exists>c \<in> set stem. c \<noteq> CHR ''.''" using hd_in_set by blast
  moreover have "rsplit_head (CHR ''.'') (stem @ CHR ''.'' # ''dmp'') = stem"
    by (rule rsplit_head_append) simp
  ultimately show ?thesis by (simp add: splitext_def Let_def)
qed

lemma minidump_name_appid:
  assumes "CHR ''/'' \<notin> set (ca_t a @ ca_e a @ ca_P a)" and "ca_t a \<noteq> []" and "hd (ca_t a) \<noteq> CHR ''.''"
    and "\<And>n. appid = Some n \<Longrightarrow> 0 \<le> n"
  shows "minidump_appid (dir @ ''/'' @ minidump_name a appid) = (case appid of None \<Rightarrow> JNull | Some n \<Rightarrow> JInt n)"
proof -
  define e where "e = (case appid of None \<Rightarrow> ''None'' | Some n \<Rightarrow> show_int n)"
  define front where "front = ca_t a @ ''-'' @ ca_e a @ ''-'' @ ca_P a"
  have "CHR ''/'' \<notin> set (show_int n)" if "0 \<le> n" for n
    using show_nat_digits [of "CHR ''/''" "nat n"] that by (auto simp: show_int_def is_digit_def code_def)
  then have e: "CHR ''/'' \<notin> set e" "CHR ''-'' \<notin> set e"
    using assms(4) no_dash_number by (auto simp: e_def split: option.split)
  have name: "minidump_name a appid = (front @ CHR ''-'' # e) @ ''.dmp''"
    by (simp add: minidump_name_def front_def e_def)
  have "CHR ''/'' \<notin> set (minidump_name a appid)"
    using assms(1) e(1) by (simp add: name front_def)
  then have "basename (dir @ ''/'' @ minidump_name a appid) = minidump_name a appid"
    by (simp add: basename_append)
  moreover have "fst (splitext ((front @ CHR ''-'' # e) @ ''.dmp'')) = front @ CHR ''-'' # e"
    using assms(2,3) by (intro splitext_dmp) (auto simp: front_def)
  moreover have "last_part (CHR ''-'') (front @ CHR ''-'' # e) = e"
    using e(2) by (rule last_part_append)
  ultimately have "minidump_appid (dir @ ''/'' @ minidump_name a appid) = (case py_int e of None \<Rightarrow> JNull | Some n \<Rightarrow> JInt n)"
    by (simp add: minidump_appid_def name)
  moreover have "py_int ''None'' = None" by code_simp
  ultimately show ?thesis
    using assms(4) by (auto simp: e_def py_int_show_int split: option.split)
qed

text \<open>What a complete annotation records.\<close>

definition recorded :: "core_env \<Rightarrow> core_args \<Rightarrow> (string, string) dict" where
  "recorded env a = [(''executable'', ca_f a), (''comm'', ca_e a), (''path'', core_path a)]
     @ (case ce_build_id env (core_path a) of Inr (Some i) \<Rightarrow> [(''build_id'', i)] | _ \<Rightarrow> [])
     @ (case ce_package env (core_path a) of Inr (Some (n, v)) \<Rightarrow> [(''pkgname'', n), (''pkgver'', v)] | _ \<Rightarrow> [])"

lemma annotate_records:
  assumes "\<And>n. ce_setxattr env n = Inr ()" and "ce_build_id env (core_path a) = Inr b" and "ce_package env (core_path a) = Inr p"
  shows "annotate env a True [] = (Inr (), map (\<lambda>(k, v). (''user.'' @ k, v)) (recorded env a))"
  using assms
  by (cases b; cases p)
    (auto simp: annotate_def bind_run_def put_xattr_def lift_result_def recorded_def split: prod.split)

lemma add_xattrs_recorded:
  assumes "ce_build_id env (core_path a) = Inr b" and "ce_package env (core_path a) = Inr p" and "ev_tags ev = []"
  shows "add_xattrs (dict_get (map (\<lambda>(k, v). (''user.'' @ k, v)) (recorded env a))) ev
     = ev\<lparr>ev_tags := map (\<lambda>(k, v). (k, JStr v)) (recorded env a)\<rparr>"
proof (cases p)
  case None
  then show ?thesis using assms by (cases b) (simp_all add: add_xattrs_def minidump_attrs_def recorded_def)
next
  case (Some nv)
  obtain n v where "nv = (n, v)" by (cases nv)
  then show ?thesis using assms Some by (cases b) (simp_all add: add_xattrs_def minidump_attrs_def recorded_def)
qed

lemma digit_not: "is_digit c \<Longrightarrow> c \<noteq> CHR ''/'' \<and> c \<noteq> CHR ''.''"
  by (auto simp: is_digit_def code_def)

text \<open>C23. A core dump that the hook accepts is published whole under its name, and what the hook recorded about the process - executable, command, path, build id and package, and the game's number in the name - is what the event of its submission carries.\<close>

theorem crash_reaches_report:
  assumes "pend_dir w ''minidump'' = Some d" and "ce_breakpad env = Inr (Some dump)" and "should_collect (core_path a)"
    and "coredump_run env a w = (Inr b, w', xs)"
    and "\<And>n. ce_setxattr env n = Inr ()" and "ce_build_id env (core_path a) = Inr bid" and "ce_package env (core_path a) = Inr pkg"
    and "ca_t a \<noteq> []" and "list_all is_digit (ca_t a @ ca_P a)" and "CHR ''/'' \<notin> set (ca_e a)"
    and "\<And>n. core_appid env a = Inr (Some n) \<Longrightarrow> 0 \<le> n"
  shows "\<exists>appid d' f. core_appid env a = Inr appid \<and> pend_dir w' ''minidump'' = Some d'
     \<and> dict_get d' (minidump_name a appid) = Some f \<and> lf_text f = dump
     \<and> minidump_event senv dsn (dir_path base ''pending'' ''minidump'' @ ''/'' @ minidump_name a appid) (dict_get xs)
       = (new_event senv dsn)\<lparr>ev_appid := (case appid of None \<Rightarrow> JNull | Some n \<Rightarrow> JInt n),
            ev_tags := map (\<lambda>(k, v). (k, JStr v)) (recorded env a)\<rparr>"
proof -
  obtain appid r where ap: "core_appid env a = Inr appid" and an: "annotate env a True [] = (r, xs)"
    and dir: "pend_dir w' ''minidump'' = Some (dict_set (dict_del (dict_set d (staged_name (minidump_name a appid))
          \<lparr>lf_text = dump, lf_mtime = ce_now env, lf_readable = True, lf_stat = True\<rparr>) (staged_name (minidump_name a appid)))
          (minidump_name a appid) \<lparr>lf_text = dump, lf_mtime = ce_now env, lf_readable = True, lf_stat = True\<rparr>)"
    using staged_run [OF assms(1-4)] by blast
  have xs: "xs = map (\<lambda>(k, v). (''user.'' @ k, v)) (recorded env a)"
    using an annotate_records [OF assms(5-7)] by simp
  have chars: "CHR ''/'' \<notin> set (ca_t a @ ca_e a @ ca_P a)" "hd (ca_t a) \<noteq> CHR ''.''"
    using assms(8-10) digit_not by (auto simp: list_all_iff)
  have "minidump_appid (dir_path base ''pending'' ''minidump'' @ ''/'' @ minidump_name a appid)
      = (case appid of None \<Rightarrow> JNull | Some n \<Rightarrow> JInt n)"
    using assms(11) ap by (intro minidump_name_appid [OF chars(1) assms(8) chars(2)]) simp
  moreover have tags: "ev_tags ((new_event senv dsn)\<lparr>ev_appid := x\<rparr>) = []" for x
    by (simp add: new_event_def)
  ultimately have "minidump_event senv dsn (dir_path base ''pending'' ''minidump'' @ ''/'' @ minidump_name a appid) (dict_get xs)
       = (new_event senv dsn)\<lparr>ev_appid := (case appid of None \<Rightarrow> JNull | Some n \<Rightarrow> JInt n),
            ev_tags := map (\<lambda>(k, v). (k, JStr v)) (recorded env a)\<rparr>"
    unfolding minidump_event_def xs by (simp only: add_xattrs_recorded [OF assms(6,7) tags])
  then show ?thesis using ap dir by simp
qed

lemma encoded_path_collected: "CHR ''/'' \<notin> set e \<Longrightarrow> should_collect e"
  by (auto simp: should_collect_def prefix_def sublist_def)

text \<open>A dump that is left to others, of an AppImage, a Flatpak or a Steam game, is not staged, but the hook reports it as collected all the same: the test at the end looks at the path in the kernel's encoding, where slashes are exclamation marks.\<close>

theorem skipped_dump_still_triggers:
  assumes "\<not> should_collect (core_path a)" and "CHR ''/'' \<notin> set (ca_E a)" and "coredump_run env a w = (Inr b, w', xs)"
  shows "b \<and> w' = w \<and> xs = []"
  using assms(3) encoded_path_collected [OF assms(2)]
  by (auto simp: coredump_run_def assms(1) Let_def split: option.splits sum.splits)

section \<open>From a device to its report\<close>

lemma devcd_fields:
  "dict_get (devcd_metadata env device driver journal) ''timestamp'' = Some (JFloat (dv_now env))"
  "dict_get (devcd_metadata env device driver journal) ''kernel'' = Some (JStr (dv_kernel env))"
  "dict_get (devcd_metadata env device driver journal) ''branch'' = Some (case dv_branch env of None \<Rightarrow> JNull | Some b \<Rightarrow> JStr b)"
  "dict_get (devcd_metadata env device driver journal) ''failing_device'' = map_option JStr device"
  "dict_get (devcd_metadata env device driver journal) ''driver'' = map_option JStr driver"
  by (cases device; cases driver; cases journal; simp add: devcd_metadata_def)+

text \<open>The archive the hook writes is one the helper accepts: the event has the time, the kernel, the branch, the device and the driver that the hook found, and the dump's own bytes are in the archive.\<close>

theorem device_dump_reaches_report:
  assumes "devcd_members dumps env (devcd_metadata env device driver journal) = (Inr (), members)"
    and "le_loads le (dumps (JObj (devcd_metadata env device driver journal))) = Inr (JObj (devcd_metadata env device driver journal))"
    and "dv_dump env = Inr data"
  shows "dict_get members ''dump'' = Some data
     \<and> (\<exists>ev. devcoredump_prepare le (Inr url) fname (Inr members) (Inr bytes) = Send ev
       \<and> ev_timestamp ev = JFloat (dv_now env)
       \<and> ev_tags ev = [(''kernel'', JStr (dv_kernel env)), (''branch'', case dv_branch env of None \<Rightarrow> JNull | Some b \<Rightarrow> JStr b)]
           @ (case device of None \<Rightarrow> [] | Some x \<Rightarrow> [(''failing_device'', JStr x)])
           @ (case driver of None \<Rightarrow> [] | Some x \<Rightarrow> [(''driver'', JStr x)]))"
proof -
  have m: "members = [(''metadata.json'', dumps (JObj (devcd_metadata env device driver journal))), (''dump'', data)]"
    using assms(1,3) by (simp add: devcd_members_def concat_read_blocks)
  let ?d = "devcd_metadata env device driver journal"
  show ?thesis
    using assms(2) by (cases device; cases driver)
      (simp_all add: m devcoredump_prepare_def zip_read_def devcoredump_fields_def devcd_fields Let_def
        obj_get_def dict_getd_def)
qed

section \<open>Witnesses\<close>

definition crash_args :: core_args where
  "crash_args = \<lparr>ca_P = ''42'', ca_e = ''game-x'', ca_u = ''1000'', ca_g = ''1000'', ca_s = ''11'', ca_t = ''17'',
     ca_c = ''0'', ca_h = ''deck'', ca_f = ''game'', ca_E = ''!usr!bin!game''\<rparr>"

definition crash_env :: core_env where
  "crash_env = \<lparr>ce_appid = (\<lambda>p. Inr (Some 570)), ce_systemd = Inr (), ce_breakpad = Inr (Some ''MDMP''), ce_setxattr = (\<lambda>_. Inr ()),
     ce_build_id = (\<lambda>p. Inr (Some ''abcd'')), ce_package = (\<lambda>p. Inr (Some (''game'', ''1-1''))), ce_chown = Inr (), ce_now = 5\<rparr>"

definition crash_world :: world where
  "crash_world = gpu_world\<lparr>pend := [(''minidump'', []), (''devcoredump'', [])]\<rparr>"

lemma crash_facts:
  "pend_dir crash_world ''minidump'' = Some []" "should_collect (core_path crash_args)"
  "core_path crash_args = ''/usr/bin/game''" "core_appid crash_env crash_args = Inr (Some 570)"
  "list_all is_digit (ca_t crash_args @ ca_P crash_args)"
  "minidump_name crash_args (Some 570) = ''17-game-x-42-570.dmp''"
  by code_simp+

lemma crash_ok: "fst (coredump_run crash_env crash_args crash_world) = Inr True"
  by code_simp

theorem crash_reaches_report_witness:
  "\<exists>w' xs d'. coredump_run crash_env crash_args crash_world = (Inr True, w', xs)
     \<and> pend_dir w' ''minidump'' = Some d' \<and> dict_has d' ''17-game-x-42-570.dmp''"
proof -
  obtain w' xs where run: "coredump_run crash_env crash_args crash_world = (Inr True, w', xs)"
    using crash_ok by (metis prod.collapse)
  have "\<exists>appid d' f. core_appid crash_env crash_args = Inr appid \<and> pend_dir w' ''minidump'' = Some d'
     \<and> dict_get d' (minidump_name crash_args appid) = Some f \<and> lf_text f = ''MDMP''
     \<and> minidump_event sample_env ''https://k@h/5'' (dir_path ''/var'' ''pending'' ''minidump'' @ ''/'' @ minidump_name crash_args appid) (dict_get xs)
       = (new_event sample_env ''https://k@h/5'')\<lparr>ev_appid := (case appid of None \<Rightarrow> JNull | Some n \<Rightarrow> JInt n),
            ev_tags := map (\<lambda>(k, v). (k, JStr v)) (recorded crash_env crash_args)\<rparr>"
    by (rule crash_reaches_report [OF crash_facts(1) _ crash_facts(2) run, where bid = "Some ''abcd''" and pkg = "Some (''game'', ''1-1'')"])
      (use crash_facts(4,5) in \<open>simp_all add: crash_env_def crash_args_def\<close>)
  then show ?thesis using run crash_facts(4,6) by (auto simp: dict_has_def)
qed

theorem skipped_dump_still_triggers_witness:
  "fst (coredump_run crash_env (crash_args\<lparr>ca_E := ''!app!bin!game''\<rparr>) crash_world) = Inr True
   \<and> fst (snd (coredump_run crash_env (crash_args\<lparr>ca_E := ''!app!bin!game''\<rparr>) crash_world)) = crash_world"
proof -
  let ?a = "crash_args\<lparr>ca_E := ''!app!bin!game''\<rparr>"
  have "\<not> should_collect (core_path ?a)" "CHR ''/'' \<notin> set (ca_E ?a)"
    by code_simp+
  moreover have "fst (coredump_run crash_env ?a crash_world) = Inr True" by code_simp
  then obtain w' xs where "coredump_run crash_env ?a crash_world = (Inr True, w', xs)" by (metis prod.collapse)
  ultimately show ?thesis using skipped_dump_still_triggers [of ?a crash_env crash_world True w' xs] by simp
qed

definition device_env :: devcd_env where
  "device_env = \<lparr>dv_block = Inl FileNotFoundError, dv_clear = Inr [''ath11k''], dv_now = 7000000000, dv_kernel = ''6.1'',
     dv_branch = None, dv_device = Inr ''/sys/devices/pci/1'', dv_abspath = (\<lambda>p. p), dv_driver = Inr ''/sys/bus/drivers/ath11k'',
     dv_exec = (\<lambda>_. Inr []), dv_dump = Inr ''DUMP'', dv_write = Inr (), dv_chown = Inr (), dv_rnd = ''r''\<rparr>"

definition device_le :: logs_env where
  "device_le = sample_logs\<lparr>le_loads := (\<lambda>s. Inr (JObj (devcd_metadata device_env (Some ''/sys/devices/pci/1'') (Some ''ath11k'') None)))\<rparr>"

theorem device_dump_reaches_report_witness:
  "\<exists>ev. devcoredump_prepare device_le (Inr ''https://k@h/5'') ''/var/x.zip'' (Inr [(''metadata.json'', ''m''), (''dump'', ''DUMP'')]) (Inr ''PK'') = Send ev
     \<and> ev_timestamp ev = JFloat 7000000000"
proof -
  have "devcd_members (\<lambda>_. ''m'') device_env (devcd_metadata device_env (Some ''/sys/devices/pci/1'') (Some ''ath11k'') None)
      = (Inr (), [(''metadata.json'', ''m''), (''dump'', ''DUMP'')])"
    by (simp add: devcd_members_def concat_read_blocks device_env_def)
  from device_dump_reaches_report [OF this, of device_le "''DUMP''" "''https://k@h/5''" "''/var/x.zip''" "''PK''"]
  show ?thesis by (auto simp: device_le_def device_env_def)
qed

end
