(* ===== verification/Gpu_Hook.thy ===== *)
theory Gpu_Hook imports Hooks begin

text \<open>
  \<^verbatim>\<open>hooks/gpu.py\<close>, which udev runs when a GPU was reset: what it finds out about the process, the
  packages, the kernel log and the wave fronts, the archive it stages, and the device core dump it
  takes along and clears. The programs it runs and the files of \<^verbatim>\<open>/proc\<close> and \<^verbatim>\<open>/sys\<close> are arguments.
\<close>

section \<open>The environment\<close>

text \<open>A device core dump: its directory, its failing device and its data.\<close>

record devcd =
  dc_path :: string
  dc_device :: "string result"
  dc_data :: "string result"

record gpu_env =
  ge_now :: int                                  \<comment> \<open>time.time\_ns()\<close>
  ge_kernel :: string
  ge_branch :: "string option"
  ge_environ :: "(string \<times> string) list"
  ge_appid :: "int \<Rightarrow> int option result"         \<comment> \<open>util.get\_appid\<close>
  ge_comms :: "(string \<times> string result) list"    \<comment> \<open>the files /proc/*/comm and what they hold\<close>
  ge_readlink :: "string \<Rightarrow> string result"
  ge_pacman :: "string \<Rightarrow> string result"         \<comment> \<open>output of pacman -Q\<close>
  ge_exec :: "string list \<Rightarrow> json result list result"   \<comment> \<open>journalctl\<close>
  ge_umr :: "string list \<Rightarrow> (string \<times> string) result"  \<comment> \<open>output and errors of umr\<close>
  ge_devcds :: "devcd list"
  ge_abspath :: "string \<Rightarrow> string"
  ge_write :: "string \<Rightarrow> unit result"
  ge_chown :: "unit result"
  ge_rnd :: string

definition bind_res :: "'a result \<Rightarrow> ('a \<Rightarrow> 'b result) \<Rightarrow> 'b result" where
  "bind_res r f = (case r of Inl e \<Rightarrow> Inl e | Inr a \<Rightarrow> f a)"

text \<open>The loop over the variables: the process, the PCI path and the copy of the environment.\<close>

definition scan_variable :: "string \<times> string \<Rightarrow> int option \<times> string option \<times> (string, string) dict
    \<Rightarrow> int option \<times> string option \<times> (string, string) dict" where
  "scan_variable kv st = (case (kv, st) of ((key, val), (pid, pci, env)) \<Rightarrow>
     (if key = ''PID'' then (case py_int val of None \<Rightarrow> pid | Some n \<Rightarrow> Some n) else pid,
      if key = ''ID_PATH'' \<and> prefix ''pci-'' val then Some (drop 4 val) else pci,
      dict_set env key val))"

definition scan_environ :: "(string \<times> string) list \<Rightarrow> int option \<times> string option \<times> (string, string) dict" where
  "scan_environ vars = fold scan_variable vars (None, None, [])"

section \<open>The process\<close>

definition comm_pid :: "string \<Rightarrow> int option" where
  "comm_pid path = (case split_on (CHR ''/'') path of _ # _ # p # _ \<Rightarrow> py_int p | _ \<Rightarrow> None)"

text \<open>Without a process, Steam's reaper is looked for: the last one tried, and the game of the first that has one.\<close>

fun find_reaper :: "(int \<Rightarrow> int option result) \<Rightarrow> (string \<times> string result) list \<Rightarrow> int option \<Rightarrow> (int option \<times> int option) result" where
  "find_reaper appid_of [] pid = Inr (pid, None)"
| "find_reaper appid_of ((path, held) # files) pid = (case held of
       Inl e \<Rightarrow> (if is_OSError e then find_reaper appid_of files pid else Inl e)
     | Inr comm \<Rightarrow>
        (if rstrip comm \<noteq> ''reaper'' then find_reaper appid_of files pid
         else (case comm_pid path of
             None \<Rightarrow> find_reaper appid_of files pid
           | Some p \<Rightarrow> (case appid_of p of
               Inl e \<Rightarrow> Inl e
             | Inr (Some i) \<Rightarrow> Inr (Some p, Some i)
             | Inr None \<Rightarrow> find_reaper appid_of files (Some p)))))"

definition appid_entry :: "int option \<Rightarrow> (string, json) dict" where
  "appid_entry a = (case a of None \<Rightarrow> [] | Some i \<Rightarrow> [(''appid'', JInt i)])"

definition gpu_process :: "gpu_env \<Rightarrow> int option \<Rightarrow> (int option \<times> (string, json) dict) result" where
  "gpu_process env pid =
     (if pid \<noteq> None \<and> pid \<noteq> Some 0
      then bind_res (ge_appid env (the pid)) (\<lambda>a. Inr (pid, (''pid'', JInt (the pid)) # appid_entry a))
      else bind_res (find_reaper (ge_appid env) (ge_comms env) pid) (\<lambda>(q, a). Inr (q, appid_entry a)))"

definition exe_path :: "int option \<Rightarrow> string" where
  "exe_path pid = ''/proc/'' @ (case pid of None \<Rightarrow> ''None'' | Some p \<Rightarrow> show_int p) @ ''/exe''"

definition gpu_executable :: "gpu_env \<Rightarrow> int option \<Rightarrow> (string, json) dict result" where
  "gpu_executable env pid = (case ge_readlink env (exe_path pid) of
       Inr l \<Rightarrow> Inr [(''executable'', JStr (basename l))]
     | Inl e \<Rightarrow> (if is_OSError e then Inr [] else Inl e))"

definition gpu_comm :: "(string, string) dict \<Rightarrow> (string, json) dict" where
  "gpu_comm vars = (case dict_get vars ''NAME'' of
       None \<Rightarrow> [] | Some n \<Rightarrow> if n = [] then [] else [(''comm'', JStr n)])"

text \<open>The version of a package; output without a blank is an IndexError, which is not caught.\<close>

definition gpu_package :: "gpu_env \<Rightarrow> string \<Rightarrow> string \<Rightarrow> (string, json) dict result" where
  "gpu_package env name key = (case ge_pacman env name of
       Inl e \<Rightarrow> (if is_OSError e \<or> e = CalledProcessError then Inr [] else Inl e)
     | Inr out \<Rightarrow> (case split_on (CHR '' '') (strip out) of
         _ # v # _ \<Rightarrow> Inr [(key, JStr v)] | _ \<Rightarrow> Inl IndexError))"

section \<open>The kernel log\<close>

text \<open>\<^verbatim>\<open>ring_re.search\<close>: a star, ERROR, and the word between ring and timeout.\<close>

definition ring_prefix :: string where "ring_prefix = ''*ERROR* ring ''"

definition ring_here :: "string \<Rightarrow> string option" where
  "ring_here s = (if prefix ring_prefix s
     then (let rest = drop (length ring_prefix) s; r = takeWhile (\<lambda>c. c \<noteq> CHR '' '') rest
           in if r \<noteq> [] \<and> prefix '' timeout'' (dropWhile (\<lambda>c. c \<noteq> CHR '' '') rest) then Some r else None)
     else None)"

fun find_ring :: "string \<Rightarrow> string option" where
  "find_ring [] = None"
| "find_ring (c # s) = (case ring_here (c # s) of Some r \<Rightarrow> Some r | None \<Rightarrow> find_ring s)"

definition gpu_contexts :: "string list" where
  "gpu_contexts = [''amdgpu'', ''drm'', ''i915'', ''nouveau'']"

text \<open>\<^verbatim>\<open>context in message\<close>; a message is text unless the journal holds something else.\<close>

definition mentions :: "string \<Rightarrow> json \<Rightarrow> bool result" where
  "mentions c v = (case v of
       JStr m \<Rightarrow> Inr (sublist c m)
     | JList xs \<Rightarrow> Inr (JStr c \<in> set xs)
     | JObj d \<Rightarrow> Inr (dict_has d c)
     | _ \<Rightarrow> Inl TypeError)"

fun first_context :: "string list \<Rightarrow> json \<Rightarrow> string option result" where
  "first_context [] v = Inr None"
| "first_context (c # cs) v = (case mentions c v of
       Inl e \<Rightarrow> Inl e | Inr True \<Rightarrow> Inr (Some c) | Inr False \<Rightarrow> first_context cs v)"

fun scan_messages :: "(string, json) dict list \<Rightarrow> json list \<Rightarrow> string option \<Rightarrow> (json list \<times> string option) result" where
  "scan_messages [] relevant ring = Inr (relevant, ring)"
| "scan_messages (line # ls) relevant ring =
     (let msg = dict_getd line ''MESSAGE'' (JStr []) in
      case first_context gpu_contexts msg of
        Inl e \<Rightarrow> Inl e
      | Inr None \<Rightarrow> scan_messages ls relevant ring
      | Inr (Some c) \<Rightarrow>
         (if c = ''amdgpu'' then (case msg of
              JStr m \<Rightarrow> scan_messages ls (relevant @ [msg]) (case find_ring m of None \<Rightarrow> ring | Some r \<Rightarrow> Some r)
            | _ \<Rightarrow> Inl TypeError)
          else scan_messages ls (relevant @ [msg]) ring))"

definition gpu_journal :: "gpu_env \<Rightarrow> ((string, json) dict \<times> string option) result" where
  "gpu_journal env = bind_res (read_journal (ge_exec env) recent_kernel) (\<lambda>(journal, _). case journal of
       None \<Rightarrow> Inr ([], None)
     | Some ls \<Rightarrow> (if ls = [] then Inr ([], None)
         else bind_res (scan_messages ls [] None) (\<lambda>(relevant, ring). Inr ([(''journal'', JList relevant)], ring))))"

section \<open>umr\<close>

definition umr_entry :: "gpu_env \<Rightarrow> string list \<Rightarrow> string \<Rightarrow> (string, json) dict result" where
  "umr_entry env args key = (case ge_umr env args of
       Inl e \<Rightarrow> (if is_OSError e \<or> e = CalledProcessError then Inr [] else Inl e)
     | Inr (out, err) \<Rightarrow> Inr [(key, JObj ((''stdout'', JStr out) # (if err = [] then [] else [(''stderr'', JStr err)])))])"

definition gpu_umr :: "gpu_env \<Rightarrow> string option \<Rightarrow> string option \<Rightarrow> (string, json) dict result" where
  "gpu_umr env pci ring = (case (pci, ring) of
       (Some p, Some r) \<Rightarrow>
         bind_res (umr_entry env [''--by-pci'', p, ''-O'', ''bits,halt_waves'', ''-go'', ''0'', ''-wa'', r, ''-go'', ''1''] ''wave'') (\<lambda>wave.
         bind_res (umr_entry env [''--by-pci'', p, ''-RS'', ''gfx_0.0.0''] ''ring'') (\<lambda>rng.
         Inr (if wave @ rng = [] then [] else [(''umr'', JObj (wave @ rng))])))
     | _ \<Rightarrow> Inr [])"

section \<open>The device core dump\<close>

text \<open>
  The loop over the dumps: the data of the last one whose device the reset concerns, and the path
  that is cleared at the end, which is that of the last one the loop came through.
\<close>

fun scan_devcds :: "(string \<Rightarrow> string) \<Rightarrow> string \<Rightarrow> devcd list \<Rightarrow> string option \<Rightarrow> string option \<Rightarrow> (string option \<times> string option) result" where
  "scan_devcds abspath devpath [] devcd path = Inr (devcd, path)"
| "scan_devcds abspath devpath (d # ds) devcd path = (case dc_device d of
       Inl e \<Rightarrow> (if is_OSError e then scan_devcds abspath devpath ds devcd path else Inl e)
     | Inr dev \<Rightarrow>
        (if prefix (abspath dev) devpath
         then (case dc_data d of
             Inl e \<Rightarrow> (if is_OSError e then scan_devcds abspath devpath ds devcd path else Inl e)
           | Inr data \<Rightarrow> scan_devcds abspath devpath ds (Some data) (Some (dc_path d @ ''/data'')))
         else scan_devcds abspath devpath ds devcd (Some (dc_path d @ ''/data''))))"

definition gpu_devcd :: "gpu_env \<Rightarrow> (string, string) dict \<Rightarrow> (string option \<times> string option) result" where
  "gpu_devcd env vars = (case dict_get vars ''DEVPATH'' of
       None \<Rightarrow> Inr (None, None)
     | Some p \<Rightarrow> scan_devcds (ge_abspath env) (''/sys'' @ p) (ge_devcds env) None None)"

section \<open>The hook\<close>

definition gpu_log :: "gpu_env \<Rightarrow> (string, json) dict result" where
  "gpu_log env = (case scan_environ (ge_environ env) of (pid0, pci, vars) \<Rightarrow>
     bind_res (gpu_process env pid0) (\<lambda>(pid, who).
     bind_res (gpu_executable env pid) (\<lambda>exe.
     bind_res (gpu_package env ''mesa'' ''mesa'') (\<lambda>mesa.
     bind_res (gpu_package env ''vulkan-radeon'' ''radv'') (\<lambda>radv.
     bind_res (gpu_journal env) (\<lambda>(journal, ring).
     bind_res (gpu_umr env pci ring) (\<lambda>umr.
     Inr ([(''timestamp'', JFloat (ge_now env)), (''kernel'', JStr (ge_kernel env)),
        (''branch'', case ge_branch env of None \<Rightarrow> JNull | Some b \<Rightarrow> JStr b),
        (''env'', JObj (map (\<lambda>(k, v). (k, JStr v)) vars))]
        @ who @ exe @ gpu_comm vars @ mesa @ radv @ journal @ umr))))))))"

definition gpu_members :: "(json \<Rightarrow> string) \<Rightarrow> (string, json) dict \<Rightarrow> string option \<Rightarrow> (string, string) dict" where
  "gpu_members dumps log devcd = (''metadata.json'', dumps (JObj log))
     # (case devcd of None \<Rightarrow> [] | Some data \<Rightarrow> [(''devcd'', concat (read_blocks 4096 data))])"

text \<open>The members of the staged archive, the path that was cleared, and the world.\<close>

definition gpu_run :: "(json \<Rightarrow> string) \<Rightarrow> ((string, string) dict \<Rightarrow> string) \<Rightarrow> gpu_env \<Rightarrow> 'x world_scheme
    \<Rightarrow> ((string, string) dict \<times> string option) result \<times> 'x world_scheme" where
  "gpu_run dumps zip_of env w = (case gpu_log env of
       Inl e \<Rightarrow> (Inl e, w)
     | Inr log \<Rightarrow> (case gpu_devcd env (snd (snd (scan_environ (ge_environ env)))) of
         Inl e \<Rightarrow> (Inl e, w)
       | Inr (devcd, path) \<Rightarrow>
          (let members = gpu_members dumps log devcd in
           case with_staging ''gpu'' (ge_rnd env) (show_int (ge_now env) @ ''.zip'') (ge_chown env)
               (Inr (), \<lparr>lf_text = zip_of members, lf_mtime = ge_now env div 1000000, lf_readable = True, lf_stat = True\<rparr>) w of
             (Inl e, w1) \<Rightarrow> (Inl e, w1)
           | (Inr _, w1) \<Rightarrow> (case path of
               None \<Rightarrow> (Inr (members, None), w1)
             | Some p \<Rightarrow> (case ge_write env p of Inl e \<Rightarrow> (Inl e, w1) | Inr _ \<Rightarrow> (Inr (members, Some p), w1))))))"

section \<open>Properties\<close>

lemma bind_res_Inr [simp]: "bind_res r f = Inr b \<longleftrightarrow> (\<exists>a. r = Inr a \<and> f a = Inr b)"
  by (simp add: bind_res_def split: sum.split)

lemma dict_get_app: "dict_get (a @ b) k = (case dict_get a k of None \<Rightarrow> dict_get b k | Some v \<Rightarrow> Some v)"
  by (simp add: dict_get_def map_add_def split: option.splits)

lemma appid_entry_get: "dict_get (appid_entry a) k = (if k = ''appid'' then map_option JInt a else None)"
  by (cases a) (auto simp: appid_entry_def)

lemma scan_devcds_unrelated:
  assumes "list_all (\<lambda>d. case dc_device d of Inl e \<Rightarrow> is_OSError e | Inr dev \<Rightarrow> \<not> prefix (abspath dev) devpath) ds"
    and "dc_device d = Inr dev" and "\<not> prefix (abspath dev) devpath"
  shows "scan_devcds abspath devpath (ds @ [d]) devcd path = Inr (devcd, Some (dc_path d @ ''/data''))"
  using assms by (induction ds arbitrary: path) (auto split: sum.splits)

text \<open>When none of the device core dumps belongs to the device of the reset, none is taken into the archive, but the last one looked at is cleared all the same.\<close>

theorem unrelated_dump_is_cleared:
  assumes "gpu_run dumps zip_of env w = (Inr (members, path), w')"
    and "dict_get (snd (snd (scan_environ (ge_environ env)))) ''DEVPATH'' = Some p" and "ge_devcds env = ds @ [d]"
    and "list_all (\<lambda>d. case dc_device d of Inl e \<Rightarrow> is_OSError e | Inr dev \<Rightarrow> \<not> prefix (ge_abspath env dev) (''/sys'' @ p)) (ds @ [d])"
    and "dc_device d = Inr dev"
  shows "dict_get members ''devcd'' = None \<and> path = Some (dc_path d @ ''/data'')"
proof -
  have "gpu_devcd env (snd (snd (scan_environ (ge_environ env)))) = Inr (None, Some (dc_path d @ ''/data''))"
    using scan_devcds_unrelated [of "ge_abspath env" "''/sys'' @ p" ds d dev None None] assms(2-5) by (simp add: gpu_devcd_def)
  then show ?thesis
    using assms(1) by (auto simp: gpu_run_def gpu_members_def Let_def split: sum.splits prod.splits)
qed

lemma kernel_lines_dropped:
  "list_all (\<lambda>d. dict_has d ''__CURSOR'' \<and> dict_get d ''_SYSTEMD_UNIT'' = None) lines \<Longrightarrow>
     \<exists>c. journal_lines recent_kernel (map (Inr \<circ> JObj) lines) [] cur = Inr ([], c)"
  by (induction lines arbitrary: cur) (auto simp: dict_has_def journal_wanted_def recent_kernel_def obj_get_def dict_getd_def)

text \<open>Entries of the kernel have no unit, so the journal reader drops them all: whatever the kernel logged, the report has neither a kernel log nor the state of the wave fronts and the ring, which is only asked for when the log names a ring.\<close>

theorem gpu_state_is_never_collected:
  assumes "gpu_log env = Inr log" and "ge_exec env (journal_cmd recent_kernel) = Inr (map (Inr \<circ> JObj) lines)"
    and "list_all (\<lambda>d. dict_has d ''__CURSOR'' \<and> dict_get d ''_SYSTEMD_UNIT'' = None) lines"
  shows "dict_get log ''journal'' = None \<and> dict_get log ''umr'' = None"
proof -
  obtain c where "journal_lines recent_kernel (map (Inr \<circ> JObj) lines) [] JNull = Inr ([], c)"
    using kernel_lines_dropped [OF assms(3)] by blast
  then have j: "gpu_journal env = Inr ([], None)"
    by (simp add: gpu_journal_def read_journal_def assms(2) bind_res_def)
  have u: "gpu_umr env pci None = Inr []" for pci by (simp add: gpu_umr_def split: option.split)
  have who: "dict_get a k = None" if "gpu_process env pid0 = Inr (pid, a)" "k \<in> {''journal'', ''umr''}" for a pid0 pid k
    using that by (auto simp: gpu_process_def appid_entry_get split: if_splits)
  have exe: "dict_get a k = None" if "gpu_executable env pid = Inr a" "k \<in> {''journal'', ''umr''}" for a pid k
    using that by (auto simp: gpu_executable_def split: sum.splits if_splits)
  have pkg: "dict_get a k = None" if "gpu_package env n key = Inr a" "k \<noteq> key" for a n key k
    using that by (auto simp: gpu_package_def split: sum.splits if_splits list.splits)
  have comm: "dict_get (gpu_comm vars) k = None" if "k \<in> {''journal'', ''umr''}" for vars k
    using that by (auto simp: gpu_comm_def split: option.splits)
  have "dict_get log k = None" if k: "k \<in> {''journal'', ''umr''}" for k
    using assms(1) k who [OF _ k] exe [OF _ k] comm [OF k] pkg [where key = "''mesa''" and k = k] pkg [where key = "''radv''" and k = k]
    by (auto simp: gpu_log_def j u dict_get_app split: prod.splits option.splits)
  then show ?thesis by simp
qed

text \<open>A reset in a process whose game is known is reported as that game's: the helper reads the hook's archive as an event with the game's number, its message, and the time of the reset.\<close>

theorem gpu_reset_names_its_game:
  assumes "gpu_log env = Inr log" and "scan_environ (ge_environ env) = (Some p, pci, vars)" and "p \<noteq> 0"
    and "ge_appid env p = Inr (Some n)" and "le_loads le (dumps (JObj log)) = Inr (JObj log)"
  shows "\<exists>ev. gpu_prepare le (Inr url) fname (Inr (gpu_members dumps log devcd)) (Inr bytes) = Send ev
     \<and> ev_appid ev = JInt n \<and> ev_timestamp ev = JFloat (ge_now env)
     \<and> ev_message ev = JStr (''GPU reset ('' @ se_str (le_sentry le) (JInt n) @ '')'')"
proof -
  obtain rest where log: "log = [(''timestamp'', JFloat (ge_now env)), (''kernel'', JStr (ge_kernel env)),
        (''branch'', case ge_branch env of None \<Rightarrow> JNull | Some b \<Rightarrow> JStr b),
        (''env'', JObj (map (\<lambda>(k, v). (k, JStr v)) vars)), (''pid'', JInt p), (''appid'', JInt n)] @ rest"
    using assms(1-4) by (auto simp: gpu_log_def gpu_process_def appid_entry_def split: prod.splits)
  have m: "zip_read (Inr (gpu_members dumps log devcd)) ''metadata.json'' = Inr (dumps (JObj log))"
    by (simp add: zip_read_def gpu_members_def)
  have t: "dict_get log ''timestamp'' = Some (JFloat (ge_now env))" "dict_get log ''appid'' = Some (JInt n)"
    by (simp_all add: log)
  show ?thesis
    unfolding gpu_prepare_def
    by (simp add: m assms(5) t Let_def json_float_def json_int_def gpu_message_def)
qed

section \<open>Witnesses\<close>

definition reset_env :: gpu_env where
  "reset_env = \<lparr>ge_now = 9, ge_kernel = ''6.1'', ge_branch = None,
     ge_environ = [(''PID'', ''42''), (''NAME'', ''game''), (''DEVPATH'', ''/devices/pci/1/drm''), (''ID_PATH'', ''pci-0:1'')],
     ge_appid = (\<lambda>_. Inr (Some 570)), ge_comms = [], ge_readlink = (\<lambda>_. Inr ''/usr/bin/game''),
     ge_pacman = (\<lambda>p. if p = ''mesa'' then Inr ''mesa 23.1'' else Inl CalledProcessError),
     ge_exec = (\<lambda>_. Inr [Inr (JObj [(''__CURSOR'', JStr ''c''), (''MESSAGE'', JStr ''amdgpu: *ERROR* ring gfx timeout'')])]),
     ge_umr = (\<lambda>_. Inl FileNotFoundError),
     ge_devcds = [\<lparr>dc_path = ''/sys/class/devcoredump/devcd1'', dc_device = Inr ''/sys/devices/pci/2'', dc_data = Inr ''other''\<rparr>],
     ge_abspath = (\<lambda>p. p), ge_write = (\<lambda>_. Inr ()), ge_chown = Inr (), ge_rnd = ''r''\<rparr>"

lemma ring_in_message: "find_ring ''amdgpu: *ERROR* ring gfx timeout'' = Some ''gfx''"
  by code_simp

lemma reset_scan: "scan_environ (ge_environ reset_env) = (Some 42, Some ''0:1'', ge_environ reset_env)"
  by code_simp

lemma reset_log: "case gpu_log reset_env of Inl _ \<Rightarrow> False | Inr _ \<Rightarrow> True"
  by code_simp

lemma reset_run: "case fst (gpu_run (\<lambda>_. ''{}'') (\<lambda>_. ''PK'') reset_env gpu_world) of Inl _ \<Rightarrow> False | Inr _ \<Rightarrow> True"
  by code_simp

theorem unrelated_dump_is_cleared_witness:
  "\<exists>members w'. gpu_run (\<lambda>_. ''{}'') (\<lambda>_. ''PK'') reset_env gpu_world
     = (Inr (members, Some ''/sys/class/devcoredump/devcd1/data''), w') \<and> dict_get members ''devcd'' = None"
proof -
  obtain members path w' where run: "gpu_run (\<lambda>_. ''{}'') (\<lambda>_. ''PK'') reset_env gpu_world = (Inr (members, path), w')"
    using reset_run by (cases "gpu_run (\<lambda>_. ''{}'') (\<lambda>_. ''PK'') reset_env gpu_world") (auto split: sum.splits)
  have "dict_get (snd (snd (scan_environ (ge_environ reset_env)))) ''DEVPATH'' = Some ''/devices/pci/1/drm''"
    by (simp add: reset_scan, simp add: reset_env_def)
  from unrelated_dump_is_cleared [OF run this, of "[]"
      "\<lparr>dc_path = ''/sys/class/devcoredump/devcd1'', dc_device = Inr ''/sys/devices/pci/2'', dc_data = Inr ''other''\<rparr>" "''/sys/devices/pci/2''"]
  show ?thesis using run by (simp add: reset_env_def)
qed

theorem gpu_state_is_never_collected_witness:
  "\<exists>log. gpu_log reset_env = Inr log \<and> dict_get log ''journal'' = None \<and> dict_get log ''umr'' = None"
proof -
  obtain log where log: "gpu_log reset_env = Inr log"
    using reset_log by (auto split: sum.splits)
  have "ge_exec reset_env (journal_cmd recent_kernel) = Inr (map (Inr \<circ> JObj)
      [[(''__CURSOR'', JStr ''c''), (''MESSAGE'', JStr ''amdgpu: *ERROR* ring gfx timeout'')]])"
    by (simp add: reset_env_def)
  from gpu_state_is_never_collected [OF log this] log show ?thesis by (simp add: dict_has_def)
qed

theorem gpu_reset_names_its_game_witness:
  "\<exists>log ev. gpu_log reset_env = Inr log
     \<and> gpu_prepare (sample_logs\<lparr>le_loads := (\<lambda>_. Inr (JObj log))\<rparr>) (Inr ''https://k@h/5'') ''/var/9.zip''
         (Inr (gpu_members (\<lambda>_. ''{}'') log None)) (Inr ''PK'') = Send ev
     \<and> ev_appid ev = JInt 570"
proof -
  obtain log where log: "gpu_log reset_env = Inr log"
    using reset_log by (auto split: sum.splits)
  have a: "ge_appid reset_env 42 = Inr (Some 570)" by (simp add: reset_env_def)
  from gpu_reset_names_its_game [OF log reset_scan _ a, of "sample_logs\<lparr>le_loads := (\<lambda>_. Inr (JObj log))\<rparr>" "\<lambda>_. ''{}''"
      "''https://k@h/5''" "''/var/9.zip''" None "''PK''"]
  show ?thesis using log by auto
qed

end
