(* ===== verification/Delivery.thy ===== *)
theory Delivery imports Kdump Trace Runner_All begin

text \<open>
  The runner (\<^verbatim>\<open>runner.py\<close>) and the submissions (\<^verbatim>\<open>helpers/*.py\<close>, \<^verbatim>\<open>aggregators/sentry.py\<close>) together: the runner files
  a log as uploaded on the word of the helper alone. The contract that makes this right is a locale,
  which the submitting helpers satisfy, and under which a whole trigger only ever files as uploaded
  what the server has accepted.
\<close>

section \<open>Helpers that submit their pending logs\<close>

text \<open>\<^verbatim>\<open>open(fname, 'rb').read()\<close> of a pending log.\<close>

definition pending_bytes :: "string \<Rightarrow> string \<Rightarrow> 'x world_scheme \<Rightarrow> string result" where
  "pending_bytes c log w = (case look (pend w) c log of
       None \<Rightarrow> Inl FileNotFoundError
     | Some f \<Rightarrow> (if lf_readable f then Inr (lf_text f) else Inl PermissionError))"

text \<open>
  A helper as the runner sees it: it collects as the base class does, and submits the log at
  \<^verbatim>\<open>{sls.pending}/{cls.name}/{log}\<close>.
\<close>

definition log_ops :: "helper \<Rightarrow> string \<Rightarrow> (string \<Rightarrow> string result \<Rightarrow> hresult result \<times> request list) \<Rightarrow> 'x world_scheme helper_ops" where
  "log_ops h dir sub = \<lparr>op_helper = h, op_collect = base_collect h,
     op_submit = (\<lambda>log w. (fst (sub (dir @ ''/'' @ h_name h @ ''/'' @ log) (pending_bytes (h_name h) log w)), w)),
     op_startup = (\<lambda>w. (Inr (), w))\<rparr>"

text \<open>\<open>unzip\<close> finds the members of an archive.\<close>

definition members_of :: "(string \<Rightarrow> zip) \<Rightarrow> string result \<Rightarrow> zip" where
  "members_of unzip file = (case file of Inl e \<Rightarrow> Inl e | Inr bytes \<Rightarrow> unzip bytes)"

definition gpu_log_ops :: "logs_env \<Rightarrow> http \<Rightarrow> (string \<Rightarrow> zip) \<Rightarrow> string result \<Rightarrow> string \<Rightarrow> 'x world_scheme helper_ops" where
  "gpu_log_ops le http unzip dsn dir = log_ops \<lparr>h_name = ''gpu'', h_exts = [''.zip'']\<rparr> dir
     (\<lambda>fname file. gpu_submit le http dsn fname (members_of unzip file) file)"

definition devcoredump_log_ops :: "logs_env \<Rightarrow> http \<Rightarrow> (string \<Rightarrow> zip) \<Rightarrow> string result \<Rightarrow> string \<Rightarrow> 'x world_scheme helper_ops" where
  "devcoredump_log_ops le http unzip dsn dir = log_ops \<lparr>h_name = ''devcoredump'', h_exts = [''.zip'']\<rparr> dir
     (\<lambda>fname file. devcoredump_submit le http dsn fname (members_of unzip file) file)"

definition earlyoom_log_ops :: "logs_env \<Rightarrow> http \<Rightarrow> string result \<Rightarrow> string \<Rightarrow> 'x world_scheme helper_ops" where
  "earlyoom_log_ops le http dsn dir = log_ops \<lparr>h_name = ''earlyoom'', h_exts = [''.json'']\<rparr> dir (earlyoom_submit le http dsn)"

definition sysreport_log_ops :: "logs_env \<Rightarrow> http \<Rightarrow> string result \<Rightarrow> string \<Rightarrow> 'x world_scheme helper_ops" where
  "sysreport_log_ops le http dsn dir = log_ops \<lparr>h_name = ''sysreport'', h_exts = [''.zip'']\<rparr> dir (sysreport_submit le http dsn)"

definition kdump_log_ops :: "kdump_env \<Rightarrow> http \<Rightarrow> (string \<Rightarrow> zip) \<Rightarrow> string result \<Rightarrow> string \<Rightarrow> 'x world_scheme helper_ops" where
  "kdump_log_ops ke http unzip dsn dir = log_ops \<lparr>h_name = ''kdump'', h_exts = [''.zip'']\<rparr> dir
     (\<lambda>fname file. kdump_submit ke http dsn fname (members_of unzip file) file)"

definition trace_log_ops :: "logs_env \<Rightarrow> http \<Rightarrow> string result \<Rightarrow> string \<Rightarrow> 'x world_scheme helper_ops" where
  "trace_log_ops le http dsn dir = log_ops \<lparr>h_name = ''trace'', h_exts = [''.json'']\<rparr> dir (\<lambda>fname. trace_submit le http dsn)"

section \<open>A submission that succeeds has delivered its log\<close>

text \<open>The server has accepted an envelope with these bytes.\<close>

definition accepted :: "http \<Rightarrow> string \<Rightarrow> bool" where
  "accepted http bytes = (\<exists>url e i. http (SendEnvelope url e) = Inr 200 \<and> (i, bytes) \<in> set (snd e))"

text \<open>What is sent has the whole file attached, and nothing is done without sending.\<close>

definition attaches :: "string result \<Rightarrow> prepared \<Rightarrow> bool" where
  "attaches file p = (case p of Done r \<Rightarrow> r \<noteq> Inr OK
     | Send ev \<Rightarrow> (\<exists>bytes a. file = Inr bytes \<and> a \<in> set (ev_attachments ev) \<and> at_data a = bytes))"

lemma finish_delivers:
  assumes "fst (finish env http p) = Inr OK" and "attaches file p"
  shows "\<exists>bytes. file = Inr bytes \<and> accepted http bytes"
proof (cases p)
  case (Done r)
  with assms show ?thesis by (simp add: finish_def attaches_def)
next
  case (Send ev)
  with assms(2) obtain a where b: "file = Inr (at_data a)" "a \<in> set (ev_attachments ev)"
    by (auto simp: attaches_def)
  have s: "send env http ev = (Inr OK, snd (send env http ev))"
    using assms(1) Send by (simp add: finish_def prod_eq_iff)
  from send_ok_attached [OF s b(2)] b show ?thesis by (auto simp: accepted_def)
qed

lemma gpu_attaches: "attaches file (gpu_prepare le dsn fname z file)"
  by (auto simp: attaches_def gpu_prepare_def zip_attachment_def Let_def split: sum.split json.split)

lemma devcoredump_attaches: "attaches file (devcoredump_prepare le dsn fname z file)"
  by (auto simp: attaches_def devcoredump_prepare_def zip_attachment_def Let_def split: sum.split exn.split)

lemma earlyoom_attaches: "attaches file (earlyoom_prepare le dsn fname file)"
  by (auto simp: attaches_def earlyoom_prepare_def json_attachment_def Let_def split: sum.split json.split option.split)

lemma sysreport_attaches: "attaches file (sysreport_prepare le dsn fname file)"
  by (auto simp: attaches_def sysreport_prepare_def zip_attachment_def Let_def split: sum.split)

lemma kdump_attaches: "attaches file (kdump_prepare ke dsn fname z file)"
  by (auto simp: attaches_def kdump_prepare_def zip_attachment_def add_attachment_def Let_def split: sum.split)

lemma trace_attaches: "attaches file (trace_prepare le dsn file)"
  by (auto simp: attaches_def trace_prepare_def json_attachment_def Let_def split: sum.split json.split)

section \<open>The contract\<close>

text \<open>Everything uploaded in \<open>w\<close> was so in \<open>w0\<close> already, or was accepted.\<close>

definition vouched :: "http \<Rightarrow> 'x world_scheme \<Rightarrow> 'x world_scheme \<Rightarrow> bool" where
  "vouched http w0 w = (\<forall>c log f. look (upl w) c log = Some f \<longrightarrow>
     look (upl w0) c log = Some f \<or> accepted http (lf_text f))"


lemma vouchedD: "vouched http w0 w \<Longrightarrow> look (upl w) c log = Some f \<Longrightarrow> look (upl w0) c log = Some f \<or> accepted http (lf_text f)"
  by (simp add: vouched_def)

lemma vouchedI:
  "(\<And>c log f. look (upl w) c log = Some f \<Longrightarrow> look (upl w0) c log = Some f \<or> accepted http (lf_text f)) \<Longrightarrow> vouched http w0 w"
  by (simp add: vouched_def)

lemma acquire_lock_world: "acquire_lock h (w, a) = (r, w', a') \<Longrightarrow> (\<exists>fs. w' = w\<lparr>lockfs := fs\<rparr>) \<and> a' = a"
  using lock_none [of "lockfs w" "lock_path h" "my_pid w"]
  by (auto simp: acquire_lock_def split: if_splits sum.splits option.splits prod.splits intro: exI [of _ "lockfs w"])

lemma release_lock_world: "release_lock h fd (w, a) = (r, w', a') \<Longrightarrow> (\<exists>fs. w' = w\<lparr>lockfs := fs\<rparr>) \<and> a' = a"
  by (auto simp: release_lock_def split: prod.splits)

text \<open>A block under a helper's lock keeps what its body keeps, if the lock files do not matter to it.\<close>

lemma with_lock_keeps:
  assumes "with_block (acquire_lock h) (release_lock h) body (w, a) = (r, w', a')" and "P w"
    and "\<And>w fs. P (w\<lparr>lockfs := fs\<rparr>) = P w" and "\<And>w1 r2 w2 a2. body (w1, a) = (r2, w2, a2) \<Longrightarrow> P w1 \<Longrightarrow> P w2"
  shows "P w'"
proof -
  obtain ra w1 a1 where acq: "acquire_lock h (w, a) = (ra, w1, a1)" by (metis prod.collapse)
  from acquire_lock_world [OF this] assms(2,3) have w1: "P w1" "a1 = a" by auto
  show ?thesis
  proof (cases ra)
    case (Inl e)
    with acq assms(1) w1 show ?thesis by (simp add: with_block_def)
  next
    case (Inr fd)
    obtain rb w2 a2 where b: "body (w1, a) = (rb, w2, a2)" by (metis prod.collapse)
    obtain rc w3 a3 where c: "release_lock h fd (w2, a2) = (rc, w3, a3)" by (metis prod.collapse)
    from release_lock_world [OF c] assms(3) assms(4) [OF b w1(1)] have "P w3" by auto
    with acq Inr b c w1(2) assms(1) show ?thesis by (auto simp: with_block_def split: sum.splits)
  qed
qed

locale honest_helper =
  fixes http :: http and ops :: "'x world_scheme helper_ops"
  assumes tame: "tame ops"
    and ok_accepted: "fst (op_submit ops log w) = Inr OK \<Longrightarrow>
       \<exists>f. look (pend w) (h_name (op_helper ops)) log = Some f \<and> accepted http (lf_text f)"
    and collect_same: "same_logs w (snd (op_collect ops w))"
begin

lemma submit_one_vouched:
  assumes "submit_one ops log w = (g, res, w')" and "vouched http w0 w"
  shows "vouched http w0 w'"
proof -
  obtain r w1 where s: "op_submit ops log w = (r, w1)" by fastforce
  then have t: "pend w1 = pend w" "upl w1 = upl w"
    using tame [unfolded tame_def, rule_format, of log w] by auto
  have v: "vouched http w0 w1" using assms(2) t(2) by (simp add: vouched_def)
  have up: "vouched http w0 w2" if m: "move_uploaded (h_name (op_helper ops)) log w1 = (m, w2)" and k: "r = Inr OK" for m w2
  proof -
    obtain f where f: "look (pend w) (h_name (op_helper ops)) log = Some f" "accepted http (lf_text f)"
      using ok_accepted [of log w] s k by auto
    with m t v show ?thesis by (auto simp: move_uploaded_def intro!: vouchedI dest: vouchedD split: if_splits)
  qed
  have fa: "vouched http w0 w2" if m: "move_failed (h_name (op_helper ops)) log w1 = (m, w2)" for m w2
    using m v by (auto simp: move_failed_def intro!: vouchedI dest: vouchedD split: option.splits if_splits)
  show ?thesis
  proof (cases r)
    case (Inl e)
    with assms(1) s v show ?thesis by (auto simp: submit_one_def split: if_splits)
  next
    case (Inr h)
    with assms(1) s v up fa show ?thesis
      by (cases h) (auto simp: submit_one_def split: sum.splits prod.splits)
  qed
qed

lemma submit_logs_vouched:
  "submit_logs ops keep logs (w, acc) = (r, w', acc') \<Longrightarrow> vouched http w0 w \<Longrightarrow> vouched http w0 w'"
proof (induction logs arbitrary: w acc)
  case Nil
  then show ?case by simp
next
  case (Cons log logs)
  obtain g res w1 where o: "submit_one ops log w = (g, res, w1)" by (metis prod.collapse)
  with submit_one_vouched Cons.prems(2) have "vouched http w0 w1" by blast
  with Cons o show ?case
    by (auto simp: submit_logs_Cons Let_def split: if_splits sum.splits option.splits)
qed

lemma submit_category_vouched:
  assumes "submit_category ops keep logs w = (r, w')" and "vouched http w0 w"
  shows "vouched http w0 w'"
proof -
  obtain r1 a1 where "with_block (acquire_lock (op_helper ops)) (release_lock (op_helper ops))
      (submit_logs ops keep logs) (w, []) = (r1, w', a1)"
    using assms(1) by (auto simp: submit_category_def split: prod.splits sum.splits if_splits)
  then show ?thesis
  proof (rule with_lock_keeps [where P = "vouched http w0", OF _ assms(2)])
    show "vouched http w0 (v\<lparr>lockfs := fs\<rparr>) = vouched http w0 v" for v fs by (simp add: vouched_def)
  qed (rule submit_logs_vouched)
qed

lemma collect_category_same:
  assumes "collect_category ops w = (r, w')"
  shows "same_logs w w'"
proof -
  obtain r1 where "with_block (acquire_lock (op_helper ops)) (release_lock (op_helper ops))
      (collect_body ops) (w, ()) = (r1, w', ())"
    using assms by (auto simp: collect_category_def split: prod.splits sum.splits if_splits)
  then show ?thesis
  proof (rule with_lock_keeps [where P = "same_logs w"])
    fix w1 r2 w2 a2
    assume "collect_body ops (w1, ()) = (r2, w2, a2)" "same_logs w w1"
    then show "same_logs w w2" using collect_same [of w1] by (simp add: collect_body_def same_logs_def split: prod.splits)
  qed (simp_all add: same_logs_def)
qed

end

section \<open>All helpers\<close>

lemma run_tasks_keeps:
  assumes "run_tasks f as w = (rs, w')" and "P w" and "\<And>a w r w'. a \<in> set as \<Longrightarrow> f a w = (r, w') \<Longrightarrow> P w \<Longrightarrow> P w'"
  shows "P w'"
  using assms by (induction as arbitrary: w rs) (fastforce split: prod.splits)+

lemma submit_fn_vouched:
  assumes "honest_helper http (fst task)" and "submit_fn task w = (r, w')" and "vouched http w0 w"
  shows "vouched http w0 w'"
proof -
  obtain ops names where t: "task = (ops, names)" by fastforce
  with assms(2) obtain r1 where "submit_category ops (\<lambda>w log. listed (pend w) (op_helper ops) log) names w = (r1, w')"
    by (auto simp: submit_fn_def split: prod.splits)
  from honest_helper.submit_category_vouched [OF _ this assms(3)] assms(1) t show ?thesis by simp
qed

definition honest_registry :: "http \<Rightarrow> 'x world_scheme registry \<Rightarrow> bool" where
  "honest_registry http reg = (\<forall>ops. Some ops \<in> snd ` set reg \<longrightarrow> honest_helper http ops)"

lemma selected_honest:
  "honest_registry http reg \<Longrightarrow> select_helpers g w reg = (sel, err) \<Longrightarrow> ops \<in> set sel \<Longrightarrow> honest_helper http ops"
  using select_helpers_in [of ops g w reg] by (force simp: honest_registry_def)

lemma submit_vouched:
  assumes "honest_registry http reg" and "submit probe arrange reg w = (r, w')" and "vouched http w0 w"
  shows "vouched http w0 w'"
proof (cases "w' = w")
  case True
  with assms(3) show ?thesis by simp
next
  case False
  obtain sel err where sel: "select_helpers submit_enabled w reg = (sel, err)" by fastforce
  with assms(2) False obtain rs where r: "run_tasks submit_fn (submit_tasks w sel) w = (rs, w')"
    by (auto simp: submit_def split: sum.splits if_splits prod.splits option.splits)
  have h: "honest_helper http (fst t)" if "t \<in> set (submit_tasks w sel)" for t
    using that selected_honest [OF assms(1) sel] by (auto simp: submit_tasks_def set_map_filter)
  from run_tasks_keeps [OF r, of "vouched http w0"] assms(3) h submit_fn_vouched show ?thesis by blast
qed

lemma collect_same_logs:
  assumes "honest_registry http reg" and "collect arrange reg w = (r, w')"
  shows "same_logs w w'"
proof (cases "w' = w")
  case True
  then show ?thesis by (simp add: same_logs_def)
next
  case False
  obtain sel err where sel: "select_helpers collect_enabled w reg = (sel, err)" by fastforce
  with assms(2) False obtain rs where r: "run_tasks collect_fn sel w = (rs, w')"
    by (auto simp: collect_def split: sum.splits if_splits prod.splits option.splits)
  have "same_logs w w2" if o: "ops \<in> set sel" and c: "collect_fn ops w1 = (r1, w2)" and v: "same_logs w w1" for ops w1 r1 w2
  proof -
    obtain r2 where "collect_category ops w1 = (r2, w2)"
      using c by (auto simp: collect_fn_def split: prod.splits)
    from honest_helper.collect_category_same [OF selected_honest [OF assms(1) sel o] this] v
    show ?thesis by (simp add: same_logs_def)
  qed
  with run_tasks_keeps [OF r, of "same_logs w"] show ?thesis by (simp add: same_logs_def)
qed

lemma collect_vouched:
  "honest_registry http reg \<Longrightarrow> collect arrange reg w = (r, w') \<Longrightarrow> vouched http w0 w \<Longrightarrow> vouched http w0 w'"
  by (drule (1) collect_same_logs) (simp add: same_logs_def vouched_def)

lemma collect_kept:
  "honest_registry http reg \<Longrightarrow> collect arrange reg w = (r, w') \<Longrightarrow> kept c log f w \<Longrightarrow> kept c log f w' \<and> pend w' = pend w"
  by (drule (1) collect_same_logs) (simp add: same_logs_def kept_def)

lemma honest_tame: "honest_registry http reg \<Longrightarrow> \<forall>(cat, m) \<in> set reg. case m of None \<Rightarrow> True | Some ops \<Rightarrow> tame ops"
  by (force simp: honest_registry_def dest: honest_helper.tame split: option.split)

lemma trigger_vouched:
  assumes "honest_registry http reg" and "trigger probe arrc arrs reg w = (r, w')" and "vouched http w0 w"
  shows "vouched http w0 w'"
  using assms(2,3) by (auto simp: trigger_def split: sum.splits prod.splits if_splits
      dest!: collect_vouched [OF assms(1)] submit_vouched [OF assms(1)])

lemma trigger_kept:
  assumes h: "honest_registry http reg" and "wf_tree (pend w)"
    and "trigger probe arrc arrs reg w = (r, w')" and "kept c log f w"
  shows "kept c log f w'"
proof -
  obtain rc w1 where co: "collect arrc reg w = (rc, w1)" by fastforce
  from collect_kept [OF h co assms(4)] have k: "kept c log f w1" "wf_tree (pend w1)" using assms(2) by simp_all
  obtain rs w2 where su: "submit probe arrs reg w1 = (rs, w2)" by fastforce
  from submit_kept [OF honest_tame [OF h] k(2) su k(1)] have "kept c log f w2" .
  with assms(3,4) k(1) co su show ?thesis
    by (auto simp: trigger_def split: sum.splits if_splits)
qed

section \<open>The helpers keep the contract\<close>

lemma base_collect_same: "same_logs w (snd (base_collect h w))"
  by (auto simp: same_logs_def base_collect_def new_logs_def emit_def Let_def split: sum.split prod.split option.split)

lemma log_ops_honest:
  assumes "\<And>fname file. fst (sub fname file) = Inr OK \<Longrightarrow> \<exists>bytes. file = Inr bytes \<and> accepted http bytes"
  shows "honest_helper http (log_ops h dir sub)"
proof
  show "tame (log_ops h dir sub)" by (simp add: tame_def log_ops_def)
  show "same_logs w (snd (op_collect (log_ops h dir sub) w))" for w by (simp add: log_ops_def base_collect_same)
  fix log w assume "fst (op_submit (log_ops h dir sub) log w) = Inr OK"
  then have "fst (sub (dir @ ''/'' @ h_name h @ ''/'' @ log) (pending_bytes (h_name h) log w)) = Inr OK"
    by (simp add: log_ops_def)
  from assms [OF this] show "\<exists>f. look (pend w) (h_name (op_helper (log_ops h dir sub))) log = Some f \<and> accepted http (lf_text f)"
    by (auto simp: log_ops_def pending_bytes_def split: option.splits if_splits)
qed

interpretation gpu_delivery: honest_helper http "gpu_log_ops le http unzip dsn dir" for http le unzip dsn dir
  unfolding gpu_log_ops_def gpu_submit_def by (rule log_ops_honest, rule finish_delivers [OF _ gpu_attaches])

interpretation devcoredump_delivery: honest_helper http "devcoredump_log_ops le http unzip dsn dir" for http le unzip dsn dir
  unfolding devcoredump_log_ops_def devcoredump_submit_def by (rule log_ops_honest, rule finish_delivers [OF _ devcoredump_attaches])

interpretation earlyoom_delivery: honest_helper http "earlyoom_log_ops le http dsn dir" for http le dsn dir
  unfolding earlyoom_log_ops_def earlyoom_submit_def by (rule log_ops_honest, rule finish_delivers [OF _ earlyoom_attaches])

interpretation sysreport_delivery: honest_helper http "sysreport_log_ops le http dsn dir" for http le dsn dir
  unfolding sysreport_log_ops_def sysreport_submit_def by (rule log_ops_honest, rule finish_delivers [OF _ sysreport_attaches])

interpretation kdump_delivery: honest_helper http "kdump_log_ops ke http unzip dsn dir" for http ke unzip dsn dir
  unfolding kdump_log_ops_def kdump_submit_def by (rule log_ops_honest, rule finish_delivers [OF _ kdump_attaches])

interpretation trace_delivery: honest_helper http "trace_log_ops le http dsn dir" for http le dsn dir
  unfolding trace_log_ops_def trace_submit_def by (rule log_ops_honest, rule finish_delivers [OF _ trace_attaches])

text \<open>The daemon's registry of these helpers; any of the modules may fail to load.\<close>

definition delivery_registry :: "kdump_env \<Rightarrow> http \<Rightarrow> (string \<Rightarrow> zip) \<Rightarrow> string result \<Rightarrow> string \<Rightarrow> 'x world_scheme registry" where
  "delivery_registry ke http unzip dsn dir = (let le = ke_logs ke in
     [(''devcoredump'', Some (devcoredump_log_ops le http unzip dsn dir)), (''earlyoom'', Some (earlyoom_log_ops le http dsn dir)),
      (''gpu'', Some (gpu_log_ops le http unzip dsn dir)), (''kdump'', Some (kdump_log_ops ke http unzip dsn dir)),
      (''sysreport'', Some (sysreport_log_ops le http dsn dir)), (''trace'', Some (trace_log_ops le http dsn dir))])"

lemma delivery_honest: "set reg \<subseteq> set (delivery_registry ke http unzip dsn dir) \<union> range (\<lambda>c. (c, None)) \<Longrightarrow> honest_registry http reg"
  using devcoredump_delivery.honest_helper_axioms earlyoom_delivery.honest_helper_axioms gpu_delivery.honest_helper_axioms
    kdump_delivery.honest_helper_axioms sysreport_delivery.honest_helper_axioms trace_delivery.honest_helper_axioms
  by (fastforce simp: honest_registry_def delivery_registry_def Let_def)


section \<open>Witness\<close>

definition ready_world :: world where
  "ready_world = gpu_world\<lparr>pend := [(''sysreport'', [(''r.zip'', \<lparr>lf_text = ''PK'', lf_mtime = 5, lf_readable = True, lf_stat = True\<rparr>)])],
     upl := [(''sysreport'', [])], fail := [(''sysreport'', [])],
     conf := snd (sec_setitem (snd (sec_setitem run_cfg ''sls'' ''enable'' ''on'')) ''helpers.sysreport'' ''enable'' ''on'')\<rparr>"

definition ready_registry :: "world registry" where
  "ready_registry = [(''sysreport'', Some (sysreport_log_ops sample_logs (\<lambda>_. Inr 200) (Inr ''https://k@h/5'') ''/v'')), (''gone'', None)]"

lemma ready_trigger:
  "look (upl (snd (trigger (\<lambda>k. Some 204) (\<lambda>rs. rs) (\<lambda>rs. rs) ready_registry ready_world))) ''sysreport'' ''r.zip''
     = Some \<lparr>lf_text = ''PK'', lf_mtime = 5, lf_readable = True, lf_stat = True\<rparr>"
  by code_simp

definition sample_kdump :: kdump_env where
  "sample_kdump = \<lparr>ke_logs = sample_logs, ke_decode = Inr, ke_replace = id, ke_strptime = (\<lambda>_. Inr 0)\<rparr>"


end
