(* ===== verification/Sysreport.thy ===== *)
theory Sysreport imports Delivery Interfaces begin

text \<open>
  \<^verbatim>\<open>helpers/sysreport.py\<close> beyond the submission of a log (theory Submits): the report that a user sends over the bus, which is copied to the pending directory under a
  friendly name, submitted at once, and filed away whatever came of it.
\<close>

section \<open>Sending a report\<close>

definition id_alphabet :: string where
  "id_alphabet = ''34679ABEHJKLMNPSTUWXYZ''"

text \<open>\<open>letters\<close> is what \<^verbatim>\<open>random.choices\<close> returned: eight letters of the alphabet.\<close>

definition chosen :: "string \<Rightarrow> bool" where
  "chosen letters = (length letters = 8 \<and> set letters \<subseteq> set id_alphabet)"

definition make_id :: "string \<Rightarrow> string" where
  "make_id letters = take 4 letters @ ''-'' @ drop 4 letters"

text \<open>\<^verbatim>\<open>shutil.copyfile\<close> to a pending log; \<open>file\<close> is what reading the source gave.\<close>

definition copy_pending :: "logfile result \<Rightarrow> string \<Rightarrow> string \<Rightarrow> 'x world_scheme \<Rightarrow> unit result \<times> 'x world_scheme" where
  "copy_pending file c log w = (case file of
       Inl e \<Rightarrow> (Inl e, w)
     | Inr f \<Rightarrow> (if \<not> dict_has (pend w) c then (Inl FileNotFoundError, w)
         else (Inr (), w\<lparr>pend := put_log c log f (pend w)\<rparr>)))"

definition file_away :: "string \<Rightarrow> string \<Rightarrow> 'x world_scheme \<Rightarrow> unit result \<times> 'x world_scheme" where
  "file_away c log w = (case move_failed c log w of
       (Inl e, w') \<Rightarrow> (if is_OSError e then Inr () else Inl e, w')
     | (Inr _, w') \<Rightarrow> (Inr (), w'))"

definition report_result :: "hresult result option \<Rightarrow> (string + hresult) result" where
  "report_result res = (case res of
       None \<Rightarrow> Inr (Inr PERMANENT_ERROR) | Some (Inl e) \<Rightarrow> Inl e | Some (Inr r) \<Rightarrow> Inr (Inr r))"

definition send_report :: "'x world_scheme helper_ops \<Rightarrow> string \<Rightarrow> string \<Rightarrow> logfile result \<Rightarrow> 'x world_scheme
    \<Rightarrow> (string + hresult) result \<times> 'x world_scheme" where
  "send_report ops letters path file w =
     (if \<not> suffix ''.zip'' path then (Inr (Inr PERMANENT_ERROR), w)
      else (let i = make_id letters; c = h_name (op_helper ops); name = i @ ''.zip'' in
        (case copy_pending file c name w of
           (Inl e, w1) \<Rightarrow> (Inl e, w1)
         | (Inr _, w1) \<Rightarrow> (case submit_category ops (\<lambda>_ _. True) [name] w1 of
             (Inl e, w2) \<Rightarrow> (Inl e, w2)
           | (Inr table, w2) \<Rightarrow>
              (if dict_get table name = Some (Inr OK) then (Inr (Inl i), w2)
               else (case file_away c name w2 of
                   (Inl e, w3) \<Rightarrow> (Inl e, w3)
                 | (Inr _, w3) \<Rightarrow> (report_result (dict_get table name), w3)))))))"

section \<open>On the bus\<close>

definition sysreport_iface :: string where
  "sysreport_iface = DBUS_NAME @ ''.Sysreport''"

text \<open>\<^verbatim>\<open>_setup\<close>: whether the helper is set up, and its further interfaces.\<close>

definition sysreport_setup :: "bool \<Rightarrow> string list \<Rightarrow> bool \<times> string list" where
  "sysreport_setup base_ok extra = (if \<not> base_ok then (False, extra) else (True, extra @ [sysreport_iface]))"

text \<open>\<open>describe\<close> is the text made of an exception's fields.\<close>

definition SendReport :: "(exn \<Rightarrow> string) \<Rightarrow> 'x world_scheme helper_ops \<Rightarrow> string \<Rightarrow> string \<Rightarrow> logfile result
    \<Rightarrow> 'x world_scheme \<Rightarrow> (raised + bvalue) \<times> 'x world_scheme" where
  "SendReport describe ops letters path file w = (case send_report ops letters path file w of
       (Inl e, w') \<Rightarrow>
         (if e = FileNotFoundError then (Inl (BusError ''org.freedesktop.DBus.Error.FileNotFound'' (describe e)), w')
          else if is_Exception e then (Inl (BusError ''org.freedesktop.DBus.Error.Failed'' (describe e)), w')
          else (Inl (Other e), w'))
     | (Inr (Inl i), w') \<Rightarrow> (Inr (BStr i), w')
     | (Inr (Inr r), w') \<Rightarrow> (answer (\<lambda>_. BUnit) (raise_dbus_error r), w'))"

section \<open>Properties\<close>

lemma copy_pending_spec:
  "copy_pending file c log w = (Inr (), w1) \<Longrightarrow> \<exists>f. file = Inr f \<and> look (pend w1) c log = Some f
     \<and> upl w1 = upl w \<and> fail w1 = fail w \<and> elsewhere_same c log w w1"
  by (auto simp: copy_pending_def elsewhere_same_def split: sum.splits if_splits)

lemma move_uploaded_dirs: "move_uploaded c log w = (r, w') \<Longrightarrow> dict_has (fail w') d = dict_has (fail w) d"
  by (auto simp: move_uploaded_def split: option.splits if_splits)

lemma move_failed_dirs: "move_failed c log w = (r, w') \<Longrightarrow> dict_has (fail w') d = dict_has (fail w) d"
  by (auto simp: move_failed_def split: option.splits if_splits)

lemma tame_sysreport: "tame (sysreport_log_ops le http dsn pending)"
  by (rule sysreport_delivery.tame)

lemma file_away_done:
  "file_away c log w = (Inl e, w') \<Longrightarrow> False"
  by (auto simp: file_away_def move_failed_def split: prod.splits sum.splits option.splits if_splits)

lemma submit_one_facts:
  assumes "tame ops" and "submit_one ops log w = (g, res, w')"
  shows "dict_has (fail w') c = dict_has (fail w) c \<and> (res = Some (Inr OK) \<longrightarrow> fst (op_submit ops log w) = Inr OK)"
proof -
  obtain r w1 where s: "op_submit ops log w = (r, w1)" by fastforce
  have "fail w1 = fail w" using assms(1) s unfolding tame_def by (metis snd_conv)
  with s assms(2) show ?thesis
    by (auto simp: submit_one_def dest!: move_uploaded_dirs [where d = c] move_failed_dirs [where d = c]
        split: sum.splits hresult.splits prod.splits if_splits)
qed

lemma submit_single:
  assumes "tame ops" and "submit_category ops keep [log] w = (r, w')"
  shows "dict_has (fail w') c = dict_has (fail w) c"
    and "r = Inr sub \<Longrightarrow> dict_get sub log = Some (Inr OK) \<Longrightarrow> \<exists>fs. fst (op_submit ops log (w\<lparr>lockfs := fs\<rparr>)) = Inr OK"
proof -
  let ?h = "op_helper ops"
  obtain ra wa aa where a: "acquire_lock ?h (w, [] :: submitted) = (ra, wa, aa)" by (metis prod.collapse)
  from acquire_lock_world [OF this] obtain fs where wa: "wa = w\<lparr>lockfs := fs\<rparr>" "aa = []" by blast
  obtain rb wb ab where b: "submit_logs ops keep [log] (wa, []) = (rb, wb, ab)" by (metis prod.collapse)
  have f: "dict_has (fail wb) c = dict_has (fail w) c \<and>
      (dict_get ab log = Some (Inr OK) \<longrightarrow> fst (op_submit ops log wa) = Inr OK)"
    using b submit_one_facts [OF assms(1), of log wa _ _ _ c] wa
    by (auto simp: submit_logs_Cons Let_def split: if_splits prod.splits sum.splits option.splits)
  have "(\<exists>fs'. w' = wb\<lparr>lockfs := fs'\<rparr> \<or> w' = wa) \<and> (\<forall>sub. r = Inr sub \<longrightarrow> sub = [] \<or> sub = ab)"
  proof (cases ra)
    case (Inl e)
    with a wa assms(2) show ?thesis by (auto simp: submit_category_def with_block_def split: if_splits)
  next
    case (Inr fd)
    obtain rc wc ac where c: "release_lock ?h fd (wb, ab) = (rc, wc, ac)" by (metis prod.collapse)
    from release_lock_world [OF this] a b wa Inr assms(2) c show ?thesis
      by (auto simp: submit_category_def with_block_def split: if_splits sum.splits)
  qed
  with f wa show "dict_has (fail w') c = dict_has (fail w) c"
    "r = Inr sub \<Longrightarrow> dict_get sub log = Some (Inr OK) \<Longrightarrow> \<exists>fs. fst (op_submit ops log (w\<lparr>lockfs := fs\<rparr>)) = Inr OK"
    by auto
qed

text \<open>C7. Unless the request is cancelled, a report that was copied is settled when the request is answered, whether or not the lock could be taken and whatever came of the submission: it is uploaded when its name is returned and failed otherwise, with all of its bytes, it is pending no longer, and no other log is moved.\<close>

theorem report_is_settled:
  assumes "tame ops" and "c = h_name (op_helper ops)" and "suffix ''.zip'' path"
    and "dict_has (pend w) c" and "dict_has (fail w) c"
    and "send_report ops letters path (Inr f) w = (r, w')" and "r \<noteq> Inl CancelledError"
  shows "look (pend w') c (make_id letters @ ''.zip'') = None
     \<and> (if r = Inr (Inl (make_id letters)) then look (upl w') c (make_id letters @ ''.zip'') = Some f
        else look (fail w') c (make_id letters @ ''.zip'') = Some f)
     \<and> elsewhere_same c (make_id letters @ ''.zip'') w w'"
proof -
  define name where "name = make_id letters @ ''.zip''"
  define w1 where "w1 = w\<lparr>pend := put_log c name f (pend w)\<rparr>"
  have cp: "copy_pending (Inr f) c name w = (Inr (), w1)" using assms(4) by (simp add: copy_pending_def w1_def)
  from copy_pending_spec [OF cp] have p1: "look (pend w1) c name = Some f" "elsewhere_same c name w w1" by auto
  obtain t w2 where sub: "submit_category ops (\<lambda>_ _. True) [name] w1 = (t, w2)" by fastforce
  have dir: "dict_has (fail w2) c"
    using submit_single(1) [OF assms(1) sub, of c] assms(5) by (simp add: w1_def)
  have eq: "send_report ops letters path (Inr f) w = (case t of
       Inl e \<Rightarrow> (Inl e, w2)
     | Inr table \<Rightarrow> (if dict_get table name = Some (Inr OK) then (Inr (Inl (make_id letters)), w2)
         else (case file_away c name w2 of (Inl e, w3) \<Rightarrow> (Inl e, w3)
            | (Inr _, w3) \<Rightarrow> (report_result (dict_get table name), w3))))"
    using assms(3) cp sub unfolding name_def assms(2) by (simp add: send_report_def Let_def split: sum.split)
  from submit_category_spec [OF assms(1) _ sub assms(2)] obtain table
    where t: "t = Inr table" and st: "settles c [name] table w1 w2 \<or> (table = [] \<and> w2 = w1)"
    using eq assms(6,7) by (fastforce simp: is_Exception_def)
  have s: "settled_log c name (dict_get table name) w1 w2" "elsewhere_same c name w1 w2"
    using st by (auto simp: settles_def outside_same_def elsewhere_same_def settled_log_def)
  have trans: "elsewhere_same c name w w2" using p1(2) s(2) by (simp add: elsewhere_same_def)
  show ?thesis
  proof (cases "dict_get table name = Some (Inr OK)")
    case True
    with eq t assms(6) s p1(1) trans show ?thesis by (simp add: settled_log_def flip: name_def)
  next
    case False
    obtain m w3 where m: "move_failed c name w2 = (m, w3)" by fastforce
    from m False s(1) p1(1) dir have f3: "look (pend w3) c name = None \<and> look (fail w3) c name = Some f \<and> elsewhere_same c name w2 w3"
      by (auto simp: move_failed_def settled_log_def elsewhere_same_def split: if_splits option.splits)
    obtain u where "file_away c name w2 = (Inr u, w3)"
      using m by (auto simp: file_away_def move_failed_def split: option.splits if_splits)
    with eq t assms(6) False have "r = report_result (dict_get table name)" "w' = w3" by auto
    with False f3 trans show ?thesis
      by (auto simp: report_result_def elsewhere_same_def simp flip: name_def split: option.splits sum.splits)
  qed
qed

lemma friendly_name:
  assumes "chosen letters"
  shows "fst (splitext (basename (dir @ ''/sysreport/'' @ make_id letters @ ''.zip''))) = make_id letters"
proof -
  let ?i = "make_id letters"
  have "CHR ''/'' \<notin> set id_alphabet" by (simp add: id_alphabet_def)
  then have "CHR ''/'' \<notin> set letters" using assms by (auto simp: chosen_def)
  then have "CHR ''/'' \<notin> set (?i @ ''.zip'')"
    by (auto simp: make_id_def dest: in_set_takeD in_set_dropD)
  from basename_append [OF this, of "dir @ ''/sysreport''"]
  have b: "basename (dir @ ''/sysreport/'' @ ?i @ ''.zip'') = ?i @ CHR ''.'' # ''zip''" by simp
  have "fst (splitext (?i @ CHR ''.'' # ''zip'')) = ?i"
    by (rule splitext_dot) (auto simp: make_id_def)
  with b show ?thesis by simp
qed

lemma answer_no_string: "answer (\<lambda>_. BUnit) r \<noteq> Inr (BStr i)"
  by (cases r) (simp_all add: answer_def)

lemma fst_eq_pair: "fst p = a \<Longrightarrow> \<exists>b. p = (a, b)"
  by (cases p) simp

lemma sysreport_ok:
  assumes "fst (sysreport_submit le http dsn fname file) = Inr OK"
  shows "\<exists>bytes ev. file = Inr bytes \<and> sysreport_prepare le dsn fname file = Send ev
     \<and> ev_tags ev = [(''friendly_id'', JStr (fst (splitext (basename fname))))]
     \<and> map at_data (ev_attachments ev) = [bytes] \<and> (\<exists>reqs. send (le_sentry le) http ev = (Inr OK, reqs))"
proof -
  obtain bytes where b: "file = Inr bytes"
    using assms by (cases "file") (auto simp: sysreport_submit_def sysreport_prepare_def finish_def split: if_splits)
  moreover obtain url where "dsn = Inr url"
    using assms b by (cases dsn) (auto simp: sysreport_submit_def sysreport_prepare_def finish_def)
  ultimately show ?thesis
    using assms by (cases "sysreport_prepare le dsn fname file")
      (auto simp: sysreport_submit_def sysreport_prepare_def finish_def Let_def zip_attachment_def fst_eq_pair)
qed

text \<open>C11. The name that the request returns is the friendly name that the report carries on the server: it was sent, with all the bytes of the file, as an event tagged with that name, and the server accepted it.\<close>

theorem returned_name_is_on_the_server:
  assumes "SendReport describe (sysreport_log_ops le http dsn pending) letters path (Inr f) w = (Inr (BStr i), w')"
    and "chosen letters"
  shows "i = make_id letters \<and> (\<exists>ev reqs. sysreport_prepare le dsn (pending @ ''/sysreport/'' @ i @ ''.zip'') (Inr (lf_text f)) = Send ev
     \<and> ev_tags ev = [(''friendly_id'', JStr i)] \<and> map at_data (ev_attachments ev) = [lf_text f]
     \<and> send (le_sentry le) http ev = (Inr OK, reqs))"
proof -
  let ?ops = "sysreport_log_ops le http dsn pending"
  define name where "name = make_id letters @ ''.zip''"
  have h: "h_name (op_helper ?ops) = ''sysreport''" by (simp add: sysreport_log_ops_def log_ops_def)
  have "send_report ?ops letters path (Inr f) w = (Inr (Inl i), w')"
    using assms(1) by (auto simp: SendReport_def answer_no_string split: prod.splits sum.splits if_splits)
  moreover obtain r1 w1 where cp: "copy_pending (Inr f) ''sysreport'' name w = (r1, w1)" by fastforce
  moreover obtain t w2 where sub: "submit_category ?ops (\<lambda>_ _. True) [name] w1 = (t, w2)" by fastforce
  ultimately obtain table where i: "i = make_id letters" and "r1 = Inr ()" "t = Inr table" "dict_get table name = Some (Inr OK)"
    by (auto simp: send_report_def Let_def h report_result_def name_def split: sum.splits if_splits prod.splits option.splits)
  with sub submit_single(2) [OF tame_sysreport sub] obtain fs where
    "fst (op_submit ?ops name (w1\<lparr>lockfs := fs\<rparr>)) = Inr OK" by blast
  then have ok: "fst (sysreport_submit le http dsn (pending @ ''/sysreport/'' @ name) (pending_bytes ''sysreport'' name w1)) = Inr OK"
    by (simp add: sysreport_log_ops_def log_ops_def pending_bytes_def)
  have "pending_bytes ''sysreport'' name w1 = Inr (lf_text f) \<or> pending_bytes ''sysreport'' name w1 = Inl PermissionError"
    using copy_pending_spec [of "Inr f" "''sysreport''" name w w1] cp \<open>r1 = Inr ()\<close> by (auto simp: pending_bytes_def)
  with sysreport_ok [OF ok] friendly_name [OF assms(2), of pending] show ?thesis
    by (auto simp: i name_def)
qed

section \<open>Witnesses\<close>

definition report_world :: world where
  "report_world = gpu_world\<lparr>pend := [(''sysreport'', [])], upl := [(''sysreport'', [])], fail := [(''sysreport'', [])]\<rparr>"

definition report_ops :: "world helper_ops" where
  "report_ops = sysreport_log_ops sample_logs (\<lambda>_. Inr 200) (Inr ''https://k@h/5'') ''/v''"

definition report_file :: logfile where
  "report_file = \<lparr>lf_text = ''PK'', lf_mtime = 5, lf_readable = True, lf_stat = True\<rparr>"

definition lost_ops :: "world helper_ops" where
  "lost_ops = sysreport_log_ops sample_logs (\<lambda>_. Inl NetworkError) (Inr ''https://k@h/5'') ''/v''"

lemma lost_run: "fst (send_report lost_ops ''34679ABE'' ''/tmp/r.zip'' (Inr report_file) report_world) = Inr (Inr TRANSIENT_ERROR)"
  by code_simp

lemma report_run: "fst (SendReport (\<lambda>_. []) report_ops ''34679ABE'' ''/tmp/r.zip'' (Inr report_file) report_world) = Inr (BStr ''3467-9ABE'')"
  by code_simp

theorem report_is_settled_witness:
  "look (fail (snd (send_report lost_ops ''34679ABE'' ''/tmp/r.zip'' (Inr report_file) report_world))) ''sysreport'' (make_id ''34679ABE'' @ ''.zip'')
     = Some report_file"
proof -
  obtain w' where s: "send_report lost_ops ''34679ABE'' ''/tmp/r.zip'' (Inr report_file) report_world = (Inr (Inr TRANSIENT_ERROR), w')"
    using lost_run by (metis prod.collapse)
  have a: "tame lost_ops" by (simp add: lost_ops_def tame_sysreport)
  have b: "''sysreport'' = h_name (op_helper lost_ops)" by (simp add: lost_ops_def sysreport_log_ops_def log_ops_def)
  have c: "suffix ''.zip'' ''/tmp/r.zip''" "dict_has (pend report_world) ''sysreport''" "dict_has (fail report_world) ''sysreport''"
    by code_simp+
  from report_is_settled [OF a b c s] s show ?thesis by simp
qed

theorem returned_name_is_on_the_server_witness:
  "\<exists>ev reqs. sysreport_prepare sample_logs (Inr ''https://k@h/5'') (''/v'' @ ''/sysreport/'' @ ''3467-9ABE'' @ ''.zip'') (Inr ''PK'') = Send ev
     \<and> send (le_sentry sample_logs) (\<lambda>_. Inr 200) ev = (Inr OK, reqs)"
proof -
  obtain w' where s: "SendReport (\<lambda>_. []) report_ops ''34679ABE'' ''/tmp/r.zip'' (Inr report_file) report_world = (Inr (BStr ''3467-9ABE''), w')"
    using report_run by (metis prod.collapse)
  have c: "chosen ''34679ABE''" by code_simp
  have i: "make_id ''34679ABE'' = ''3467-9ABE''" by code_simp
  have t: "lf_text report_file = ''PK''" by (simp add: report_file_def)
  from returned_name_is_on_the_server [OF s [unfolded report_ops_def] c] show ?thesis
    unfolding i t by blast
qed

end
