(* ===== verification/Package.thy ===== *)
theory Package imports Logging Data begin

text \<open>
  \<^verbatim>\<open>steamos_log_submitter/__init__.py\<close> and \<^verbatim>\<open>data._setup\<close>: the directories of the package, the data root and
  the root logger are set up from the configuration when the package is imported, and not again.
\<close>

record package =
  pk_done :: bool                    \<comment> \<open>_setup\<close>
  pk_conf :: cfg
  pk_base :: string
  pk_pending :: string
  pk_uploaded :: string
  pk_failed :: string
  pk_data :: data_state
  pk_log :: log_state

definition package_defaults :: options where
  "package_defaults = [(''enable'', ''off''), (''base'', ''/var/lib/steamos-log-submitter'')]"

definition data_setup :: "string \<Rightarrow> data_state \<Rightarrow> data_state" where
  "data_setup base st = st\<lparr>data_root := base @ ''/data''\<rparr>"

definition set_dirs :: "string \<Rightarrow> package \<Rightarrow> package" where
  "set_dirs base p = p\<lparr>pk_base := base, pk_pending := base @ ''/pending'', pk_uploaded := base @ ''/uploaded'',
     pk_failed := base @ ''/failed'', pk_data := data_setup base (pk_data p)\<rparr>"

definition package_setup :: "(string \<Rightarrow> unit result) \<Rightarrow> package \<Rightarrow> unit result \<times> package" where
  "package_setup open_log p =
     (if pk_done p then (Inr (), p)
      else (case get_config ''steamos_log_submitter'' of
          Inl e \<Rightarrow> (Inl e, p)
        | Inr sec \<Rightarrow> (case sec_getitem (pk_conf p) sec package_defaults ''base'' of
            Inl e \<Rightarrow> (Inl e, p)
          | Inr base \<Rightarrow> (let p1 = set_dirs base p in
              (case reconfigure_logging (pk_conf p1) open_log None None False (pk_log p1) of
                 (Inl e, l) \<Rightarrow> (Inl e, p1\<lparr>pk_log := l\<rparr>)
               | (Inr _, l) \<Rightarrow> (Inr (), p1\<lparr>pk_log := l, pk_done := True\<rparr>))))))"

section \<open>Set up once\<close>

lemma package_setup_again:
  assumes "package_setup open_log p = (Inr (), p')"
  shows "pk_done p' \<and> package_setup open_log' p' = (Inr (), p')"
  using assms by (auto simp: package_setup_def Let_def split: if_splits sum.splits prod.splits)

lemma failed_setup_is_retried:
  assumes "package_setup open_log p = (Inl e, p')"
  shows "\<not> pk_done p'"
  using assms by (auto simp: package_setup_def Let_def set_dirs_def split: if_splits sum.splits prod.splits)

text \<open>After the package is set up, the helpers' directories and the data files all lie in the directory that the
  configuration names, and importing it again changes nothing, not even when the configuration has changed since.\<close>

theorem directories_follow_the_configuration:
  assumes "package_setup open_log p = (Inr (), p')" and "\<not> pk_done p"
    and "sec_getitem (pk_conf p) ''sls'' package_defaults ''base'' = Inr base"
  shows "pk_pending p' = base @ ''/pending'' \<and> pk_uploaded p' = base @ ''/uploaded'' \<and> pk_failed p' = base @ ''/failed''
     \<and> data_path (pk_data p') name = base @ ''/data/'' @ name @ ''.json''
     \<and> package_setup open_log' (p'\<lparr>pk_conf := c\<rparr>) = (Inr (), p'\<lparr>pk_conf := c\<rparr>)"
  using assms by (auto simp: package_setup_def Let_def set_dirs_def get_config_def data_setup_def data_path_def
      split: if_splits sum.splits prod.splits)

definition fresh_package :: package where
  "fresh_package = \<lparr>pk_done = False, pk_conf = run_cfg, pk_base = [], pk_pending = [], pk_uploaded = [], pk_failed = [],
     pk_data = \<lparr>data_root = [], data_files = [], data_denied = [], root_ok = True, datastore = []\<rparr>,
     pk_log = \<lparr>root_handlers = [], root_level = 30, asyncio_level = None\<rparr>\<rparr>"

lemma fresh_setup: "fst (package_setup (\<lambda>_. Inr ()) fresh_package) = Inr ()"
  by code_simp

lemma fresh_base: "sec_getitem (pk_conf fresh_package) ''sls'' package_defaults ''base'' = Inr ''/var/lib''"
  by code_simp

theorem directories_follow_the_configuration_witness:
  "pk_pending (snd (package_setup (\<lambda>_. Inr ()) fresh_package)) = ''/var/lib'' @ ''/pending''"
proof -
  obtain p' where s: "package_setup (\<lambda>_. Inr ()) fresh_package = (Inr (), p')"
    using fresh_setup by (metis prod.collapse)
  have "\<not> pk_done fresh_package" by (simp add: fresh_package_def)
  from directories_follow_the_configuration [OF s this fresh_base] s show ?thesis by simp
qed

end
