(* ===== verification/Envelope.thy ===== *)
theory Envelope imports Sentry Json begin

text \<open>
  The bytes of an envelope (\<^verbatim>\<open>aggregators/sentry.py\<close>): a header line, and for every attachment a line that
  tells its length, its bytes and an end of line. The server cannot look for the ends of the
  attachments, which are arbitrary bytes, so it relies on the lengths; the contract with the JSON
  text of a line is a locale. Compressing the bytes is \<^verbatim>\<open>gzip\<close>'s.
\<close>

section \<open>Writing\<close>

definition append_json :: "(json \<Rightarrow> string) \<Rightarrow> json \<Rightarrow> string \<Rightarrow> string" where
  "append_json dumps j buf = (buf @ dumps j) @ [CHR 0x0A]"

definition append_item :: "(json \<Rightarrow> string) \<Rightarrow> json \<Rightarrow> string \<Rightarrow> string \<Rightarrow> string" where
  "append_item dumps j item buf = (append_json dumps j buf @ item) @ [CHR 0x0A]"

definition envelope_bytes :: "(json \<Rightarrow> string) \<Rightarrow> envelope \<Rightarrow> string" where
  "envelope_bytes dumps e = fold (\<lambda>(info, item). append_item dumps (JObj info) item) (snd e)
     (append_json dumps (JObj (fst e)) [])"

section \<open>What the server reads\<close>

lemma length_after_le: "length (after c s) \<le> length s"
  using length_dropWhile_le [of "\<lambda>x. x \<noteq> c" s] by (simp add: after_def)

text \<open>The envelope format: one item after the other until the bytes are used up.\<close>

function read_items :: "(string \<Rightarrow> json result) \<Rightarrow> string \<Rightarrow> ((string, json) dict \<times> string) list option" where
  "read_items loads s =
     (if s = [] then Some []
      else (case loads (before (CHR 0x0A) s) of
          Inr (JObj info) \<Rightarrow> (case dict_get info ''length'' of
              Some (JInt n) \<Rightarrow>
                (let rest = after (CHR 0x0A) s; item = take (nat n) rest; more = drop (nat n) rest in
                 if n < 0 \<or> length item < nat n \<or> \<not> prefix [CHR 0x0A] more then None
                 else map_option (Cons (info, item)) (read_items loads (drop 1 more)))
            | _ \<Rightarrow> None)
        | _ \<Rightarrow> None))"
  by pat_completeness auto

termination
proof (relation "measure (length \<circ> snd)")
  fix loads :: "string \<Rightarrow> json result" and s rest item more :: string and n :: int and x2 x6 k
  assume "s \<noteq> []" "rest = after (CHR 0x0A) s" "more = drop (nat n) rest" "\<not> (n < 0 \<or> length item < nat n \<or> \<not> prefix [CHR 0x0A] more)"
  moreover from this have "0 < length s" by simp
  ultimately show "((loads, drop 1 more), loads, s) \<in> measure (length \<circ> snd)"
    using length_after_le [of "CHR 0x0A" s] by (simp del: length_greater_0_conv)
qed simp_all

definition read_envelope :: "(string \<Rightarrow> json result) \<Rightarrow> string \<Rightarrow> envelope option" where
  "read_envelope loads s = (case loads (before (CHR 0x0A) s) of
       Inr (JObj head) \<Rightarrow> map_option (Pair head) (read_items loads (after (CHR 0x0A) s))
     | _ \<Rightarrow> None)"

declare read_items.simps [simp del]

section \<open>What the server reads is what was written\<close>

text \<open>The text of a value is one line, from which the value is read.\<close>

locale json_line =
  fixes dumps :: "json \<Rightarrow> string" and loads :: "string \<Rightarrow> json result"
  assumes loads_dumps: "wf_json v \<Longrightarrow> loads (dumps v) = Inr v"
    and dumps_line: "CHR 0x0A \<notin> set (dumps v)"
begin

definition written_item :: "(string, json) dict \<times> string \<Rightarrow> string" where
  "written_item it = dumps (JObj (fst it)) @ CHR 0x0A # snd it @ [CHR 0x0A]"

lemma envelope_text: "envelope_bytes dumps (head, items) = dumps (JObj head) @ CHR 0x0A # concat (map written_item items)"
proof -
  have "fold (\<lambda>(info, item). append_item dumps (JObj info) item) items buf = buf @ concat (map written_item items)" for buf
    by (induction items arbitrary: buf) (auto simp: append_item_def append_json_def written_item_def)
  then show ?thesis by (simp add: envelope_bytes_def append_json_def)
qed

definition item_ok :: "(string, json) dict \<times> string \<Rightarrow> bool" where
  "item_ok it = (wf_json (JObj (fst it)) \<and> dict_get (fst it) ''length'' = Some (JInt (int (length (snd it)))))"

lemma read_items_written: "list_all item_ok items \<Longrightarrow> read_items loads (concat (map written_item items)) = Some items"
proof (induction items)
  case Nil
  then show ?case by (simp add: read_items.simps)
next
  case (Cons it items)
  obtain info item where it: "it = (info, item)" by fastforce
  have ok: "loads (dumps (JObj info)) = Inr (JObj info)" "dict_get info ''length'' = Some (JInt (int (length item)))"
    using Cons.prems loads_dumps [of "JObj info"] by (auto simp: item_ok_def it)
  have "concat (map written_item (it # items)) = dumps (JObj info) @ CHR 0x0A # item @ CHR 0x0A # concat (map written_item items)"
    by (simp add: written_item_def it)
  with ok Cons show ?case
    by (subst read_items.simps) (simp add: before_append after_append dumps_line it)
qed

lemma read_envelope_written:
  assumes "wf_json (JObj head)" and "list_all item_ok items"
  shows "read_envelope loads (envelope_bytes dumps (head, items)) = Some (head, items)"
  using loads_dumps [OF assms(1)] read_items_written [OF assms(2)]
  by (simp add: read_envelope_def envelope_text before_append after_append dumps_line)

lemma attachment_item_ok: "item_ok (attachment_item a)"
  by (auto simp: item_ok_def attachment_item_def split: option.split)

end

interpretation json_text: json_line "json_dumps show_decimal" "json_loads read_decimal"
  by unfold_locales (rule decimal.loads_written, assumption, rule decimal.one_line)

text \<open>C22. From the bytes of an envelope the server reads back its header and exactly the attachments of the event in their order, each with all of its bytes, whatever bytes and ends of line they have.\<close>

theorem envelope_read_back:
  assumes "sealed_envelope env ev = Some e"
  shows "\<exists>head. read_envelope (json_loads read_decimal) (envelope_bytes (json_dumps show_decimal) e)
       = Some (head, map attachment_item (ev_attachments ev))
     \<and> dict_get head ''event_id'' = Some (JStr (ev_id ev)) \<and> map at_data (ev_attachments ev) = map snd (map attachment_item (ev_attachments ev))"
proof -
  obtain head where e: "e = (head, map attachment_item (ev_attachments ev))"
    and h: "head = [(''dsn'', JStr (ev_dsn ev)), (''event_id'', JStr (ev_id ev)), (''sent_at'', JStr (se_now env))]"
    using assms by (auto simp: sealed_envelope_def split: if_splits)
  have "wf_json (JObj head)" by (simp add: h)
  moreover have "list_all json_text.item_ok (map attachment_item (ev_attachments ev))"
    by (simp add: list_all_iff json_text.attachment_item_ok)
  ultimately show ?thesis
    using json_text.read_envelope_written by (auto simp: e h attachment_item_def)
qed

definition sample_event :: event where
  "sample_event = \<lparr>ev_id = ''1f'', ev_dsn = ''https://k@h/5'', ev_appid = JNull,
     ev_attachments = [\<lparr>at_mime = Some ''text/plain'', at_filename = None, at_data = [CHR 0x0A, CHR ''{'', CHR 0x0A]\<rparr>,
       \<lparr>at_mime = None, at_filename = Some ''a'', at_data = []\<rparr>],
     ev_exceptions = [], ev_tags = [], ev_fingerprint = [], ev_extra = [], ev_timestamp = JNull, ev_environment = None,
     ev_message = JNull, ev_os_build = None, ev_version = None, ev_architecture = ''x86_64''\<rparr>"

definition sample_sentry :: sentry_env where
  "sample_sentry = \<lparr>se_uuid = ''1f'', se_branch = None, se_build = None, se_version = None, se_machine = ''x86_64'',
     se_now = ''now'', se_app_name = (\<lambda>_. JNull), se_unit_id = None, se_dmi = Inr [], se_str = (\<lambda>v. ''s'')\<rparr>"

theorem envelope_read_back_witness:
  "\<exists>e head items. sealed_envelope sample_sentry sample_event = Some e
     \<and> read_envelope (json_loads read_decimal) (envelope_bytes (json_dumps show_decimal) e) = Some (head, items)
     \<and> map snd items = [[CHR 0x0A, CHR ''{'', CHR 0x0A], []]"
proof -
  obtain e where e: "sealed_envelope sample_sentry sample_event = Some e"
    by (simp add: sealed_envelope_def sample_event_def)
  have "map at_data (ev_attachments sample_event) = [[CHR 0x0A, CHR ''{'', CHR 0x0A], []]" by (simp add: sample_event_def)
  with envelope_read_back [OF e] e show ?thesis by metis
qed

end
