(* ===== verification/Helper_Setup.thy ===== *)
theory Helper_Setup imports Interfaces Data begin

text \<open>
  Setting up the helper classes (\<^verbatim>\<open>Helper._setup\<close> with its extensions in \<^verbatim>\<open>sysinfo.py\<close>, \<^verbatim>\<open>sysreport.py\<close> and
  \<^verbatim>\<open>trace.py\<close>, and \<^verbatim>\<open>create_helper\<close>), and the loops of the daemon that create every helper again to export
  and to unexport it. Importing a module is a table that is an argument.
\<close>

section \<open>A helper class\<close>

record hclass =
  cl_module :: string
  cl_defaults :: "(string, json) dict"              \<comment> \<open>defaults, empty for None\<close>
  cl_own :: "string list"                           \<comment> \<open>interfaces that the class's own _setup appends\<close>
  cl_services :: "(string, string) dict"            \<comment> \<open>child services that it adds\<close>
  cl_done :: bool                                   \<comment> \<open>is_setup\<close>
  cl_name :: string
  cl_iface :: bool
  cl_extra :: "string list"
  cl_children :: "(string, string) dict"

definition helpers_module :: string where
  "helpers_module = ''steamos_log_submitter.helpers''"

definition base_setup :: "hclass \<Rightarrow> data_state \<Rightarrow> bool result \<times> hclass \<times> data_state" where
  "base_setup c ds =
     (if cl_done c then (Inr True, c, ds)
      else if cl_module c = helpers_module then (Inr False, c, ds)
      else (let c1 = c\<lparr>cl_extra := [], cl_children := [], cl_name := helper_name (cl_module c)\<rparr> in
        case get_config (cl_module c) of
          Inl e \<Rightarrow> (Inl e, c1, ds)
        | Inr _ \<Rightarrow> (case get_data (cl_module c) (cl_defaults c) ds of
            (Inl e, ds1) \<Rightarrow> (Inl e, c1, ds1)
          | (Inr _, ds1) \<Rightarrow> (Inr True, c1\<lparr>cl_iface := True\<rparr>, ds1))))"

definition class_setup :: "hclass \<Rightarrow> data_state \<Rightarrow> bool result \<times> hclass \<times> data_state" where
  "class_setup c ds = (case base_setup c ds of
       (Inr True, c1, ds1) \<Rightarrow>
         (Inr True, c1\<lparr>cl_extra := cl_extra c1 @ cl_own c1, cl_children := dict_update (cl_children c1) (cl_services c1)\<rparr>, ds1)
     | other \<Rightarrow> other)"

section \<open>Creating helpers\<close>

text \<open>The modules that can be imported, with their helper class if they have one.\<close>

type_synonym modules = "(string, hclass option) dict"

definition create_helper :: "string \<Rightarrow> modules \<times> data_state \<Rightarrow> hclass option result \<times> modules \<times> data_state" where
  "create_helper cat st = (case st of (ms, ds) \<Rightarrow>
     (case dict_get ms cat of
        None \<Rightarrow> (Inr None, st)
      | Some None \<Rightarrow> (Inr None, st)
      | Some (Some c) \<Rightarrow>
         (if cl_done c then (Inr (Some c), st)
          else (case class_setup c ds of
              (Inl e, c1, ds1) \<Rightarrow> (Inl e, dict_set ms cat (Some c1), ds1)
            | (Inr b, c1, ds1) \<Rightarrow>
               (let c2 = c1\<lparr>cl_done := b\<rparr> in (Inr (Some c2), dict_set ms cat (Some c2), ds1))))))"

definition exported_of :: "hclass \<Rightarrow> exported_helper" where
  "exported_of c = \<lparr>ex_name = cl_name c, ex_iface = cl_iface c, ex_extra = cl_extra c, ex_children = cl_children c\<rparr>"

section \<open>The daemon's loops\<close>

fun export_all :: "string list \<Rightarrow> modules \<times> data_state \<Rightarrow> exports \<Rightarrow> unit result \<times> (modules \<times> data_state) \<times> exports" where
  "export_all [] st es = (Inr (), st, es)"
| "export_all (cat # cats) st es = (case create_helper cat st of
       (Inl e, st1) \<Rightarrow> (Inl e, st1, es)
     | (Inr h, st1) \<Rightarrow> export_all cats st1 (setup_helpers [map_option exported_of h] es))"

definition daemon_export :: "string list \<Rightarrow> modules \<times> data_state \<Rightarrow> exports \<Rightarrow> unit result \<times> (modules \<times> data_state) \<times> exports" where
  "daemon_export cats st es = export_all cats st (export (manager_path, manager_iface) es)"

fun unexport_all :: "string list \<Rightarrow> modules \<times> data_state \<Rightarrow> exports \<Rightarrow> unit result \<times> (modules \<times> data_state) \<times> exports" where
  "unexport_all [] st es = (Inr (), st, es)"
| "unexport_all (cat # cats) st es = (case create_helper cat st of
       (Inl e, st1) \<Rightarrow> (Inl e, st1, es)
     | (Inr h, st1) \<Rightarrow> unexport_all cats st1 (shutdown_helpers [map_option exported_of h] es))"

definition daemon_unexport :: "string list \<Rightarrow> modules \<times> data_state \<Rightarrow> exports \<Rightarrow> unit result \<times> (modules \<times> data_state) \<times> exports" where
  "daemon_unexport cats st es = unexport_all cats st (unexport (manager_path, manager_iface) es)"

section \<open>Set up once\<close>

text \<open>Nothing is left to set up: the class of a category, if it has one, is created as it is.\<close>

definition class_of :: "modules \<Rightarrow> string \<Rightarrow> hclass option" where
  "class_of ms cat = (case dict_get ms cat of Some (Some c) \<Rightarrow> Some c | _ \<Rightarrow> None)"

definition settled :: "modules \<Rightarrow> string \<Rightarrow> bool" where
  "settled ms cat = (case class_of ms cat of None \<Rightarrow> True | Some c \<Rightarrow> cl_done c \<or> cl_module c = helpers_module)"

lemma create_settled: "settled ms cat \<Longrightarrow> create_helper cat (ms, ds) = (Inr (class_of ms cat), ms, ds)"
  by (auto simp: create_helper_def settled_def class_of_def class_setup_def base_setup_def dict_set_same split: option.splits)

lemma create_settles:
  assumes "create_helper cat (ms, ds) = (r, ms1, ds1)"
  shows "(case r of Inl e \<Rightarrow> True | Inr h \<Rightarrow> settled ms1 cat \<and> class_of ms1 cat = h)
     \<and> (\<forall>k. settled ms k \<longrightarrow> settled ms1 k \<and> class_of ms1 k = class_of ms k)"
proof (cases "settled ms cat")
  case True
  with assms create_settled [OF True, of ds] show ?thesis by auto
next
  case False
  then obtain c where c: "dict_get ms cat = Some (Some c)" "\<not> cl_done c" "cl_module c \<noteq> helpers_module"
    by (auto simp: settled_def class_of_def split: option.splits)
  obtain q c1 ds2 where b: "class_setup c ds = (q, c1, ds2)" by (metis prod.collapse)
  have "q \<noteq> Inr False"
    using b c(2,3) by (auto simp: class_setup_def base_setup_def Let_def split: sum.splits prod.splits)
  then obtain c2 where "ms1 = dict_set ms cat (Some c2)" "case r of Inl e \<Rightarrow> True | Inr h \<Rightarrow> h = Some c2 \<and> cl_done c2"
    using assms b c(1,2) by (auto simp: create_helper_def Let_def split: sum.splits)
  moreover have "class_of (dict_set ms cat (Some c2)) k = (if k = cat then Some c2 else class_of ms k)" for k
    by (simp add: class_of_def)
  ultimately show ?thesis using False by (auto simp: settled_def split: sum.splits)
qed

lemma setup_one: "setup_helpers (h # hs) es = setup_helpers hs (setup_helpers [h] es)"
  by (cases h) (simp_all add: Let_def)

lemma shutdown_one: "shutdown_helpers (h # hs) es = shutdown_helpers hs (shutdown_helpers [h] es)"
  by (cases h) (simp_all add: Let_def)

lemma export_all_run:
  "export_all cats (ms, ds) es = (Inr (), (ms1, ds1), es1) \<Longrightarrow>
     (\<forall>cat \<in> set cats. settled ms1 cat) \<and> es1 = setup_helpers (map (map_option exported_of \<circ> class_of ms1) cats) es
     \<and> (\<forall>k. settled ms k \<longrightarrow> settled ms1 k \<and> class_of ms1 k = class_of ms k)"
proof (induction cats arbitrary: ms ds es)
  case Nil
  then show ?case by simp
next
  case (Cons cat cats)
  obtain r ms2 ds2 where c: "create_helper cat (ms, ds) = (r, ms2, ds2)" by (metis prod.collapse)
  with Cons.prems obtain h where r: "r = Inr h"
    and run: "export_all cats (ms2, ds2) (setup_helpers [map_option exported_of h] es) = (Inr (), (ms1, ds1), es1)"
    by (auto split: sum.splits)
  from create_settles [OF c] r have h: "settled ms2 cat" "class_of ms2 cat = h"
    "\<forall>k. settled ms k \<longrightarrow> settled ms2 k \<and> class_of ms2 k = class_of ms k" by auto
  from Cons.IH [OF run] h show ?case
    by (simp, subst setup_one, simp)
qed

lemma unexport_settled:
  "(\<forall>cat \<in> set cats. settled ms cat) \<Longrightarrow>
     unexport_all cats (ms, ds) es = (Inr (), (ms, ds), shutdown_helpers (map (map_option exported_of \<circ> class_of ms) cats) es)"
proof (induction cats arbitrary: es)
  case (Cons cat cats)
  then show ?case
    by (simp add: create_settled, subst shutdown_one, simp)
qed simp

text \<open>The other calls that create helpers while the daemon runs.\<close>

definition create_all :: "string list \<Rightarrow> modules \<times> data_state \<Rightarrow> modules \<times> data_state" where
  "create_all cats st = fold (\<lambda>cat s. snd (create_helper cat s)) cats st"

lemma create_all_keeps:
  "create_all cats (ms, ds) = (ms1, ds1) \<Longrightarrow> settled ms k \<Longrightarrow> settled ms1 k \<and> class_of ms1 k = class_of ms k"
proof (induction cats arbitrary: ms ds)
  case Nil
  then show ?case by (simp add: create_all_def)
next
  case (Cons cat cats)
  obtain r ms2 ds2 where c: "create_helper cat (ms, ds) = (r, ms2, ds2)" by (metis prod.collapse)
  with Cons create_settles [OF c] show ?case by (auto simp: create_all_def)
qed

text \<open>C31. A daemon that has started takes back, when it shuts down, everything it had exported and nothing else, although it creates every helper a second time for it and whatever helpers were created in between: every helper is set up once and keeps its interfaces.\<close>

theorem daemon_takes_back_its_exports:
  assumes "daemon_export cats st es = (Inr (), st1, es1)" and "set es \<inter> set (drop (length es) es1) = {}"
  shows "daemon_unexport cats (create_all others st1) es1 = (Inr (), create_all others st1, es)"
proof -
  obtain ms ds ms1 ds1 ms2 ds2 where st: "st = (ms, ds)" "st1 = (ms1, ds1)" "create_all others st1 = (ms2, ds2)"
    by (metis prod.collapse)
  let ?hs = "map (map_option exported_of \<circ> class_of ms1) cats"
  from export_all_run assms(1) have run: "\<forall>cat \<in> set cats. settled ms1 cat" "es1 = setup_dbus ?hs es"
    unfolding st daemon_export_def setup_dbus_def by blast+
  with create_all_keeps st have later: "\<forall>cat \<in> set cats. settled ms2 cat \<and> class_of ms2 cat = class_of ms1 cat" by blast
  then have "map (map_option exported_of \<circ> class_of ms2) cats = ?hs" by simp
  with unexport_settled [of cats ms2 ds2] later have "daemon_unexport cats (ms2, ds2) es1 = (Inr (), (ms2, ds2), shutdown_dbus ?hs es1)"
    by (simp add: daemon_unexport_def shutdown_dbus_def)
  moreover have "set es \<inter> set (daemon_exports ?hs) = {}" using assms(2) by (simp add: run(2) setup_dbus_eq)
  ultimately show ?thesis using shutdown_takes_back_exports st(3) run(2) by simp
qed

text \<open>C37. One damaged data file is enough to keep the daemon from starting: the JSONDecodeError that setting up its helper raises leaves the start, and neither that helper nor any that comes after it is exported.\<close>

theorem damaged_data_stops_the_start:
  assumes "daemon_export pre st es = (Inr (), (ms, ds), es1)"
    and "dict_get ms cat = Some (Some c)" and "\<not> cl_done c" and "prefix (helpers_module @ ''.'') (cl_module c)"
    and "dict_get (datastore ds) (data_name (cl_module c)) = None"
    and "dict_get (data_files ds) (data_path ds (data_name (cl_module c))) = Some None"
    and "data_path ds (data_name (cl_module c)) \<notin> set (data_denied ds)"
  shows "\<exists>st'. daemon_export (pre @ cat # post) st es = (Inl JSONDecodeError, st', es1)"
proof -
  have run: "export_all pre s e = (Inr (), s1, e1) \<Longrightarrow> export_all (pre @ rest) s e = export_all rest s1 e1" for s e s1 e1 rest
    by (induction pre arbitrary: s e) (auto split: sum.splits prod.splits)
  have m: "cl_module c \<noteq> helpers_module" "\<exists>s. get_config (cl_module c) = Inr s"
    using assms(4) by (auto simp: helpers_module_def get_config_def prefix_def)
  have "get_data (cl_module c) (cl_defaults c) ds = (Inl JSONDecodeError, ds)"
    using assms(5-7) by (rule damaged_store_raises)
  with m assms(2,3) have "\<exists>st'. create_helper cat (ms, ds) = (Inl JSONDecodeError, st')"
    by (auto simp: create_helper_def class_setup_def base_setup_def Let_def)
  with run [OF assms(1) [unfolded daemon_export_def]] show ?thesis by (auto simp: daemon_export_def)
qed

section \<open>Witnesses\<close>

definition fresh_class :: "string \<Rightarrow> string list \<Rightarrow> (string, string) dict \<Rightarrow> hclass" where
  "fresh_class cat own services = \<lparr>cl_module = ''steamos_log_submitter.helpers.'' @ cat, cl_defaults = [], cl_own = own,
     cl_services = services, cl_done = False, cl_name = [], cl_iface = False, cl_extra = [], cl_children = []\<rparr>"

definition three_modules :: modules where
  "three_modules = [(''sysinfo'', Some (fresh_class ''sysinfo'' [] [(''Usb'', ''x.Sysinfo'')])), (''bad'', None),
     (''trace'', Some (fresh_class ''trace'' [''x.Trace''] []))]"

definition empty_data :: data_state where
  "empty_data = \<lparr>data_root = ''/d'', data_files = [(''/d/helpers.trace.json'', None)], data_denied = [], root_ok = True, datastore = []\<rparr>"

lemma start_two: "daemon_export [''sysinfo'', ''bad'', ''gone''] (three_modules, empty_data) [(''/x'', ''y'')]
    = (Inr (), fst (snd (daemon_export [''sysinfo'', ''bad'', ''gone''] (three_modules, empty_data) [(''/x'', ''y'')])),
       [(''/x'', ''y''), (manager_path, manager_iface), (helper_path ''sysinfo'', helper_iface), (helper_path ''sysinfo'' @ ''/Usb'', ''x.Sysinfo'')])"
  by code_simp

lemma start_one: "daemon_export [''sysinfo''] (three_modules, empty_data) []
    = (Inr (), fst (snd (daemon_export [''sysinfo''] (three_modules, empty_data) [])),
       [(manager_path, manager_iface), (helper_path ''sysinfo'', helper_iface), (helper_path ''sysinfo'' @ ''/Usb'', ''x.Sysinfo'')])"
  by code_simp

theorem daemon_takes_back_its_exports_witness:
  "snd (snd (daemon_unexport [''sysinfo'', ''bad'', ''gone'']
     (create_all [''trace'', ''sysinfo''] (fst (snd (daemon_export [''sysinfo'', ''bad'', ''gone''] (three_modules, empty_data) [(''/x'', ''y'')]))))
     [(''/x'', ''y''), (manager_path, manager_iface), (helper_path ''sysinfo'', helper_iface), (helper_path ''sysinfo'' @ ''/Usb'', ''x.Sysinfo'')]))
   = [(''/x'', ''y'')]"
proof -
  have "set [(''/x'', ''y'')] \<inter> set (drop (length [(''/x'', ''y'')]) [(''/x'', ''y''), (manager_path, manager_iface), (helper_path ''sysinfo'', helper_iface),
      (helper_path ''sysinfo'' @ ''/Usb'', ''x.Sysinfo'')]) = {}"
    by code_simp
  from daemon_takes_back_its_exports [OF start_two this, of "[''trace'', ''sysinfo'']"] show ?thesis by simp
qed

theorem damaged_data_stops_the_start_witness:
  "fst (daemon_export [''sysinfo'', ''trace''] (three_modules, empty_data) []) = Inl JSONDecodeError"
proof -
  obtain ms ds where st: "fst (snd (daemon_export [''sysinfo''] (three_modules, empty_data) [])) = (ms, ds)" by fastforce
  define c where "c = fresh_class ''trace'' [''x.Trace''] []"
  have f: "dict_get (fst (fst (snd (daemon_export [''sysinfo''] (three_modules, empty_data) [])))) ''trace'' = Some (Some (fresh_class ''trace'' [''x.Trace''] []))"
    "dict_get (datastore (snd (fst (snd (daemon_export [''sysinfo''] (three_modules, empty_data) []))))) ''helpers.trace'' = None"
    "dict_get (data_files (snd (fst (snd (daemon_export [''sysinfo''] (three_modules, empty_data) []))))) ''/d/helpers.trace.json'' = Some None"
    "data_root (snd (fst (snd (daemon_export [''sysinfo''] (three_modules, empty_data) [])))) = ''/d''"
    "data_denied (snd (fst (snd (daemon_export [''sysinfo''] (three_modules, empty_data) [])))) = []"
    by code_simp+
  have n: "data_name (cl_module c) = ''helpers.trace''" "\<not> cl_done c" "prefix (helpers_module @ ''.'') (cl_module c)"
    unfolding c_def by code_simp+
  have d: "data_path ds ''helpers.trace'' = ''/d/helpers.trace.json''" using f(4) by (simp add: data_path_def st)
  from damaged_data_stops_the_start [OF start_one [unfolded st], of "''trace''" c "[]"] f n d
  show ?thesis by (auto simp: st c_def)
qed

end
