(* ===== verification/Spec2Isabelle.thy ===== *)
theory Spec2Isabelle imports Lock_Protocol Data Helper_Files Runner_All Util_Names Util_Proc Util_System Minidump Submits Daemon
  Journal Kdump Trace Sysinfo_Devices Edid Dbus Earlyoom Logging Cli Gpu_Hook Delivery Sysreport Package Envelope Helper_Setup
begin

text \<open>
  A verification development for SteamOS Log Submitter (\<^verbatim>\<open>src/steamos_log_submitter\<close>), the daemon
  that collects crash dumps, traces and system information and submits them to Valve.

  \<^bold>\<open>How the program works.\<close> Hooks that the kernel, udev or systemd start stage a log in the directory of
  its helper below \<^verbatim>\<open>pending\<close>. The daemon triggers the runner, periodically or on request over D-Bus. The
  runner lets every enabled helper collect, then submit each pending log under the lock of its
  directory; the result decides whether the log stays, moves to \<^verbatim>\<open>uploaded\<close> or moves to \<^verbatim>\<open>failed\<close>. Most
  helpers submit by sending an event and an envelope to Sentry. A client and a command line steer the
  daemon over the bus. All of them share one configuration and one set of data files.

  \<^bold>\<open>The state.\<close> The record \<open>world\<close> (theory Helpers) holds the three directory trees, the lock files of
  theory Lockfile, the configuration of theory Config and the signals emitted on the bus; every
  operation of the helpers and the runner passes it on. Exceptions are values of \<open>exn\<close> (or \<open>raised\<close> on
  the bus) on the left of a sum, so that every raise and every handler of the source is a branch.
  Where a step can fail half way, what was changed until then stays changed, as it does in Python.

  \<^bold>\<open>The theories and the files they model\<close>, in dependency order:

    \<^item> SLS\_Prelude, Py\_Strings: exceptions, insertion-ordered dictionaries, JSON values, and the string
      operations of Python that the modules use. Json: the texts of \<^verbatim>\<open>json.dumps\<close> and \<^verbatim>\<open>json.loads\<close>, with the
      proof that they are inverse, which discharges the contract \<open>json_line\<close> of theory Envelope.
    \<^item> Lockfile, Lock\_Protocol, With\_Lock (\<^verbatim>\<open>lockfile.py\<close>): the system calls of lock and unlock one by
      one; lock, unlock and the retrying lock run alone and interleaved with other processes; the
      contract \<open>mutex\<close> of a lock that \<^verbatim>\<open>with\<close> blocks rest on, which theory Runner interprets.
    \<^item> Kv\_Store, Config\_Parser, Config (\<^verbatim>\<open>config.py\<close>), Data (\<^verbatim>\<open>data.py\<close>): layered configuration, migration
      and writing; the data files. Both keep the contract \<open>kv_store\<close>.
    \<^item> Package (\<^verbatim>\<open>__init__.py\<close>), Logging (\<^verbatim>\<open>logging.py\<close>), Util, Util\_Names, Util\_Proc, Util\_System (\<^verbatim>\<open>util.py\<close>).
    \<^item> Helpers, Helper\_Files, Helper\_Setup (\<^verbatim>\<open>helpers/__init__.py\<close>): results, flags, listings, collecting,
      staging files, extracting, and how helper classes are set up and exported.
    \<^item> Runner, Runner\_Safety, Runner\_All (\<^verbatim>\<open>runner.py\<close>): one category under its lock, and all of them.
    \<^item> Sentry, Envelope (\<^verbatim>\<open>aggregators/sentry.py\<close>); Minidump, Submits, Unit\_Names, Journal, Kdump\_Lines, Kdump,
      Trace, Sysinfo, Sysinfo\_Devices, Edid, Earlyoom, Sysreport (\<^verbatim>\<open>helpers/*.py\<close>): each helper from its log
      to the event that is sent, and what it collects.
    \<^item> Delivery: the contract \<open>honest_helper\<close> that the runner relies on and does not check (OK means that
      the server has the log), interpreted on six helpers.
    \<^item> Daemon (\<^verbatim>\<open>daemon.py\<close>): the asyncio tasks as a step relation with cancellation. Errors (\<^verbatim>\<open>exceptions.py\<close>),
      Interfaces, Dbus (\<^verbatim>\<open>dbus.py\<close>), Client (\<^verbatim>\<open>client.py\<close>), Cli (\<^verbatim>\<open>cli.py\<close>): the objects on the bus, errors on the
      wire, and the other end; the contract \<open>helper_bus\<close> of the client is interpreted on the daemon.
    \<^item> Blocks, Hooks, Gpu\_Hook (\<^verbatim>\<open>hooks/*.py\<close>): core dumps, device core dumps and GPU resets.

  \<^bold>\<open>What is shown.\<close> A log is never lost and is called uploaded only when it was (Runner\_Safety, Runner\_All,
  Delivery, Sysreport and this theory). A lock excludes, except in a race that is exhibited
  (Lock\_Protocol). No two triggers run at once, but two tasks can wait for each other forever, and a
  cancelled one blocks all later ones (Daemon). Settings and data survive restarts and migrations
  (Config, Data). Values survive what encodes them: unit names, trace lines, EDID blocks, match rules,
  variants, errors and envelopes. Environments are made anonymous (Minidump), extraction stays inside
  the directories (Helper\_Files), kernel crashes are summed up as specified (Kdump). The client refines
  a map of enabled flags (Client, Cli). Where the code does not do what it means to, a theorem says
  what it does instead, for every input of that kind.

  \<^bold>\<open>Bounds and fuel.\<close> \<^verbatim>\<open>get_appid\<close> walks up the process tree with fuel; on a process table without
  cycles any fuel above the number of generations over the process is enough. Cancelling follows the chain of awaits with
  fuel \<open>Suc next_task\<close>, more than there are tasks. Reading a signature has fuel its length, reading a
  JSON text one more than its length, and both are shown to be enough. Bytes of an EDID block and the
  lock's inode numbers are words and naturals; integers in variants are unbounded, as in Python, and
  the theorem on them says where each D-Bus type takes over.

  \<^bold>\<open>What is not modelled.\<close> The text formats of configparser, gzip, zip archives and minidumps; the
  network, the bus daemon, journalctl, pacman, umr, elftools, sqlite and alsa, which are parameters
  whose every answer and failure is considered; the connection to the system bus and the wrappers of
  \<^verbatim>\<open>dbus.py\<close> that only attach a signature; argparse; the main blocks; type aliases. Characters of strings
  are code points below 256, character classes are those of ASCII, floats are fixed-point numbers.
  Signals of the operating system and other programs that change the files at the same time are
  considered for the lock files only.
\<close>

section \<open>From a GPU reset to the server\<close>

lemma staged_is_pending:
  assumes "with_staging cat rnd name chown (Inr (), f) w = (Inr (), w')"
  shows "look (pend w') cat name = Some f"
  using assms
  by (auto simp: with_staging_def staging_open_def staging_close_def look_def pend_dir_def set_pend_def split: option.splits sum.splits prod.splits if_splits)


definition reset_registry :: "world registry" where
  "reset_registry = [(''gpu'', Some (gpu_log_ops (ke_logs sample_kdump) (\<lambda>_. Inr 200) (\<lambda>_. Inl BadZipFile) (Inr ''https://k@h/5'') ''/v''))]"

lemma reset_staged:
  "wf_tree (pend (snd (gpu_run (\<lambda>_. ''{}'') (\<lambda>_. ''PK'') reset_env gpu_world)))"
  "look (upl (snd (gpu_run (\<lambda>_. ''{}'') (\<lambda>_. ''PK'') reset_env gpu_world))) ''gpu'' (show_int (ge_now reset_env) @ ''.zip'') = None"
  by code_simp+


end
